theory Spec2Isabelle
  imports Complex_Main "HOL-Library.AList"
begin

section \<open>Calendar sync service: a shallow embedding of main.py\<close>

text \<open>
  The development follows \<^verbatim>\<open>main.py\<close>: the event model (\<^verbatim>\<open>CalendarEvent\<close>), the sheet
  reader (\<^verbatim>\<open>read_sheet_events\<close>), the calendar snapshot
  (\<^verbatim>\<open>get_existing_calendar_events\<close>), the bounded retry
  (\<^verbatim>\<open>create_event_with_retry\<close>) and the reconciliation run (\<^verbatim>\<open>sync_events\<close>) over the
  SQLite tables created by \<^verbatim>\<open>_create_tables\<close>.

  Conventions.
  \<^item> A Python string is a \<open>string\<close>, a character being a code point below 256;
    \<^verbatim>\<open>strip\<close> and \<^verbatim>\<open>lower\<close> are those of Python on these code points.
  \<^item> An exception is a value \<open>Inl msg\<close>, where \<open>msg\<close> is what \<^verbatim>\<open>str(e)\<close> gives.
  \<^item> The Google services, \<^verbatim>\<open>hashlib.sha256\<close>, \<^verbatim>\<open>DateTimeParser.parse\<close>,
    \<^verbatim>\<open>datetime.fromisoformat\<close> and \<^verbatim>\<open>int(float(s))\<close> are taken from an environment record
    \<open>env\<close>: the theorems hold for every environment, that is for every behaviour of the
    services.
  \<^item> Wall-clock values (duration, timestamps, AUTOINCREMENT ids) and the upload of the
    database file to the bucket are left out: no table content depends on them.
\<close>

subsection \<open>Strings\<close>

text \<open>
  \<^verbatim>\<open>str.strip()\<close>: the code points below 256 for which \<^verbatim>\<open>str.isspace\<close> holds, among
  them U+0085 and U+00A0.
\<close>

definition is_space :: "char \<Rightarrow> bool" where
  "is_space c = (c \<in> set [CHR 0x09, CHR 0x0A, CHR 0x0B, CHR 0x0C, CHR 0x0D,
                            CHR 0x1C, CHR 0x1D, CHR 0x1E, CHR 0x1F, CHR '' '',
                            CHR 0x85, CHR 0xA0])"

definition strip :: "string \<Rightarrow> string" where
  "strip s = rev (dropWhile is_space (rev (dropWhile is_space s)))"

text \<open>
  \<^verbatim>\<open>str.lower()\<close>: the letters A to Z and the capital letters U+00C0 to U+00DE (but the
  sign U+00D7) go to the code point 32 above; every other code point below 256 stays.
\<close>

definition capital_letters :: string where
  "capital_letters = ''ABCDEFGHIJKLMNOPQRSTUVWXYZ'' @
     [CHR 0xC0, CHR 0xC1, CHR 0xC2, CHR 0xC3, CHR 0xC4, CHR 0xC5, CHR 0xC6, CHR 0xC7,
      CHR 0xC8, CHR 0xC9, CHR 0xCA, CHR 0xCB, CHR 0xCC, CHR 0xCD, CHR 0xCE, CHR 0xCF,
      CHR 0xD0, CHR 0xD1, CHR 0xD2, CHR 0xD3, CHR 0xD4, CHR 0xD5, CHR 0xD6,
      CHR 0xD8, CHR 0xD9, CHR 0xDA, CHR 0xDB, CHR 0xDC, CHR 0xDD, CHR 0xDE]"

definition small_letters :: string where
  "small_letters = ''abcdefghijklmnopqrstuvwxyz'' @
     [CHR 0xE0, CHR 0xE1, CHR 0xE2, CHR 0xE3, CHR 0xE4, CHR 0xE5, CHR 0xE6, CHR 0xE7,
      CHR 0xE8, CHR 0xE9, CHR 0xEA, CHR 0xEB, CHR 0xEC, CHR 0xED, CHR 0xEE, CHR 0xEF,
      CHR 0xF0, CHR 0xF1, CHR 0xF2, CHR 0xF3, CHR 0xF4, CHR 0xF5, CHR 0xF6,
      CHR 0xF8, CHR 0xF9, CHR 0xFA, CHR 0xFB, CHR 0xFC, CHR 0xFD, CHR 0xFE]"

definition lower_char :: "char \<Rightarrow> char" where
  "lower_char c =
     (case map_of (zip capital_letters small_letters) c of
        Some d \<Rightarrow> d
      | None \<Rightarrow> c)"

definition lower :: "string \<Rightarrow> string" where
  "lower s = map lower_char s"

text \<open>
  \<^verbatim>\<open>str.upper()\<close> as far as the source uses it, to look the result up among the four
  ASCII keys of \<^verbatim>\<open>color_map\<close>: the small letters go to the capital ones. Python sends
  U+00DF to \<^verbatim>\<open>SS\<close> and U+00B5, U+00FF above 255; here they stay. Either way a string
  with one of them is none of the keys, none of which has \<^verbatim>\<open>SS\<close>.
\<close>

definition upper_char :: "char \<Rightarrow> char" where
  "upper_char c =
     (case map_of (zip small_letters capital_letters) c of
        Some d \<Rightarrow> d
      | None \<Rightarrow> c)"

definition upper :: "string \<Rightarrow> string" where
  "upper s = map upper_char s"

text \<open>
  \<^verbatim>\<open>s.replace(old, new)\<close> for a non-empty \<open>old\<close> (every use in the source): the
  occurrences are replaced from left to right, without overlap.
\<close>

function replace :: "string \<Rightarrow> string \<Rightarrow> string \<Rightarrow> string" where
  "replace old new [] = []"
| "replace old new (c # cs) =
     (if old \<noteq> [] \<and> take (length old) (c # cs) = old
      then new @ replace old new (drop (length old) (c # cs))
      else c # replace old new cs)"
  by pat_completeness auto
termination
  by (relation "measure (\<lambda>(old, new, s). length s)") (auto simp: neq_Nil_conv)

text \<open>
  \<^verbatim>\<open>re.sub(r'<[^>]+>', '', s)\<close>: at a \<^verbatim>\<open><\<close> followed by at least one character other than
  \<^verbatim>\<open>>\<close> and then by a \<^verbatim>\<open>>\<close>, everything up to and including that first \<^verbatim>\<open>>\<close> is removed
  and the scan goes on behind it; any other character is kept.
\<close>

function strip_tags :: "string \<Rightarrow> string" where
  "strip_tags [] = []"
| "strip_tags (c # cs) =
     (if c = CHR ''<'' \<and> takeWhile (\<lambda>x. x \<noteq> CHR ''>'') cs \<noteq> []
         \<and> dropWhile (\<lambda>x. x \<noteq> CHR ''>'') cs \<noteq> []
      then strip_tags (tl (dropWhile (\<lambda>x. x \<noteq> CHR ''>'') cs))
      else c # strip_tags cs)"
  by pat_completeness auto
termination
  by (relation "measure length")
     (auto simp: less_Suc_eq_le intro: le_trans[OF _ length_dropWhile_le] diff_le_self)

text \<open>\<^verbatim>\<open>sep.join(xs)\<close>.\<close>

fun join :: "string \<Rightarrow> string list \<Rightarrow> string" where
  "join sep [] = []"
| "join sep [x] = x"
| "join sep (x # y # ys) = x @ sep @ join sep (y # ys)"

text \<open>Python compares strings by code point, lexicographically.\<close>

fun str_less :: "string \<Rightarrow> string \<Rightarrow> bool" where
  "str_less [] [] = False"
| "str_less [] (y # ys) = True"
| "str_less (x # xs) [] = False"
| "str_less (x # xs) (y # ys) =
     ((of_char x :: nat) < of_char y \<or> (x = y \<and> str_less xs ys))"

text \<open>\<^verbatim>\<open>min(xs)\<close> and \<^verbatim>\<open>max(xs)\<close> of a non-empty list of strings (the first extremal one).\<close>

definition str_min :: "string list \<Rightarrow> string" where
  "str_min xs = fold (\<lambda>x m. if str_less x m then x else m) (tl xs) (hd xs)"

definition str_max :: "string list \<Rightarrow> string" where
  "str_max xs = fold (\<lambda>x m. if str_less m x then x else m) (tl xs) (hd xs)"

subsection \<open>Naive datetimes\<close>

text \<open>
  A \<^verbatim>\<open>datetime\<close> without time zone. The parser builds its values with
  \<^verbatim>\<open>strptime\<close> formats that have no fractional seconds and with
  \<^verbatim>\<open>datetime(year, month, day, hour, minute, second)\<close>, so the microsecond is always 0
  and is not a field. Python keeps every value within \<open>valid_datetime\<close>.
\<close>

record datetime =
  year :: nat
  month :: nat
  day :: nat
  hour :: nat
  minute :: nat
  second :: nat

definition leap :: "nat \<Rightarrow> bool" where
  "leap y = (y mod 4 = 0 \<and> (y mod 100 \<noteq> 0 \<or> y mod 400 = 0))"

definition days_in_month :: "nat \<Rightarrow> nat \<Rightarrow> nat" where
  "days_in_month y m =
     (if m = 2 then (if leap y then 29 else 28)
      else if m = 4 \<or> m = 6 \<or> m = 9 \<or> m = 11 then 30 else 31)"

definition valid_datetime :: "datetime \<Rightarrow> bool" where
  "valid_datetime d =
     (1 \<le> year d \<and> year d \<le> 9999 \<and> 1 \<le> month d \<and> month d \<le> 12 \<and>
      1 \<le> day d \<and> day d \<le> days_in_month (year d) (month d) \<and>
      hour d < 24 \<and> minute d < 60 \<and> second d < 60)"

definition digit :: "nat \<Rightarrow> char" where
  "digit n = ''0123456789'' ! n"

text \<open>\<^verbatim>\<open>'%02d'\<close> and \<^verbatim>\<open>'%04d'\<close> on the values a valid datetime has.\<close>

definition pad2 :: "nat \<Rightarrow> string" where
  "pad2 n = [digit (n div 10), digit (n mod 10)]"

definition pad4 :: "nat \<Rightarrow> string" where
  "pad4 n = [digit (n div 1000), digit (n div 100 mod 10), digit (n div 10 mod 10),
             digit (n mod 10)]"

definition format_datetime :: "char \<Rightarrow> datetime \<Rightarrow> string" where
  "format_datetime sep d =
     pad4 (year d) @ ''-'' @ pad2 (month d) @ ''-'' @ pad2 (day d) @ [sep] @
     pad2 (hour d) @ '':'' @ pad2 (minute d) @ '':'' @ pad2 (second d)"

text \<open>\<^verbatim>\<open>d.isoformat()\<close> and \<^verbatim>\<open>str(d)\<close>.\<close>

definition isoformat :: "datetime \<Rightarrow> string" where
  "isoformat d = format_datetime CHR ''T'' d"

definition str_datetime :: "datetime \<Rightarrow> string" where
  "str_datetime d = format_datetime CHR '' '' d"

text \<open>The order of naive datetimes is the lexicographic order of their fields.\<close>

fun lex_less :: "nat list \<Rightarrow> nat list \<Rightarrow> bool" where
  "lex_less (x # xs) (y # ys) = (x < y \<or> (x = y \<and> lex_less xs ys))"
| "lex_less _ _ = False"

definition dt_fields :: "datetime \<Rightarrow> nat list" where
  "dt_fields d = [year d, month d, day d, hour d, minute d, second d]"

definition dt_less :: "datetime \<Rightarrow> datetime \<Rightarrow> bool" where
  "dt_less a b = lex_less (dt_fields a) (dt_fields b)"

definition dt_le :: "datetime \<Rightarrow> datetime \<Rightarrow> bool" where
  "dt_le a b = (\<not> dt_less b a)"

definition dt_min :: "datetime list \<Rightarrow> datetime" where
  "dt_min xs = fold (\<lambda>x m. if dt_less x m then x else m) (tl xs) (hd xs)"

definition dt_max :: "datetime list \<Rightarrow> datetime" where
  "dt_max xs = fold (\<lambda>x m. if dt_less m x then x else m) (tl xs) (hd xs)"

text \<open>
  \<^verbatim>\<open>d - timedelta(days=1)\<close> and \<^verbatim>\<open>d + timedelta(days=1)\<close>: Python raises
  \<^verbatim>\<open>OverflowError\<close> when the result leaves the years 1 to 9999.
\<close>

definition minus_one_day :: "datetime \<Rightarrow> string + datetime" where
  "minus_one_day d =
     (if 1 < day d then Inr (d\<lparr>day := day d - 1\<rparr>)
      else if 1 < month d
        then Inr (d\<lparr>month := month d - 1, day := days_in_month (year d) (month d - 1)\<rparr>)
      else if 1 < year d then Inr (d\<lparr>year := year d - 1, month := 12, day := 31\<rparr>)
      else Inl ''date value out of range'')"

definition plus_one_day :: "datetime \<Rightarrow> string + datetime" where
  "plus_one_day d =
     (if day d < days_in_month (year d) (month d) then Inr (d\<lparr>day := day d + 1\<rparr>)
      else if month d < 12 then Inr (d\<lparr>month := month d + 1, day := 1\<rparr>)
      else if year d < 9999 then Inr (d\<lparr>year := year d + 1, month := 1, day := 1\<rparr>)
      else Inl ''date value out of range'')"

subsection \<open>Configuration\<close>

definition BATCH_SIZE :: nat where "BATCH_SIZE = 10"
definition RATE_LIMIT_DELAY :: rat where "RATE_LIMIT_DELAY = 1 / 2"
definition MAX_DESCRIPTION_LENGTH :: nat where "MAX_DESCRIPTION_LENGTH = 8000"
definition TIMEZONE :: string where "TIMEZONE = ''Africa/Cairo''"
definition RETRY_DELAY :: rat where "RETRY_DELAY = 1"

subsection \<open>The event model\<close>

text \<open>
  \<^verbatim>\<open>CalendarEvent\<close>. The reader, the only place that builds events, never passes
  \<^verbatim>\<open>unique_id\<close>, so \<^verbatim>\<open>__post_init__\<close> always computes it: it is a function of the
  event. \<^verbatim>\<open>validation_errors\<close> is what \<^verbatim>\<open>is_valid\<close> stores.
\<close>

record CalendarEvent =
  sheet_id :: string
  name :: string
  start_time :: datetime
  end_time :: datetime
  description :: string
  event_type :: string
  color :: string
  focus_time :: bool
  row_number :: nat

definition unique_id :: "CalendarEvent \<Rightarrow> string" where
  "unique_id e = sheet_id e @ ''_'' @ isoformat (start_time e)"

text \<open>
  \<^verbatim>\<open>is_valid\<close>: a datetime object is always truthy, so the two "missing" checks never
  fire on an event of the reader.
\<close>

definition validation_errors_of :: "CalendarEvent \<Rightarrow> string list" where
  "validation_errors_of e =
     (if strip (name e) = [] then [''Event name is empty''] else []) @
     (if dt_le (end_time e) (start_time e)
      then [''End time ('' @ str_datetime (end_time e) @ '') must be after start time (''
              @ str_datetime (start_time e) @ '')'']
      else [])"

definition is_valid :: "CalendarEvent \<Rightarrow> bool" where
  "is_valid e = (validation_errors_of e = [])"

subsection \<open>The environment\<close>

text \<open>
  The payload of \<^verbatim>\<open>to_google_event\<close>: summary, start, end, the cleaned description and the
  colour code.
\<close>

record GoogleEvent =
  summary :: string
  start_dateTime :: string
  end_dateTime :: string
  timeZone :: string
  g_description :: "string option"
  colorId :: "string option"

text \<open>A calendar entry as the calendar service returns it; a missing key is \<open>''''\<close>.\<close>

record CalEntry =
  entry_id :: string
  status :: string
  entry_summary :: string
  entry_start :: string

text \<open>
  \<^verbatim>\<open>ParsedDateTime\<close>: \<^verbatim>\<open>DateTimeParser.parse\<close> returns either a datetime with
  \<^verbatim>\<open>is_valid = True\<close> or no datetime with \<^verbatim>\<open>is_valid = False\<close> and an error message.
\<close>

datatype ParsedDateTime = Parsed datetime | Unparsed string

text \<open>
  What the run takes from outside. A response of the calendar service may depend on
  the arguments of the call and on the number of calendar calls made before it.
  \<^item> \<open>sha256_hex s\<close> is \<^verbatim>\<open>hashlib.sha256(s.encode()).hexdigest()\<close>;
  \<^item> \<open>parse_datetime\<close> is \<^verbatim>\<open>DateTimeParser.parse\<close>; \<open>Inl\<close> is an exception that leaves it
    (it catches \<^verbatim>\<open>ValueError\<close>, \<^verbatim>\<open>IndexError\<close> and \<^verbatim>\<open>AttributeError\<close> only; a year too
    large for \<^verbatim>\<open>datetime\<close> raises \<^verbatim>\<open>OverflowError\<close>);
  \<^item> \<open>int_of_float s\<close> is \<^verbatim>\<open>int(float(s))\<close>: \<open>Inr (Some n)\<close> its value, \<open>Inr None\<close> a
    \<^verbatim>\<open>ValueError\<close>, \<open>Inl\<close> any other exception;
  \<^item> \<open>iso_normalize s\<close> is \<^verbatim>\<open>datetime.fromisoformat(s.replace('Z', '+00:00')).isoformat()\<close>,
    \<open>None\<close> when it raises;
  \<^item> \<open>sheet_values\<close> is the \<^verbatim>\<open>values\<close> of the sheet range, or the exception of the call;
  \<^item> \<open>events_list\<close> gives all the pages of \<^verbatim>\<open>events().list\<close> (the listing is finite), or
    the exception raised while paging.
\<close>

record env =
  sha256_hex :: "string \<Rightarrow> string"
  parse_datetime :: "string \<Rightarrow> string + ParsedDateTime"
  iso_normalize :: "string \<Rightarrow> string option"
  int_of_float :: "string \<Rightarrow> string + int option"
  sheet_values :: "string + string list list"
  events_list :: "nat \<Rightarrow> datetime \<Rightarrow> datetime \<Rightarrow> string + CalEntry list list"
  events_get :: "nat \<Rightarrow> string \<Rightarrow> string + CalEntry"
  events_insert :: "nat \<Rightarrow> GoogleEvent \<Rightarrow> string + string"
  events_update :: "nat \<Rightarrow> string \<Rightarrow> GoogleEvent \<Rightarrow> string + unit"

definition content_hash :: "env \<Rightarrow> CalendarEvent \<Rightarrow> string" where
  "content_hash E e =
     sha256_hex E (lower (strip (name e)) @ ''|'' @ isoformat (start_time e) @ ''|''
                   @ isoformat (end_time e))"

definition content_key :: "CalendarEvent \<Rightarrow> string" where
  "content_key e = lower (strip (name e)) @ ''|'' @ isoformat (start_time e)"

text \<open>The cleaning of the description (source lines 119 to 125).\<close>

definition clean_description :: "string \<Rightarrow> string" where
  "clean_description d =
     strip (replace ''<br>'' [CHR 0x0A] (replace ''&nbsp;'' '' ''
       (replace ''&gt;'' ''>'' (replace ''&lt;'' ''<'' (replace ''&amp;'' ''&''
         (strip_tags d))))))"

definition payload_description :: "CalendarEvent \<Rightarrow> string option" where
  "payload_description e =
     (if description e \<noteq> [] \<and> clean_description (description e) \<noteq> []
      then Some (take MAX_DESCRIPTION_LENGTH (clean_description (description e)))
      else None)"

definition color_map :: "(string \<times> string) list" where
  "color_map = [(''DEFAULT'', ''1''), (''FOCUS_TIME'', ''2''), (''OUT_OF_OFFICE'', ''4''),
                (''WORKING_LOCATION'', ''5'')]"

text \<open>\<^verbatim>\<open>str(n)\<close> for a natural number.\<close>

fun str_nat :: "nat \<Rightarrow> string" where
  "str_nat n = (if n < 10 then [digit n] else str_nat (n div 10) @ [digit (n mod 10)])"

text \<open>
  Source lines 127 to 146. The event type, in capitals and with underscores for
  blanks, is looked up in \<^verbatim>\<open>color_map\<close>; otherwise a non-empty \<^verbatim>\<open>color\<close> is read with
  \<^verbatim>\<open>int(float(self.color))\<close>. A \<^verbatim>\<open>ValueError\<close> is caught and leaves the payload without
  colour; any other exception (the \<^verbatim>\<open>OverflowError\<close> of an infinity) leaves
  \<^verbatim>\<open>to_google_event\<close>.
\<close>

definition payload_color :: "env \<Rightarrow> CalendarEvent \<Rightarrow> string + string option" where
  "payload_color E e =
     (let t = (if event_type e \<noteq> [] then replace '' '' ''_'' (upper (event_type e))
               else ''DEFAULT'')
      in case map_of color_map t of
           Some code \<Rightarrow> Inr (Some code)
         | None \<Rightarrow>
             if color e \<noteq> [] then
               (case int_of_float E (color e) of
                  Inl error_msg \<Rightarrow> Inl error_msg
                | Inr None \<Rightarrow> Inr None
                | Inr (Some n) \<Rightarrow>
                    if 1 \<le> n \<and> n \<le> 11 then Inr (Some (str_nat (nat n))) else Inr None)
             else Inr None)"

definition to_google_event :: "env \<Rightarrow> CalendarEvent \<Rightarrow> string + GoogleEvent" where
  "to_google_event E e =
     (case payload_color E e of
        Inl error_msg \<Rightarrow> Inl error_msg
      | Inr code \<Rightarrow>
          Inr \<lparr> summary = strip (name e),
                start_dateTime = isoformat (start_time e),
                end_dateTime = isoformat (end_time e),
                timeZone = TIMEZONE,
                g_description = payload_description e,
                colorId = code \<rparr>)"

subsection \<open>The tables\<close>

text \<open>
  \<^verbatim>\<open>synced_events\<close>, with \<^verbatim>\<open>UNIQUE(unique_event_id)\<close> and \<^verbatim>\<open>UNIQUE(calendar_event_id)\<close>.
  A table is the list of its rows in insertion order.
\<close>

record SyncedEvent =
  sheet_event_id :: string
  unique_event_id :: string
  calendar_event_id :: string
  event_hash :: string
  event_name :: string
  se_start_time :: string
  se_end_time :: string

record FailedReport =
  fr_row :: nat
  fr_name :: string
  fr_start_time :: string
  fr_error :: string

record SyncLog =
  events_created :: nat
  events_updated :: nat
  events_skipped :: nat
  events_deleted :: nat
  sl_errors :: nat
  trigger_source :: string
  sl_status :: string
  error_details :: "FailedReport list option"
  total_processed :: nat

record FailedEvent =
  fe_sheet_event_id :: string
  fe_unique_event_id :: string
  fe_event_name :: string
  error_message :: string
  fe_row_number :: nat

record ValidationError =
  ve_row_number :: nat
  ve_event_name :: string
  ve_validation_errors :: string

record DuplicateEvent =
  de_sheet_event_id :: string
  occurrences :: nat
  de_event_name :: string
  first_occurrence :: string
  last_occurrence :: string

text \<open>
  The statements that \<^verbatim>\<open>sync_events\<close>, \<^verbatim>\<open>delete_events_in_range\<close> and
  \<^verbatim>\<open>reset_sync_data\<close> run on \<^verbatim>\<open>synced_events\<close>. A plain \<^verbatim>\<open>INSERT\<close> that breaks a
  \<^verbatim>\<open>UNIQUE\<close> constraint raises \<^verbatim>\<open>sqlite3.IntegrityError\<close> and inserts nothing (when both
  columns are in conflict, the message names \<^verbatim>\<open>calendar_event_id\<close>);
  \<^verbatim>\<open>INSERT OR REPLACE\<close> first deletes every row in conflict.
\<close>

definition sql_select :: "SyncedEvent list \<Rightarrow> string \<Rightarrow> SyncedEvent option" where
  "sql_select rows uid = find (\<lambda>r. unique_event_id r = uid) rows"

definition sql_insert :: "SyncedEvent list \<Rightarrow> SyncedEvent \<Rightarrow> string + SyncedEvent list" where
  "sql_insert rows r =
     (if calendar_event_id r \<in> set (map calendar_event_id rows)
        then Inl ''UNIQUE constraint failed: synced_events.calendar_event_id''
      else if unique_event_id r \<in> set (map unique_event_id rows)
        then Inl ''UNIQUE constraint failed: synced_events.unique_event_id''
      else Inr (rows @ [r]))"

definition sql_insert_or_replace :: "SyncedEvent list \<Rightarrow> SyncedEvent \<Rightarrow> SyncedEvent list" where
  "sql_insert_or_replace rows r =
     filter (\<lambda>x. unique_event_id x \<noteq> unique_event_id r
                \<and> calendar_event_id x \<noteq> calendar_event_id r) rows @ [r]"

definition sql_update ::
  "SyncedEvent list \<Rightarrow> string \<Rightarrow> string \<Rightarrow> string \<Rightarrow> string \<Rightarrow> string \<Rightarrow> SyncedEvent list" where
  "sql_update rows uid h n s e =
     map (\<lambda>r. if unique_event_id r = uid
              then r\<lparr>event_hash := h, event_name := n, se_start_time := s, se_end_time := e\<rparr>
              else r) rows"

definition sql_delete :: "SyncedEvent list \<Rightarrow> string \<Rightarrow> SyncedEvent list" where
  "sql_delete rows uid = filter (\<lambda>r. unique_event_id r \<noteq> uid) rows"

definition sql_delete_calendar_id :: "SyncedEvent list \<Rightarrow> string \<Rightarrow> SyncedEvent list" where
  "sql_delete_calendar_id rows cid = filter (\<lambda>r. calendar_event_id r \<noteq> cid) rows"

definition sql_delete_all :: "SyncedEvent list \<Rightarrow> SyncedEvent list" where
  "sql_delete_all rows = []"

datatype mutation =
    Insert SyncedEvent
  | InsertOrReplace SyncedEvent
  | UpdateRow string string string string string
  | DeleteRow string
  | DeleteCalendarId string
  | DeleteAll

fun apply_mutation :: "mutation \<Rightarrow> SyncedEvent list \<Rightarrow> SyncedEvent list" where
  "apply_mutation (Insert r) rows = (case sql_insert rows r of Inl e \<Rightarrow> rows | Inr rows' \<Rightarrow> rows')"
| "apply_mutation (InsertOrReplace r) rows = sql_insert_or_replace rows r"
| "apply_mutation (UpdateRow uid h n s e) rows = sql_update rows uid h n s e"
| "apply_mutation (DeleteRow uid) rows = sql_delete rows uid"
| "apply_mutation (DeleteCalendarId cid) rows = sql_delete_calendar_id rows cid"
| "apply_mutation DeleteAll rows = sql_delete_all rows"

text \<open>The two uniqueness invariants of the schema.\<close>

definition unique_rows :: "SyncedEvent list \<Rightarrow> bool" where
  "unique_rows rows =
     (distinct (map unique_event_id rows) \<and> distinct (map calendar_event_id rows))"

subsection \<open>The state of a run\<close>

datatype api_call =
    EventsList datetime datetime
  | EventsGet string
  | EventsInsert GoogleEvent
  | EventsUpdate string GoogleEvent

text \<open>
  The tables, the calls made to the calendar service so far (oldest first) and the
  arguments of the \<^verbatim>\<open>time.sleep\<close> calls so far.
\<close>

record state =
  synced_events :: "SyncedEvent list"
  sync_log :: "SyncLog list"
  failed_events :: "FailedEvent list"
  validation_errors :: "ValidationError list"
  duplicate_events :: "DuplicateEvent list"
  calls :: "api_call list"
  sleeps :: "rat list"

definition cal_list ::
  "env \<Rightarrow> state \<Rightarrow> datetime \<Rightarrow> datetime \<Rightarrow> (string + CalEntry list list) \<times> state" where
  "cal_list E st tmin tmax =
     (events_list E (length (calls st)) tmin tmax,
      st\<lparr>calls := calls st @ [EventsList tmin tmax]\<rparr>)"

definition cal_get :: "env \<Rightarrow> state \<Rightarrow> string \<Rightarrow> (string + CalEntry) \<times> state" where
  "cal_get E st cid =
     (events_get E (length (calls st)) cid, st\<lparr>calls := calls st @ [EventsGet cid]\<rparr>)"

definition cal_insert :: "env \<Rightarrow> state \<Rightarrow> GoogleEvent \<Rightarrow> (string + string) \<times> state" where
  "cal_insert E st body =
     (events_insert E (length (calls st)) body, st\<lparr>calls := calls st @ [EventsInsert body]\<rparr>)"

definition cal_update ::
  "env \<Rightarrow> state \<Rightarrow> string \<Rightarrow> GoogleEvent \<Rightarrow> (string + unit) \<times> state" where
  "cal_update E st cid body =
     (events_update E (length (calls st)) cid body,
      st\<lparr>calls := calls st @ [EventsUpdate cid body]\<rparr>)"

subsection \<open>The sheet reader\<close>

record InvalidEvent =
  ie_row :: nat
  ie_name :: string
  ie_error :: string
  ie_start_end :: "(string \<times> string) option"

text \<open>\<^verbatim>\<open>event_data[header] = row[i] if i < len(row) else ''\<close>, for every header in turn.\<close>

definition event_data :: "string list \<Rightarrow> string list \<Rightarrow> (string \<rightharpoonup> string)" where
  "event_data headers row =
     fold (\<lambda>(i, h) m. m(h \<mapsto> (if i < length row then row ! i else [])))
       (enumerate 0 headers) Map.empty"

text \<open>\<^verbatim>\<open>d.get(key, default)\<close>.\<close>

definition get_default :: "(string \<rightharpoonup> string) \<Rightarrow> string \<Rightarrow> string \<Rightarrow> string" where
  "get_default d k v = (case d k of None \<Rightarrow> v | Some x \<Rightarrow> x)"

text \<open>
  \<^verbatim>\<open>duplicate_tracking\<close> is a dict in insertion order: \<open>AList.update\<close> overwrites the
  value of a present key in place and appends a new key.
\<close>

definition track_duplicate :: "string \<Rightarrow> (string \<times> nat) list \<Rightarrow> (string \<times> nat) list" where
  "track_duplicate event_id tracking =
     AList.update event_id
       (case map_of tracking event_id of Some k \<Rightarrow> k + 1 | None \<Rightarrow> 1) tracking"

definition make_event :: "string \<Rightarrow> (string \<rightharpoonup> string) \<Rightarrow> datetime \<Rightarrow> datetime \<Rightarrow> nat \<Rightarrow> CalendarEvent" where
  "make_event event_id d s e row_num =
     \<lparr> sheet_id = event_id,
       name = get_default d ''Event Name'' ''Untitled Event'',
       start_time = s,
       end_time = e,
       description = get_default d ''Description'' [],
       event_type = get_default d ''Event Type'' ''DEFAULT'',
       color = get_default d ''Color'' [],
       focus_time = (lower (get_default d ''Focus Time'' []) = ''yes''),
       row_number = row_num \<rparr>"

definition date_errors :: "ParsedDateTime \<Rightarrow> ParsedDateTime \<Rightarrow> string list" where
  "date_errors sp ep =
     (case sp of Unparsed m \<Rightarrow> [''Invalid start date: '' @ m] | Parsed x \<Rightarrow> []) @
     (case ep of Unparsed m \<Rightarrow> [''Invalid end date: '' @ m] | Parsed x \<Rightarrow> [])"

text \<open>
  One turn of the loop over the rows: the valid events, the invalid rows, the tally.
  \<open>Inl\<close> is an exception that leaves \<^verbatim>\<open>DateTimeParser.parse\<close>; the start cell is parsed
  before the end cell.
\<close>

type_synonym reading = "CalendarEvent list \<times> InvalidEvent list \<times> (string \<times> nat) list"

definition read_row ::
  "env \<Rightarrow> string list \<Rightarrow> nat \<Rightarrow> string list \<Rightarrow> reading \<Rightarrow> string + reading" where
  "read_row E headers row_num row acc =
     (case acc of (valid_events, invalid_events, duplicate_tracking) \<Rightarrow>
      if row = [] then Inr acc
      else
        let d = event_data headers row;
            event_id = get_default d ''Event ID'' []
        in if event_id = [] then
             Inr (valid_events,
                  invalid_events @ [\<lparr> ie_row = row_num,
                      ie_name = get_default d ''Event Name'' ''Unknown'',
                      ie_error = ''Missing Event ID'', ie_start_end = None \<rparr>],
                  duplicate_tracking)
           else
             let tracking = track_duplicate event_id duplicate_tracking
             in (case parse_datetime E (get_default d ''Start Date/Time'' []) of
                   Inl error_msg \<Rightarrow> Inl error_msg
                 | Inr start_parsed \<Rightarrow>
                (case parse_datetime E (get_default d ''End Date/Time'' []) of
                   Inl error_msg \<Rightarrow> Inl error_msg
                 | Inr end_parsed \<Rightarrow>
                (case (start_parsed, end_parsed) of
                   (Parsed s, Parsed e) \<Rightarrow>
                     let event = make_event event_id d s e row_num
                     in if is_valid event
                        then Inr (valid_events @ [event], invalid_events, tracking)
                        else Inr (valid_events,
                              invalid_events @ [\<lparr> ie_row = row_num, ie_name = name event,
                                  ie_error = join ''; '' (validation_errors_of event),
                                  ie_start_end = None \<rparr>],
                              tracking)
                 | _ \<Rightarrow>
                     Inr (valid_events,
                      invalid_events @ [\<lparr> ie_row = row_num,
                          ie_name = get_default d ''Event Name'' ''Unknown'',
                          ie_error = join ''; '' (date_errors start_parsed end_parsed),
                          ie_start_end = Some (get_default d ''Start Date/Time'' [],
                                               get_default d ''End Date/Time'' []) \<rparr>],
                      tracking)))))"

fun read_rows ::
  "env \<Rightarrow> string list \<Rightarrow> nat \<Rightarrow> string list list \<Rightarrow> reading \<Rightarrow> string + reading" where
  "read_rows E headers row_num [] acc = Inr acc"
| "read_rows E headers row_num (row # rows) acc =
     (case read_row E headers row_num row acc of
        Inl error_msg \<Rightarrow> Inl error_msg
      | Inr acc1 \<Rightarrow> read_rows E headers (Suc row_num) rows acc1)"

text \<open>The rows logged to \<^verbatim>\<open>duplicate_events\<close>: one for each Event ID counted more than once
  that has a valid event.\<close>

definition duplicate_rows :: "CalendarEvent list \<Rightarrow> (string \<times> nat) list \<Rightarrow> DuplicateEvent list" where
  "duplicate_rows valid_events tracking =
     concat (map (\<lambda>(event_id, count).
       let same = filter (\<lambda>e. sheet_id e = event_id) valid_events
       in if same = [] then []
          else [\<lparr> de_sheet_event_id = event_id, occurrences = count,
                  de_event_name = name (hd same),
                  first_occurrence = str_min (map (\<lambda>e. isoformat (start_time e)) same),
                  last_occurrence = str_max (map (\<lambda>e. isoformat (start_time e)) same) \<rparr>])
       (filter (\<lambda>(k, v). 1 < v) tracking))"

definition validation_rows :: "InvalidEvent list \<Rightarrow> ValidationError list" where
  "validation_rows invalid_events =
     map (\<lambda>i. \<lparr> ve_row_number = ie_row i, ve_event_name = ie_name i,
                 ve_validation_errors = ie_error i \<rparr>) invalid_events"

text \<open>
  \<^verbatim>\<open>read_sheet_events\<close>. An exception of the sheet call is caught and gives three empty
  results; so does a sheet with fewer than two rows, and so does an exception of the
  parser on any row: the tables are written after the loop only, so nothing is logged
  then.
\<close>

definition read_sheet_events :: "env \<Rightarrow> state \<Rightarrow> reading \<times> state" where
  "read_sheet_events E st =
     (case sheet_values E of
        Inl e \<Rightarrow> (([], [], []), st)
      | Inr values \<Rightarrow>
          if length values < 2 then (([], [], []), st)
          else
            (case read_rows E (hd values) 2 (tl values) ([], [], []) of
               Inl error_msg \<Rightarrow> (([], [], []), st)
             | Inr (valid_events, invalid_events, duplicate_tracking) \<Rightarrow>
                 ((valid_events, invalid_events, duplicate_tracking),
                  st\<lparr> duplicate_events :=
                        duplicate_events st @ duplicate_rows valid_events duplicate_tracking,
                      validation_errors :=
                        validation_errors st @ validation_rows invalid_events \<rparr>)))"

subsection \<open>The calendar snapshot\<close>

definition index_entry :: "env \<Rightarrow> CalEntry \<Rightarrow> (string \<rightharpoonup> CalEntry) \<Rightarrow> (string \<rightharpoonup> CalEntry)" where
  "index_entry E event all_events =
     (if status event = ''cancelled'' then all_events
      else
        let s = lower (strip (entry_summary event));
            start = entry_start event
        in if s \<noteq> [] \<and> start \<noteq> [] then
             all_events(s @ ''|'' @ (case iso_normalize E start of Some n \<Rightarrow> n | None \<Rightarrow> start)
                        \<mapsto> event)
           else all_events)"

text \<open>\<^verbatim>\<open>get_existing_calendar_events\<close>: any exception gives the empty index.\<close>

definition get_existing_calendar_events ::
  "env \<Rightarrow> datetime \<Rightarrow> datetime \<Rightarrow> state \<Rightarrow> (string \<rightharpoonup> CalEntry) \<times> state" where
  "get_existing_calendar_events E time_min time_max st =
     (case cal_list E st time_min time_max of
        (Inl e, st1) \<Rightarrow> (Map.empty, st1)
      | (Inr pages, st1) \<Rightarrow> (fold (index_entry E) (concat pages) Map.empty, st1))"

subsection \<open>Creation with retry\<close>

text \<open>
  \<^verbatim>\<open>create_event_with_retry\<close>: the loop \<^verbatim>\<open>for attempt in range(max_retries)\<close>, from
  the attempt given. It returns the id of the new entry, raises the exception of the
  last attempt, or returns \<^verbatim>\<open>None\<close> when the loop makes no attempt. The payload is built
  inside the \<^verbatim>\<open>try\<close> of every attempt: when \<^verbatim>\<open>to_google_event\<close> raises, the attempt fails
  before any request is made.
\<close>

definition insert_attempt :: "env \<Rightarrow> CalendarEvent \<Rightarrow> state \<Rightarrow> (string + string) \<times> state" where
  "insert_attempt E event st =
     (case to_google_event E event of
        Inl error_msg \<Rightarrow> (Inl error_msg, st)
      | Inr body \<Rightarrow> cal_insert E st body)"

function create_attempts ::
  "env \<Rightarrow> CalendarEvent \<Rightarrow> nat \<Rightarrow> nat \<Rightarrow> state \<Rightarrow> (string + string option) \<times> state" where
  "create_attempts E event max_retries attempt st =
     (if attempt < max_retries then
        (case insert_attempt E event st of
           (Inr new_id, st1) \<Rightarrow> (Inr (Some new_id), st1)
         | (Inl error_msg, st1) \<Rightarrow>
             if attempt < max_retries - 1
             then create_attempts E event max_retries (attempt + 1)
                    (st1\<lparr>sleeps := sleeps st1 @ [RETRY_DELAY * of_nat (attempt + 1)]\<rparr>)
             else (Inl error_msg, st1))
      else (Inr None, st))"
  by pat_completeness auto
termination
  by (relation "measure (\<lambda>(E, event, max_retries, attempt, st). max_retries - attempt)") auto

definition create_event_with_retry ::
  "env \<Rightarrow> CalendarEvent \<Rightarrow> state \<Rightarrow> (string + string option) \<times> state" where
  "create_event_with_retry E event st = create_attempts E event 3 0 st"

subsection \<open>The reconciliation run\<close>

record counters =
  created :: nat
  updated :: nat
  skipped :: nat
  errors :: nat
  failed :: "FailedReport list"

definition new_row :: "env \<Rightarrow> CalendarEvent \<Rightarrow> string \<Rightarrow> SyncedEvent" where
  "new_row E event cid =
     \<lparr> sheet_event_id = sheet_id event, unique_event_id = unique_id event,
       calendar_event_id = cid, event_hash = content_hash E event,
       event_name = name event, se_start_time = isoformat (start_time event),
       se_end_time = isoformat (end_time event) \<rparr>"

definition delete_stale :: "CalendarEvent \<Rightarrow> state \<Rightarrow> state" where
  "delete_stale event st = st\<lparr>synced_events := sql_delete (synced_events st) (unique_id event)\<rparr>"

text \<open>
  Source lines 616 to 667: the record of the event, if there is one. \<open>Some c\<close> is the
  \<^verbatim>\<open>continue\<close> with the new counters; \<open>None\<close> is the fall through to the lines below.
  The inner \<^verbatim>\<open>except\<close> catches the failure of the \<^verbatim>\<open>get\<close> call, of \<^verbatim>\<open>to_google_event\<close>
  (raised while the arguments of \<^verbatim>\<open>update\<close> are evaluated, so before any request) and of
  the \<^verbatim>\<open>update\<close> call, and deletes the record; a cancelled entry raises nothing and
  leaves the \<^verbatim>\<open>try\<close> without the \<^verbatim>\<open>continue\<close>.
\<close>

definition update_attempt ::
  "env \<Rightarrow> CalendarEvent \<Rightarrow> string \<Rightarrow> state \<Rightarrow> (string + unit) \<times> state" where
  "update_attempt E event cid st =
     (case to_google_event E event of
        Inl error_msg \<Rightarrow> (Inl error_msg, st)
      | Inr body \<Rightarrow> cal_update E st cid body)"

definition record_phase ::
  "env \<Rightarrow> CalendarEvent \<Rightarrow> counters \<Rightarrow> state \<Rightarrow> counters option \<times> state" where
  "record_phase E event c st =
     (case sql_select (synced_events st) (unique_id event) of
        None \<Rightarrow> (None, st)
      | Some db_record \<Rightarrow>
          (case cal_get E st (calendar_event_id db_record) of
             (Inl e, st1) \<Rightarrow> (None, delete_stale event st1)
           | (Inr cal_event, st1) \<Rightarrow>
               if status cal_event \<noteq> ''cancelled'' then
                 if event_hash db_record = content_hash E event
                 then (Some (c\<lparr>skipped := skipped c + 1\<rparr>), st1)
                 else
                   (case update_attempt E event (calendar_event_id db_record) st1 of
                      (Inl e, st2) \<Rightarrow> (None, delete_stale event st2)
                    | (Inr u, st2) \<Rightarrow>
                        (Some (c\<lparr>updated := updated c + 1\<rparr>),
                         st2\<lparr>synced_events :=
                               sql_update (synced_events st2) (unique_id event)
                                 (content_hash E event) (name event)
                                 (isoformat (start_time event)) (isoformat (end_time event))\<rparr>))
               else (None, st1)))"

text \<open>
  Source lines 669 to 707: link to an entry of the snapshot, or create. \<open>Inl msg\<close> is an
  exception that reaches the outer \<^verbatim>\<open>except\<close>. An empty id is falsy: nothing is stored
  or counted for it.
\<close>

definition relink_or_create ::
  "env \<Rightarrow> (string \<rightharpoonup> CalEntry) \<Rightarrow> CalendarEvent \<Rightarrow> counters \<Rightarrow> state
     \<Rightarrow> (string + counters) \<times> state" where
  "relink_or_create E existing_calendar_events event c st =
     (case existing_calendar_events (content_key event) of
        Some existing \<Rightarrow>
          (Inr (c\<lparr>skipped := skipped c + 1\<rparr>),
           st\<lparr>synced_events :=
                sql_insert_or_replace (synced_events st) (new_row E event (entry_id existing))\<rparr>)
      | None \<Rightarrow>
          (case create_event_with_retry E event st of
             (Inl error_msg, st1) \<Rightarrow> (Inl error_msg, st1)
           | (Inr None, st1) \<Rightarrow> (Inr c, st1)
           | (Inr (Some calendar_id), st1) \<Rightarrow>
               if calendar_id = [] then (Inr c, st1)
               else
                 (case sql_insert (synced_events st1) (new_row E event calendar_id) of
                    Inl error_msg \<Rightarrow> (Inl error_msg, st1)
                  | Inr rows \<Rightarrow>
                      (Inr (c\<lparr>created := created c + 1\<rparr>),
                       if (created c + 1) mod BATCH_SIZE = 0
                       then st1\<lparr>synced_events := rows, sleeps := sleeps st1 @ [RATE_LIMIT_DELAY]\<rparr>
                       else st1\<lparr>synced_events := rows\<rparr>))))"

text \<open>The outer \<^verbatim>\<open>except\<close> (source lines 709 to 726).\<close>

definition record_failure :: "CalendarEvent \<Rightarrow> string \<Rightarrow> counters \<Rightarrow> state \<Rightarrow> counters \<times> state" where
  "record_failure event error_msg c st =
     (c\<lparr> errors := errors c + 1,
         failed := failed c @ [\<lparr> fr_row = row_number event, fr_name = name event,
                     fr_start_time = isoformat (start_time event), fr_error = error_msg \<rparr>] \<rparr>,
      st\<lparr> failed_events := failed_events st @
            [\<lparr> fe_sheet_event_id = sheet_id event, fe_unique_event_id = unique_id event,
               fe_event_name = name event, error_message = error_msg,
               fe_row_number = row_number event \<rparr>] \<rparr>)"

text \<open>The body of \<^verbatim>\<open>for event in sheet_events\<close>.\<close>

definition sync_one ::
  "env \<Rightarrow> (string \<rightharpoonup> CalEntry) \<Rightarrow> CalendarEvent \<Rightarrow> counters \<times> state \<Rightarrow> counters \<times> state" where
  "sync_one E existing_calendar_events event cs =
     (case cs of (c, st) \<Rightarrow>
      (case record_phase E event c st of
         (Some c1, st1) \<Rightarrow> (c1, st1)
       | (None, st1) \<Rightarrow>
           (case relink_or_create E existing_calendar_events event c st1 of
              (Inr c2, st2) \<Rightarrow> (c2, st2)
            | (Inl error_msg, st2) \<Rightarrow> record_failure event error_msg c st2)))"

definition sync_loop ::
  "env \<Rightarrow> (string \<rightharpoonup> CalEntry) \<Rightarrow> CalendarEvent list \<Rightarrow> counters \<times> state \<Rightarrow> counters \<times> state" where
  "sync_loop E existing_calendar_events sheet_events cs =
     fold (sync_one E existing_calendar_events) sheet_events cs"

text \<open>The two shapes of the dict that \<^verbatim>\<open>sync_events\<close> returns.\<close>

record early_result =
  er_status :: string
  er_message :: string
  er_invalid_events :: nat
  er_validation_errors :: "InvalidEvent list"

record run_result =
  rr_status :: string
  rr_created :: nat
  rr_updated :: nat
  rr_skipped :: nat
  rr_errors :: nat
  rr_total_processed :: nat
  rr_invalid_events :: nat
  rr_duplicate_event_ids :: nat
  rr_trigger_source :: string
  rr_failed_events :: "FailedReport list"
  rr_validation_errors :: "InvalidEvent list"

datatype response = NoValidEvents early_result | Completed run_result

fun response_status :: "response \<Rightarrow> string" where
  "response_status (NoValidEvents r) = er_status r"
| "response_status (Completed r) = rr_status r"

definition zero_counters :: counters where
  "zero_counters = \<lparr> created = 0, updated = 0, skipped = 0, errors = 0, failed = [] \<rparr>"

text \<open>
  The window of the snapshot (source lines 589 to 591). It is computed outside every
  \<^verbatim>\<open>try\<close>: an \<^verbatim>\<open>OverflowError\<close> leaves \<^verbatim>\<open>sync_events\<close>.
\<close>

definition time_window :: "CalendarEvent list \<Rightarrow> string + (datetime \<times> datetime)" where
  "time_window sheet_events =
     (let all_dates = map start_time sheet_events @ map end_time sheet_events
      in case minus_one_day (dt_min all_dates) of
           Inl e \<Rightarrow> Inl e
         | Inr time_min \<Rightarrow>
             (case plus_one_day (dt_max all_dates) of
                Inl e \<Rightarrow> Inl e
              | Inr time_max \<Rightarrow> Inr (time_min, time_max)))"

definition log_row :: "counters \<Rightarrow> string \<Rightarrow> nat \<Rightarrow> SyncLog" where
  "log_row c source n =
     \<lparr> events_created = created c, events_updated = updated c, events_skipped = skipped c,
       events_deleted = 0, sl_errors = errors c, trigger_source = source,
       sl_status = ''completed'',
       error_details = (if failed c = [] then None else Some (take 10 (failed c))),
       total_processed = n \<rparr>"

definition run_response ::
  "counters \<Rightarrow> string \<Rightarrow> nat \<Rightarrow> InvalidEvent list \<Rightarrow> (string \<times> nat) list \<Rightarrow> run_result" where
  "run_response c source n invalid_events duplicate_tracking =
     \<lparr> rr_status = (if errors c = 0 then ''success'' else ''partial''),
       rr_created = created c, rr_updated = updated c, rr_skipped = skipped c,
       rr_errors = errors c, rr_total_processed = n,
       rr_invalid_events = length invalid_events,
       rr_duplicate_event_ids = length (filter (\<lambda>(k, v). 1 < v) duplicate_tracking),
       rr_trigger_source = source,
       rr_failed_events = take 5 (failed c),
       rr_validation_errors = take 5 invalid_events \<rparr>"

text \<open>
  \<^verbatim>\<open>sync_events\<close>. \<open>Inl msg\<close> is an exception that leaves the function; \<open>Inr\<close> carries
  the returned dict and the state after the run.
\<close>

definition sync_events :: "env \<Rightarrow> string \<Rightarrow> state \<Rightarrow> string + (response \<times> state)" where
  "sync_events E source st =
     (case read_sheet_events E st of
        ((sheet_events, invalid_events, duplicate_tracking), st0) \<Rightarrow>
          if sheet_events = [] then
            Inr (NoValidEvents
                   \<lparr> er_status = (if invalid_events = [] then ''error'' else ''partial''),
                     er_message = ''No valid events in sheet'',
                     er_invalid_events = length invalid_events,
                     er_validation_errors = take 10 invalid_events \<rparr>,
                 st0)
          else
            (case time_window sheet_events of
               Inl e \<Rightarrow> Inl e
             | Inr (time_min, time_max) \<Rightarrow>
                 (case get_existing_calendar_events E time_min time_max st0 of
                    (existing_calendar_events, st1) \<Rightarrow>
                      (case sync_loop E existing_calendar_events sheet_events
                              (zero_counters, st1) of
                         (c, st2) \<Rightarrow>
                           Inr (Completed (run_response c source (length sheet_events)
                                             invalid_events duplicate_tracking),
                                st2\<lparr>sync_log := sync_log st2 @
                                      [log_row c source (length sheet_events)]\<rparr>)))))"

subsection \<open>Notions used in the statements\<close>

text \<open>The events that a run has counted as created, updated or skipped.\<close>

definition settled :: "counters \<Rightarrow> nat" where
  "settled c = created c + updated c + skipped c"

text \<open>The event has a record, and the record holds the hash of the event.\<close>

definition linked :: "env \<Rightarrow> SyncedEvent list \<Rightarrow> CalendarEvent \<Rightarrow> bool" where
  "linked E rows ev =
     (case sql_select rows (unique_id ev) of
        Some r \<Rightarrow> event_hash r = content_hash E ev
      | None \<Rightarrow> False)"

text \<open>The index that a run from the state \<open>st\<close> over the events \<open>evs\<close> builds.\<close>

definition snapshot_of :: "env \<Rightarrow> state \<Rightarrow> CalendarEvent list \<Rightarrow> (string \<rightharpoonup> CalEntry)" where
  "snapshot_of E st evs =
     (case time_window evs of
        Inl e \<Rightarrow> Map.empty
      | Inr (time_min, time_max) \<Rightarrow> fst (get_existing_calendar_events E time_min time_max st))"

text \<open>The Event ID cell of a row, and the event that the loop of the reader appends to
  the valid events for a row, if it appends one.\<close>

definition row_event_id :: "string list \<Rightarrow> string list \<Rightarrow> string" where
  "row_event_id headers row = get_default (event_data headers row) ''Event ID'' []"

definition row_event :: "env \<Rightarrow> string list \<Rightarrow> nat \<Rightarrow> string list \<Rightarrow> CalendarEvent option" where
  "row_event E headers row_num row =
     (if row = [] \<or> row_event_id headers row = [] then None
      else
        (case (parse_datetime E (get_default (event_data headers row) ''Start Date/Time'' []),
               parse_datetime E (get_default (event_data headers row) ''End Date/Time'' [])) of
           (Inr (Parsed s), Inr (Parsed e)) \<Rightarrow>
             (let event = make_event (row_event_id headers row) (event_data headers row) s e row_num
              in if is_valid event then Some event else None)
         | _ \<Rightarrow> None))"

text \<open>The parser raises on the row: the row is not empty, has an Event ID, and the
  parse of its start cell or of its end cell ends with an exception.\<close>

definition parser_raises :: "env \<Rightarrow> string list \<Rightarrow> string list \<Rightarrow> bool" where
  "parser_raises E headers row =
     (row \<noteq> [] \<and> row_event_id headers row \<noteq> [] \<and>
      (isl (parse_datetime E (get_default (event_data headers row) ''Start Date/Time'' [])) \<or>
       isl (parse_datetime E (get_default (event_data headers row) ''End Date/Time'' []))))"

text \<open>The number of rows of the sheet that are not empty and carry the Event ID.\<close>

definition rows_with_id :: "string list \<Rightarrow> string list list \<Rightarrow> string \<Rightarrow> nat" where
  "rows_with_id headers rows event_id =
     length (filter (\<lambda>row. row \<noteq> [] \<and> row_event_id headers row = event_id) rows)"

text \<open>What the attempt made after \<open>k\<close> calendar calls gives: the exception of the payload,
  or the response to the insert call; and the calls that three failed attempts make.\<close>

definition attempt_outcome :: "env \<Rightarrow> CalendarEvent \<Rightarrow> nat \<Rightarrow> string + string" where
  "attempt_outcome E ev k =
     (case to_google_event E ev of
        Inl error_msg \<Rightarrow> Inl error_msg
      | Inr body \<Rightarrow> events_insert E k body)"

definition failed_attempt_calls :: "env \<Rightarrow> CalendarEvent \<Rightarrow> api_call list" where
  "failed_attempt_calls E ev =
     (case to_google_event E ev of
        Inl error_msg \<Rightarrow> []
      | Inr body \<Rightarrow> replicate 3 (EventsInsert body))"

text \<open>The update calls among the calls made.\<close>

fun is_update_call :: "api_call \<Rightarrow> bool" where
  "is_update_call (EventsUpdate cid body) = True"
| "is_update_call (EventsList tmin tmax) = False"
| "is_update_call (EventsGet cid) = False"
| "is_update_call (EventsInsert body) = False"

subsection \<open>Example inputs\<close>

text \<open>Concrete inputs on which the theorems below are instantiated.\<close>

definition t0900 :: datetime where
  "t0900 = \<lparr> year = 2025, month = 3, day = 1, hour = 9, minute = 0, second = 0 \<rparr>"

definition t0915 :: datetime where
  "t0915 = \<lparr> year = 2025, month = 3, day = 1, hour = 9, minute = 15, second = 0 \<rparr>"

definition t1000 :: datetime where
  "t1000 = \<lparr> year = 2025, month = 3, day = 1, hour = 10, minute = 0, second = 0 \<rparr>"

definition t1015 :: datetime where
  "t1015 = \<lparr> year = 2025, month = 3, day = 1, hour = 10, minute = 15, second = 0 \<rparr>"

text \<open>The parser on the cells of the example sheets; the year of the last one is too
  large for \<^verbatim>\<open>datetime\<close>.\<close>

definition ex_parse :: "string \<Rightarrow> string + ParsedDateTime" where
  "ex_parse s =
     (if s = [] then Inr (Unparsed ''Empty date string'')
      else if s = ''1/1/99999999999 9:00'' then Inl ''signed integer is greater than maximum''
      else case map_of [(''3/1/2025 9:00:00 AM'', t0900), (''3/1/2025 9:15:00 AM'', t0915),
                        (''3/1/2025 10:00:00 AM'', t1000), (''3/1/2025 10:15:00 AM'', t1015)] s of
             Some d \<Rightarrow> Inr (Parsed d)
           | None \<Rightarrow> Inr (Unparsed (''Could not parse date: '' @ s)))"

text \<open>\<^verbatim>\<open>int(float(s))\<close> on the colours of the examples.\<close>

definition ex_int_of_float :: "string \<Rightarrow> string + int option" where
  "ex_int_of_float s =
     (if s = ''inf'' then Inl ''cannot convert float infinity to integer''
      else case map_of [(''5'', 5), (''7.9'', 7), (''12'', 12)] s of
             Some n \<Rightarrow> Inr (Some n)
           | None \<Rightarrow> Inr None)"

definition live_entry :: "string \<Rightarrow> CalEntry" where
  "live_entry cid = \<lparr> entry_id = cid, status = ''confirmed'', entry_summary = [], entry_start = [] \<rparr>"

definition ex_env :: "string list list \<Rightarrow> env" where
  "ex_env values =
     \<lparr> sha256_hex = (\<lambda>s. s),
       parse_datetime = ex_parse,
       iso_normalize = Some,
       int_of_float = ex_int_of_float,
       sheet_values = Inr values,
       events_list = (\<lambda>k tmin tmax. Inr []),
       events_get = (\<lambda>k cid. Inr (live_entry cid)),
       events_insert = (\<lambda>k body. Inr (''evt'' @ [digit k])),
       events_update = (\<lambda>k cid body. Inr ()) \<rparr>"

definition empty_state :: state where
  "empty_state = \<lparr> synced_events = [], sync_log = [], failed_events = [], validation_errors = [],
                    duplicate_events = [], calls = [], sleeps = [] \<rparr>"

definition sheet_header :: "string list" where
  "sheet_header = [''Event ID'', ''Event Name'', ''Start Date/Time'', ''End Date/Time'',
                   ''Description'']"

definition sheet_no_id :: "string list list" where
  "sheet_no_id = [sheet_header, [[], ''Orphan'', ''3/1/2025 9:00:00 AM'', ''3/1/2025 9:15:00 AM'']]"

definition sheet_standup :: "string list list" where
  "sheet_standup = [sheet_header, [''A1'', ''Standup'', ''3/1/2025 9:00:00 AM'', ''3/1/2025 9:15:00 AM'']]"

definition standup :: CalendarEvent where
  "standup = \<lparr> sheet_id = ''A1'', name = ''Standup'', start_time = t0900, end_time = t0915,
       description = [], event_type = ''DEFAULT'', color = [], focus_time = False,
       row_number = 2 \<rparr>"

definition standup_payload :: GoogleEvent where
  "standup_payload = \<lparr> summary = ''Standup'', start_dateTime = ''2025-03-01T09:00:00'',
       end_dateTime = ''2025-03-01T09:15:00'', timeZone = ''Africa/Cairo'',
       g_description = None, colorId = Some ''1'' \<rparr>"

definition standup_row :: "string \<Rightarrow> SyncedEvent" where
  "standup_row cid = \<lparr> sheet_event_id = ''A1'', unique_event_id = ''A1_2025-03-01T09:00:00'',
       calendar_event_id = cid,
       event_hash = ''standup|2025-03-01T09:00:00|2025-03-01T09:15:00'',
       event_name = ''Standup'', se_start_time = ''2025-03-01T09:00:00'',
       se_end_time = ''2025-03-01T09:15:00'' \<rparr>"

definition standup_window :: api_call where
  "standup_window = EventsList
     \<lparr> year = 2025, month = 2, day = 28, hour = 9, minute = 0, second = 0 \<rparr>
     \<lparr> year = 2025, month = 3, day = 2, hour = 9, minute = 15, second = 0 \<rparr>"

definition first_run_log :: SyncLog where
  "first_run_log = \<lparr> events_created = 1, events_updated = 0, events_skipped = 0,
       events_deleted = 0, sl_errors = 0, trigger_source = ''manual'',
       sl_status = ''completed'', error_details = None, total_processed = 1 \<rparr>"

definition first_run_state :: state where
  "first_run_state = \<lparr> synced_events = [standup_row ''evt1''], sync_log = [first_run_log],
       failed_events = [], validation_errors = [], duplicate_events = [],
       calls = [standup_window, EventsInsert standup_payload], sleeps = [] \<rparr>"

definition first_run_result :: run_result where
  "first_run_result = \<lparr> rr_status = ''success'', rr_created = 1, rr_updated = 0,
       rr_skipped = 0, rr_errors = 0, rr_total_processed = 1, rr_invalid_events = 0,
       rr_duplicate_event_ids = 0, rr_trigger_source = ''manual'', rr_failed_events = [],
       rr_validation_errors = [] \<rparr>"

definition cancelled_env :: env where
  "cancelled_env = (ex_env sheet_standup)
     \<lparr> events_get := (\<lambda>k cid. Inr ((live_entry cid)\<lparr>status := ''cancelled''\<rparr>)) \<rparr>"

definition standup_failure :: "string \<Rightarrow> FailedEvent" where
  "standup_failure msg = \<lparr> fe_sheet_event_id = ''A1'',
       fe_unique_event_id = ''A1_2025-03-01T09:00:00'', fe_event_name = ''Standup'',
       error_message = msg, fe_row_number = 2 \<rparr>"

definition standup_report :: "string \<Rightarrow> FailedReport" where
  "standup_report msg = \<lparr> fr_row = 2, fr_name = ''Standup'',
       fr_start_time = ''2025-03-01T09:00:00'', fr_error = msg \<rparr>"

definition link_row :: SyncedEvent where
  "link_row = \<lparr> sheet_event_id = ''B7'', unique_event_id = ''B7_2025-03-01T09:00:00'',
       calendar_event_id = ''evt1'', event_hash = ''standup|2025-03-01T09:00:00|2025-03-01T09:15:00'',
       event_name = ''Standup'', se_start_time = ''2025-03-01T09:00:00'',
       se_end_time = ''2025-03-01T09:15:00'' \<rparr>"

definition snapshot_standup :: "string \<rightharpoonup> CalEntry" where
  "snapshot_standup = [''standup|2025-03-01T09:00:00'' \<mapsto>
     \<lparr> entry_id = ''evt1'', status = ''confirmed'', entry_summary = ''Standup'',
       entry_start = ''2025-03-01T09:00:00'' \<rparr>]"

definition failing_env :: env where
  "failing_env = (ex_env sheet_standup)
     \<lparr> events_insert := (\<lambda>k body. Inl (''quota exceeded, call '' @ [digit k])) \<rparr>"

definition t0905 :: datetime where
  "t0905 = \<lparr> year = 2025, month = 3, day = 1, hour = 9, minute = 5, second = 0 \<rparr>"

definition t0930 :: datetime where
  "t0930 = \<lparr> year = 2025, month = 3, day = 1, hour = 9, minute = 30, second = 0 \<rparr>"

definition linked_state :: state where
  "linked_state = empty_state\<lparr>synced_events := [standup_row ''evt1'']\<rparr>"

definition sheet_same_key :: "string list list" where
  "sheet_same_key = [sheet_header,
     [''A1'', ''Standup'', ''3/1/2025 9:00:00 AM'', ''3/1/2025 9:15:00 AM''],
     [''A1'', ''Review'', ''3/1/2025 9:00:00 AM'', ''3/1/2025 9:15:00 AM'']]"

definition sheet_two_times :: "string list list" where
  "sheet_two_times = [sheet_header,
     [''E1'', ''Standup'', ''3/1/2025 9:00:00 AM'', ''3/1/2025 9:15:00 AM''],
     [''E1'', ''Standup'', ''3/1/2025 10:00:00 AM'', ''3/1/2025 10:15:00 AM'']]"

definition standup_e1 :: "datetime \<Rightarrow> datetime \<Rightarrow> nat \<Rightarrow> CalendarEvent" where
  "standup_e1 s e n = \<lparr> sheet_id = ''E1'', name = ''Standup'', start_time = s, end_time = e,
       description = [], event_type = ''DEFAULT'', color = [], focus_time = False,
       row_number = n \<rparr>"

text \<open>A third row with the Event ID of the first two, whose end is not after its start.\<close>

definition sheet_three_rows :: "string list list" where
  "sheet_three_rows = [sheet_header,
     [''E1'', ''Standup'', ''3/1/2025 9:00:00 AM'', ''3/1/2025 9:15:00 AM''],
     [''E1'', ''Standup'', ''3/1/2025 10:00:00 AM'', ''3/1/2025 10:15:00 AM''],
     [''E1'', ''Standup'', ''3/1/2025 10:15:00 AM'', ''3/1/2025 10:00:00 AM'']]"

text \<open>Two rows with the same Event ID, the second with a year that the parser cannot
  hold.\<close>

definition sheet_huge_year :: "string list list" where
  "sheet_huge_year = [sheet_header,
     [''E1'', ''Standup'', ''3/1/2025 9:00:00 AM'', ''3/1/2025 9:15:00 AM''],
     [''E1'', ''Standup'', ''1/1/99999999999 9:00'', ''3/1/2025 10:15:00 AM'']]"

text \<open>
  A calendar that lists the entry \<^verbatim>\<open>evt1\<close> at 9:00, under the name Standup.
\<close>

definition listed_entry :: "string \<Rightarrow> CalEntry" where
  "listed_entry s = \<lparr> entry_id = ''evt1'', status = ''confirmed'', entry_summary = s,
       entry_start = ''2025-03-01T09:00:00'' \<rparr>"

definition listed_env :: env where
  "listed_env = (ex_env sheet_standup)
     \<lparr> events_list := (\<lambda>k tmin tmax. Inr [[listed_entry ''Standup'']]) \<rparr>"

definition relinked_result :: run_result where
  "relinked_result = \<lparr> rr_status = ''success'', rr_created = 0, rr_updated = 0,
       rr_skipped = 1, rr_errors = 0, rr_total_processed = 1, rr_invalid_events = 0,
       rr_duplicate_event_ids = 0, rr_trigger_source = ''manual'', rr_failed_events = [],
       rr_validation_errors = [] \<rparr>"

definition relinked_state :: state where
  "relinked_state = \<lparr> synced_events = [standup_row ''evt1''],
       sync_log = [first_run_log\<lparr>events_created := 0, events_skipped := 1\<rparr>],
       failed_events = [], validation_errors = [], duplicate_events = [],
       calls = [standup_window], sleeps = [] \<rparr>"

text \<open>
  The row A1, synced as Standup, is renamed Daily, and a row B2 named Standup is added
  at the same time of day. The calendar lists the entry \<^verbatim>\<open>evt1\<close> under the name it has:
  Standup at first, Daily once a run has updated it.
\<close>

definition sheet_renamed :: "string list list" where
  "sheet_renamed = [sheet_header,
     [''A1'', ''Daily'', ''3/1/2025 9:00:00 AM'', ''3/1/2025 9:15:00 AM''],
     [''B2'', ''Standup'', ''3/1/2025 9:00:00 AM'', ''3/1/2025 9:15:00 AM'']]"

definition renamed_env :: env where
  "renamed_env = (ex_env sheet_renamed)
     \<lparr> events_list := (\<lambda>k tmin tmax.
          Inr [[listed_entry (if k = 0 then ''Standup'' else ''Daily'')]]) \<rparr>"

text \<open>An event whose type is no key of \<^verbatim>\<open>color_map\<close> and whose colour is an infinity.\<close>

definition infinite_color :: CalendarEvent where
  "infinite_color = standup\<lparr>event_type := ''Meeting'', color := ''inf''\<rparr>"

text \<open>The counters of a returned dict (created, updated, skipped, errors) and the state
  that a run leaves.\<close>

definition run_counts :: "string + response \<times> state \<Rightarrow> (nat \<times> nat \<times> nat \<times> nat) option" where
  "run_counts x =
     (case x of
        Inr (Completed r, st) \<Rightarrow> Some (rr_created r, rr_updated r, rr_skipped r, rr_errors r)
      | _ \<Rightarrow> None)"

definition run_state :: "string + response \<times> state \<Rightarrow> state" where
  "run_state x = (case x of Inr (r, st) \<Rightarrow> st | Inl e \<Rightarrow> empty_state)"

section \<open>Properties\<close>

subsection \<open>What each step leaves alone\<close>

lemma create_event_with_retry_unfold:
  "create_event_with_retry E ev st =
     (case to_google_event E ev of
        Inl m \<Rightarrow> (Inl m, st\<lparr>sleeps := sleeps st @ [1, 2]\<rparr>)
      | Inr p \<Rightarrow>
     (let n = length (calls st) in
      case events_insert E n p of
        Inr i \<Rightarrow> (Inr (Some i), st\<lparr>calls := calls st @ [EventsInsert p]\<rparr>)
      | Inl m1 \<Rightarrow>
          (case events_insert E (n + 1) p of
             Inr i \<Rightarrow> (Inr (Some i), st\<lparr>calls := calls st @ [EventsInsert p, EventsInsert p],
                                         sleeps := sleeps st @ [1]\<rparr>)
           | Inl m2 \<Rightarrow>
               (case events_insert E (n + 2) p of
                  Inr i \<Rightarrow> (Inr (Some i),
                            st\<lparr>calls := calls st @ [EventsInsert p, EventsInsert p, EventsInsert p],
                               sleeps := sleeps st @ [1, 2]\<rparr>)
                | Inl m3 \<Rightarrow> (Inl m3,
                            st\<lparr>calls := calls st @ [EventsInsert p, EventsInsert p, EventsInsert p],
                               sleeps := sleeps st @ [1, 2]\<rparr>)))))"
  unfolding create_event_with_retry_def
  apply (subst create_attempts.simps)
  apply (subst create_attempts.simps)
  apply (subst create_attempts.simps)
  apply (simp add: insert_attempt_def cal_insert_def RETRY_DELAY_def Let_def split: sum.splits)
  done

lemma retry_frame:
  assumes "create_event_with_retry E ev st = (r, st')"
  shows "synced_events st' = synced_events st" "sync_log st' = sync_log st"
    "failed_events st' = failed_events st" "validation_errors st' = validation_errors st"
    "duplicate_events st' = duplicate_events st"
  using assms unfolding create_event_with_retry_unfold
  by (auto simp: Let_def split: sum.splits)

lemma retry_calls:
  assumes "create_event_with_retry E ev st = (r, st')" "to_google_event E ev = Inr p"
  shows "calls st' = calls st @ [EventsInsert p]
       \<or> calls st' = calls st @ [EventsInsert p, EventsInsert p]
       \<or> calls st' = calls st @ [EventsInsert p, EventsInsert p, EventsInsert p]"
  using assms unfolding create_event_with_retry_unfold
  by (auto simp: Let_def split: sum.splits)

lemma record_phase_frame:
  assumes "record_phase E ev c st = (r, st')"
  shows "sync_log st' = sync_log st"
    "failed_events st' = failed_events st" "validation_errors st' = validation_errors st"
    "duplicate_events st' = duplicate_events st" "sleeps st' = sleeps st"
  using assms unfolding record_phase_def cal_get_def update_attempt_def cal_update_def delete_stale_def
  by (auto split: option.splits sum.splits if_splits)

lemma relink_or_create_frame:
  assumes "relink_or_create E snap ev c st = (r, st')"
  shows "sync_log st' = sync_log st"
    "failed_events st' = failed_events st" "validation_errors st' = validation_errors st"
    "duplicate_events st' = duplicate_events st"
proof -
  obtain r1 st1 where c: "create_event_with_retry E ev st = (r1, st1)" by force
  note f = retry_frame[OF c]
  from assms c f show "sync_log st' = sync_log st"
    "failed_events st' = failed_events st" "validation_errors st' = validation_errors st"
    "duplicate_events st' = duplicate_events st"
    by (auto simp: relink_or_create_def split: sum.splits option.splits if_splits)
qed

lemma sync_one_frame:
  assumes "sync_one E snap ev (c, st) = (c', st')"
  shows "sync_log st' = sync_log st" "validation_errors st' = validation_errors st"
    "duplicate_events st' = duplicate_events st"
proof -
  obtain r1 st1 where a: "record_phase E ev c st = (r1, st1)" by force
  obtain r2 st2 where b: "relink_or_create E snap ev c st1 = (r2, st2)" by force
  note f = record_phase_frame[OF a] relink_or_create_frame[OF b]
  from assms a b f show "sync_log st' = sync_log st" "validation_errors st' = validation_errors st"
    "duplicate_events st' = duplicate_events st"
    by (auto simp: sync_one_def record_failure_def split: sum.splits option.splits)
qed

lemma sync_loop_frame:
  assumes "sync_loop E snap evs (c, st) = (c', st')"
  shows "sync_log st' = sync_log st \<and> validation_errors st' = validation_errors st
    \<and> duplicate_events st' = duplicate_events st"
  using assms
proof (induction evs arbitrary: c st)
  case Nil
  then show ?case by (simp add: sync_loop_def)
next
  case (Cons ev evs)
  obtain c1 st1 where a: "sync_one E snap ev (c, st) = (c1, st1)" by force
  with Cons.prems have "sync_loop E snap evs (c1, st1) = (c', st')"
    by (simp add: sync_loop_def)
  from Cons.IH[OF this] sync_one_frame[OF a] show ?case by simp
qed

subsection \<open>The reader on the example sheets\<close>

lemmas ex_defs = ex_env_def ex_parse_def empty_state_def sheet_header_def sheet_no_id_def
  sheet_standup_def t0900_def t0915_def t1000_def t1015_def live_entry_def

lemmas reader_defs = read_sheet_events_def read_row_def event_data_def get_default_def
  track_duplicate_def make_event_def date_errors_def duplicate_rows_def validation_rows_def
  is_valid_def validation_errors_of_def dt_le_def dt_less_def dt_fields_def strip_def is_space_def Let_def
  lower_def lower_char_def capital_letters_def small_letters_def

lemma ex_read_no_id:
  "fst (read_sheet_events (ex_env sheet_no_id) empty_state) =
     ([], [\<lparr> ie_row = 2, ie_name = ''Orphan'', ie_error = ''Missing Event ID'', ie_start_end = None \<rparr>], [])"
  by (simp add: reader_defs ex_defs)

lemma ex_read_standup:
  "fst (read_sheet_events (ex_env sheet_standup) empty_state) =
     ([\<lparr> sheet_id = ''A1'', name = ''Standup'', start_time = t0900, end_time = t0915,
         description = [], event_type = ''DEFAULT'', color = [], focus_time = False, row_number = 2 \<rparr>],
      [], [(''A1'', 1)])"
  by (simp add: reader_defs ex_defs)

subsection \<open>The result of a run\<close>

lemma read_sheet_events_frame:
  assumes "read_sheet_events E st = (r, st0)"
  shows "synced_events st0 = synced_events st" "sync_log st0 = sync_log st"
    "failed_events st0 = failed_events st" "calls st0 = calls st" "sleeps st0 = sleeps st"
  using assms unfolding read_sheet_events_def
  by (auto split: sum.splits if_splits prod.splits)

lemma read_sheet_events_reading:
  "fst (read_sheet_events E st) = fst (read_sheet_events E st')"
  unfolding read_sheet_events_def
  by (auto split: sum.splits if_splits prod.splits)

lemma snapshot_frame:
  assumes "get_existing_calendar_events E tmin tmax st = (snap, st1)"
  shows "synced_events st1 = synced_events st" "sync_log st1 = sync_log st"
    "failed_events st1 = failed_events st" "sleeps st1 = sleeps st"
    "validation_errors st1 = validation_errors st" "duplicate_events st1 = duplicate_events st"
    "calls st1 = calls st @ [EventsList tmin tmax]"
  using assms unfolding get_existing_calendar_events_def cal_list_def
  by (auto split: sum.splits)

lemma sync_one_errors:
  assumes "sync_one E snap ev (c, st) = (c', st')"
  shows "errors c' + length (failed_events st) = errors c + length (failed_events st')"
proof -
  obtain r1 st1 where a: "record_phase E ev c st = (r1, st1)" by force
  obtain r2 st2 where b: "relink_or_create E snap ev c st1 = (r2, st2)" by force
  have e1: "r1 = Some c1 \<Longrightarrow> errors c1 = errors c" for c1
    using a unfolding record_phase_def cal_get_def update_attempt_def cal_update_def
    by (auto split: option.splits sum.splits if_splits)
  have e2: "r2 = Inr c2 \<Longrightarrow> errors c2 = errors c" for c2
    using b unfolding relink_or_create_def
    by (auto split: option.splits sum.splits if_splits prod.splits)
  from assms a b e1 e2 record_phase_frame(2)[OF a] relink_or_create_frame(2)[OF b]
  show ?thesis
    by (auto simp: sync_one_def record_failure_def split: sum.splits option.splits)
qed

lemma sync_loop_errors:
  assumes "sync_loop E snap evs (c, st) = (c', st')"
  shows "errors c' + length (failed_events st) = errors c + length (failed_events st')"
  using assms
proof (induction evs arbitrary: c st)
  case Nil
  then show ?case by (simp add: sync_loop_def)
next
  case (Cons ev evs)
  obtain c1 st1 where a: "sync_one E snap ev (c, st) = (c1, st1)" by force
  with Cons.prems have "sync_loop E snap evs (c1, st1) = (c', st')"
    by (simp add: sync_loop_def)
  from Cons.IH[OF this] sync_one_errors[OF a] show ?case by simp
qed

lemma sync_events_empty:
  assumes "read_sheet_events E st = (([], bad, dup), st0)"
  shows "sync_events E source st =
     Inr (NoValidEvents \<lparr> er_status = (if bad = [] then ''error'' else ''partial''),
                          er_message = ''No valid events in sheet'',
                          er_invalid_events = length bad,
                          er_validation_errors = take 10 bad \<rparr>, st0)"
  using assms by (simp add: sync_events_def)

lemma sync_events_overflow:
  assumes "read_sheet_events E st = ((evs, bad, dup), st0)" "evs \<noteq> []" "time_window evs = Inl e"
  shows "sync_events E source st = Inl e"
  using assms by (simp add: sync_events_def)

lemma sync_events_run:
  assumes "read_sheet_events E st = ((evs, bad, dup), st0)" "evs \<noteq> []"
    "time_window evs = Inr (tmin, tmax)"
    "get_existing_calendar_events E tmin tmax st0 = (snap, st1)"
    "sync_loop E snap evs (zero_counters, st1) = (c, st2)"
  shows "sync_events E source st =
     Inr (Completed (run_response c source (length evs) bad dup),
          st2\<lparr>sync_log := sync_log st2 @ [log_row c source (length evs)]\<rparr>)"
  using assms by (simp add: sync_events_def)

lemma sync_events_Inr_cases:
  assumes "sync_events E source st = Inr (resp, st')"
  obtains (empty) bad dup where
      "read_sheet_events E st = (([], bad, dup), st')"
      "resp = NoValidEvents \<lparr> er_status = (if bad = [] then ''error'' else ''partial''),
                          er_message = ''No valid events in sheet'',
                          er_invalid_events = length bad,
                          er_validation_errors = take 10 bad \<rparr>"
    | (run) evs bad dup st0 tmin tmax snap st1 c st2 where
      "read_sheet_events E st = ((evs, bad, dup), st0)" "evs \<noteq> []"
      "time_window evs = Inr (tmin, tmax)"
      "get_existing_calendar_events E tmin tmax st0 = (snap, st1)"
      "sync_loop E snap evs (zero_counters, st1) = (c, st2)"
      "resp = Completed (run_response c source (length evs) bad dup)"
      "st' = st2\<lparr>sync_log := sync_log st2 @ [log_row c source (length evs)]\<rparr>"
proof -
  obtain evs bad dup st0 where rd: "read_sheet_events E st = ((evs, bad, dup), st0)"
    by (metis prod.collapse)
  show thesis
  proof (cases "evs = []")
    case True
    with rd assms empty show ?thesis by (simp add: sync_events_def)
  next
    case False
    show ?thesis
    proof (cases "time_window evs")
      case (Inl e)
      with rd False assms show ?thesis by (simp add: sync_events_def)
    next
      case (Inr w)
      obtain tmin tmax where w: "w = (tmin, tmax)" by force
      obtain snap st1 where sn: "get_existing_calendar_events E tmin tmax st0 = (snap, st1)"
        by force
      obtain c st2 where lp: "sync_loop E snap evs (zero_counters, st1) = (c, st2)" by force
      from assms sync_events_run[OF rd False Inr[unfolded w] sn lp, of source]
      have "resp = Completed (run_response c source (length evs) bad dup)"
        "st' = st2\<lparr>sync_log := sync_log st2 @ [log_row c source (length evs)]\<rparr>"
        by simp_all
      with run[OF rd False Inr[unfolded w] sn lp] show ?thesis by blast
    qed
  qed
qed

text \<open>
  C10. Whatever the number of per-event errors, the row that a run appends to
  \<^verbatim>\<open>sync_log\<close> has the status \<^verbatim>\<open>'completed'\<close>; a run without valid events appends no
  row. The status of the returned dict (\<^verbatim>\<open>'success'\<close>, \<^verbatim>\<open>'partial'\<close> or \<^verbatim>\<open>'error'\<close>) is
  never the stored one.
\<close>

theorem sync_log_status_completed:
  assumes "sync_events E source st = Inr (resp, st')"
  shows "(\<exists>rows. sync_log st' = sync_log st @ rows
            \<and> (\<forall>row \<in> set rows. sl_status row = ''completed'')
            \<and> (case resp of
                  NoValidEvents r \<Rightarrow> rows = []
                | Completed r \<Rightarrow> (\<exists>row. rows = [row] \<and> sl_errors row = rr_errors r)))
         \<and> response_status resp \<noteq> ''completed''"
  using assms
proof (cases rule: sync_events_Inr_cases)
  case (empty bad dup)
  from read_sheet_events_frame(2)[OF empty(1)] empty(2) show ?thesis by simp
next
  case (run evs bad dup st0 tmin tmax snap st1 c st2)
  have "sync_log st2 = sync_log st"
    using read_sheet_events_frame(2)[OF run(1)] snapshot_frame(2)[OF run(4)]
      sync_loop_frame[OF run(5)] by simp
  with run(6,7) show ?thesis
    by (simp add: log_row_def run_response_def)
qed

lemma ex_time_window:
  "time_window [standup] =
     Inr (\<lparr> year = 2025, month = 2, day = 28, hour = 9, minute = 0, second = 0 \<rparr>,
          \<lparr> year = 2025, month = 3, day = 2, hour = 9, minute = 15, second = 0 \<rparr>)"
  by (simp add: time_window_def standup_def ex_defs dt_min_def dt_max_def dt_less_def dt_fields_def
      minus_one_day_def plus_one_day_def days_in_month_def leap_def)

lemmas sync_defs = sync_loop_def sync_one_def record_phase_def relink_or_create_def
  record_failure_def create_event_with_retry_unfold sql_select_def sql_insert_def
  sql_insert_or_replace_def sql_update_def sql_delete_def delete_stale_def new_row_def
  cal_get_def update_attempt_def cal_update_def get_existing_calendar_events_def cal_list_def zero_counters_def
  BATCH_SIZE_def RATE_LIMIT_DELAY_def unique_id_def content_hash_def content_key_def

lemmas event_defs = to_google_event_def payload_color_def payload_description_def color_map_def
  clean_description_def isoformat_def format_datetime_def
  pad2_def pad4_def digit_def strip_def is_space_def lower_def lower_char_def upper_def
  upper_char_def capital_letters_def small_letters_def replace.simps TIMEZONE_def
  MAX_DESCRIPTION_LENGTH_def


lemmas ex_run_defs = standup_payload_def standup_row_def standup_window_def first_run_log_def
  first_run_state_def first_run_result_def standup_def

lemma ex_read_standup_full:
  "read_sheet_events (ex_env sheet_standup) empty_state = (([standup], [], [(''A1'', 1)]), empty_state)"
  by (simp add: reader_defs ex_defs standup_def)

lemma ex_standup_strings:
  "to_google_event (ex_env v) standup = Inr standup_payload"
  "unique_id standup = ''A1_2025-03-01T09:00:00''"
  "content_key standup = ''standup|2025-03-01T09:00:00''"
  "new_row (ex_env v) standup cid = standup_row cid"
  "content_hash (ex_env v) standup = ''standup|2025-03-01T09:00:00|2025-03-01T09:15:00''"
  by (simp_all add: event_defs ex_run_defs ex_defs unique_id_def content_key_def new_row_def
      content_hash_def)

lemma standup_payload_any_env:
  "to_google_event E standup = Inr standup_payload"
  by (simp add: event_defs ex_run_defs ex_defs)

lemma ex_env_simps:
  "sha256_hex (ex_env v) = (\<lambda>s. s)"
  "parse_datetime (ex_env v) = ex_parse"
  "iso_normalize (ex_env v) = Some"
  "int_of_float (ex_env v) = ex_int_of_float"
  "sheet_values (ex_env v) = Inr v"
  "events_list (ex_env v) = (\<lambda>k tmin tmax. Inr [])"
  "events_get (ex_env v) = (\<lambda>k cid. Inr (live_entry cid))"
  "events_insert (ex_env v) = (\<lambda>k body. Inr (''evt'' @ [digit k]))"
  "events_update (ex_env v) = (\<lambda>k cid body. Inr ())"
  by (simp_all add: ex_env_def)

lemma ex_first_run:
  "sync_events (ex_env sheet_standup) ''manual'' empty_state =
     Inr (Completed first_run_result, first_run_state)"
proof -
  have sn: "get_existing_calendar_events (ex_env sheet_standup)
      \<lparr> year = 2025, month = 2, day = 28, hour = 9, minute = 0, second = 0 \<rparr>
      \<lparr> year = 2025, month = 3, day = 2, hour = 9, minute = 15, second = 0 \<rparr> empty_state
     = (Map.empty, empty_state\<lparr>calls := [standup_window]\<rparr>)"
    by (simp add: get_existing_calendar_events_def cal_list_def ex_env_simps empty_state_def
        standup_window_def)
  have lp: "sync_loop (ex_env sheet_standup) Map.empty [standup]
       (zero_counters, empty_state\<lparr>calls := [standup_window]\<rparr>)
     = (zero_counters\<lparr>created := 1\<rparr>,
        empty_state\<lparr>calls := [standup_window, EventsInsert standup_payload],
                     synced_events := [standup_row ''evt1'']\<rparr>)"
    by (simp add: sync_loop_def sync_one_def record_phase_def relink_or_create_def
        create_event_with_retry_unfold ex_standup_strings sql_select_def sql_insert_def
        BATCH_SIZE_def ex_env_simps empty_state_def digit_def zero_counters_def standup_row_def)
  show ?thesis
    using sync_events_run[OF ex_read_standup_full _ ex_time_window sn lp, of "''manual''"]
    by (simp add: run_response_def log_row_def first_run_state_def first_run_result_def
        first_run_log_def zero_counters_def empty_state_def)
qed

theorem sync_log_status_completed_witness:
  "sync_events (ex_env sheet_standup) ''manual'' empty_state
     = Inr (Completed first_run_result, first_run_state)
   \<and> sync_log first_run_state = sync_log empty_state @ [first_run_log]
   \<and> sl_status first_run_log = ''completed''
   \<and> response_status (Completed first_run_result) \<noteq> ''completed''"
  using sync_log_status_completed[OF ex_first_run] ex_first_run
  by (simp add: first_run_state_def first_run_log_def empty_state_def)

text \<open>
  C1. The status of the returned dict: with no valid event it is \<^verbatim>\<open>'error'\<close> when no row
  was reported invalid and \<^verbatim>\<open>'partial'\<close> otherwise, and the run ends there, without a
  call to the calendar service and without a change of \<^verbatim>\<open>synced_events\<close>; with valid
  events it is \<^verbatim>\<open>'success'\<close> when the error count is zero and \<^verbatim>\<open>'partial'\<close> otherwise,
  the error count being the number of rows the run adds to \<^verbatim>\<open>failed_events\<close>. The only
  run that returns no dict is the one whose snapshot window leaves the range of dates.
\<close>

theorem sync_events_status:
  assumes "read_sheet_events E st = ((evs, bad, dup), st0)"
  shows "(evs = [] \<longrightarrow>
            (\<exists>r. sync_events E source st = Inr (NoValidEvents r, st0)
               \<and> er_status r = (if bad = [] then ''error'' else ''partial''))
            \<and> calls st0 = calls st \<and> synced_events st0 = synced_events st)
       \<and> (evs \<noteq> [] \<longrightarrow>
            (case time_window evs of
               Inl e \<Rightarrow> sync_events E source st = Inl e
             | Inr w \<Rightarrow>
                 (\<exists>r st'. sync_events E source st = Inr (Completed r, st')
                    \<and> rr_status r = (if rr_errors r = 0 then ''success'' else ''partial'')
                    \<and> length (failed_events st') = length (failed_events st) + rr_errors r)))"
proof (intro conjI impI)
  assume e: "evs = []"
  from sync_events_empty[OF assms[unfolded e]]
  show "\<exists>r. sync_events E source st = Inr (NoValidEvents r, st0)
          \<and> er_status r = (if bad = [] then ''error'' else ''partial'')"
    by simp
  from read_sheet_events_frame[OF assms]
  show "calls st0 = calls st" "synced_events st0 = synced_events st" by simp_all
next
  assume ne: "evs \<noteq> []"
  show "case time_window evs of
          Inl e \<Rightarrow> sync_events E source st = Inl e
        | Inr w \<Rightarrow>
            (\<exists>r st'. sync_events E source st = Inr (Completed r, st')
               \<and> rr_status r = (if rr_errors r = 0 then ''success'' else ''partial'')
               \<and> length (failed_events st') = length (failed_events st) + rr_errors r)"
  proof (cases "time_window evs")
    case (Inl e)
    with sync_events_overflow[OF assms ne Inl] show ?thesis by simp
  next
    case (Inr w)
    obtain tmin tmax where w: "w = (tmin, tmax)" by force
    obtain snap st1 where sn: "get_existing_calendar_events E tmin tmax st0 = (snap, st1)"
      by force
    obtain c st2 where lp: "sync_loop E snap evs (zero_counters, st1) = (c, st2)" by force
    have "length (failed_events st2) = length (failed_events st) + errors c"
      using sync_loop_errors[OF lp] snapshot_frame(3)[OF sn] read_sheet_events_frame(3)[OF assms]
      by (simp add: zero_counters_def)
    with sync_events_run[OF assms ne Inr[unfolded w] sn lp, of source] Inr
    show ?thesis by (simp add: run_response_def)
  qed
qed

theorem sync_events_status_witness:
  "read_sheet_events (ex_env sheet_standup) empty_state
     = (([standup], [], [(''A1'', 1)]), empty_state)
   \<and> (\<exists>r st'. sync_events (ex_env sheet_standup) ''manual'' empty_state = Inr (Completed r, st')
         \<and> rr_status r = (if rr_errors r = 0 then ''success'' else ''partial'')
         \<and> length (failed_events st') = length (failed_events empty_state) + rr_errors r)"
  using sync_events_status[OF ex_read_standup_full, of "''manual''"] ex_read_standup_full
  by (simp add: ex_time_window)

lemma ex_read_no_id_full:
  "read_sheet_events (ex_env sheet_no_id) empty_state =
     (([], [\<lparr> ie_row = 2, ie_name = ''Orphan'', ie_error = ''Missing Event ID'',
               ie_start_end = None \<rparr>], []),
      empty_state\<lparr>validation_errors :=
        [\<lparr> ve_row_number = 2, ve_event_name = ''Orphan'',
           ve_validation_errors = ''Missing Event ID'' \<rparr>]\<rparr>)"
  by (simp add: reader_defs ex_defs)

theorem no_valid_events_partial_counterexample:
  "fst (fst (read_sheet_events (ex_env sheet_no_id) empty_state)) = []
   \<and> map_sum id (\<lambda>x. response_status (fst x))
        (sync_events (ex_env sheet_no_id) ''manual'' empty_state) = Inr ''partial''"
  by (simp add: sync_events_empty[OF ex_read_no_id_full] ex_read_no_id_full)

subsection \<open>The description of the payload\<close>

lemma description_length:
  "to_google_event E e = Inr g \<Longrightarrow> g_description g = Some d \<Longrightarrow> length d \<le> 8000"
  by (auto simp: to_google_event_def payload_description_def MAX_DESCRIPTION_LENGTH_def
      split: if_splits sum.splits)

lemma escaped_br_becomes_newline:
  "clean_description ''a&lt;br&gt;b'' = [CHR ''a'', CHR 0x0A, CHR ''b'']"
  by (simp add: clean_description_def strip_def is_space_def)

text \<open>
  C4. The tag pattern is applied first, so it removes every \<^verbatim>\<open><br>\<close> of the description
  before \<^verbatim>\<open>replace('<br>', '\n')\<close> runs: the two lines are joined without a newline.
\<close>

theorem br_tag_removed_not_newline:
  "map_sum id g_description (to_google_event E (standup\<lparr>description := ''Agenda<br>Notes''\<rparr>))
     = Inr (Some ''AgendaNotes'')"
  by (simp add: to_google_event_def payload_color_def payload_description_def color_map_def
      upper_def upper_char_def capital_letters_def small_letters_def
      clean_description_def strip_def is_space_def standup_def MAX_DESCRIPTION_LENGTH_def)

subsection \<open>A record whose entry is cancelled\<close>

lemma cancelled_env_simps:
  "sha256_hex cancelled_env = (\<lambda>s. s)"
  "parse_datetime cancelled_env = ex_parse"
  "int_of_float cancelled_env = ex_int_of_float"
  "sheet_values cancelled_env = Inr sheet_standup"
  "events_list cancelled_env = (\<lambda>k tmin tmax. Inr [])"
  "events_get cancelled_env = (\<lambda>k cid. Inr ((live_entry cid)\<lparr>status := ''cancelled''\<rparr>))"
  "events_insert cancelled_env = (\<lambda>k body. Inr (''evt'' @ [digit k]))"
  by (simp_all add: cancelled_env_def ex_env_def)

lemma standup_strings_any_env:
  "new_row E standup cid = (standup_row cid)\<lparr>event_hash := content_hash E standup\<rparr>"
  "content_hash E standup = sha256_hex E ''standup|2025-03-01T09:00:00|2025-03-01T09:15:00''"
  by (simp_all add: event_defs ex_run_defs ex_defs unique_id_def new_row_def content_hash_def)

text \<open>
  C3. The record of the event points to a cancelled entry and the snapshot has no entry
  for the event. The record is not deleted; a new entry is inserted into the calendar;
  the \<^verbatim>\<open>INSERT\<close> of the new record breaks \<^verbatim>\<open>UNIQUE(unique_event_id)\<close>, and the event is
  counted as an error, not as created.
\<close>

theorem cancelled_entry_surfaces_error:
  "sync_one cancelled_env Map.empty standup
     (zero_counters, empty_state\<lparr>synced_events := [standup_row ''evt0'']\<rparr>)
   = (zero_counters\<lparr> errors := 1,
        failed := [standup_report ''UNIQUE constraint failed: synced_events.unique_event_id''] \<rparr>,
      empty_state\<lparr> synced_events := [standup_row ''evt0''],
        calls := [EventsGet ''evt0'', EventsInsert standup_payload],
        failed_events :=
          [standup_failure ''UNIQUE constraint failed: synced_events.unique_event_id''] \<rparr>)"
  by (simp add: sync_one_def record_phase_def relink_or_create_def record_failure_def
      create_event_with_retry_unfold cal_get_def sql_select_def sql_insert_def
      new_row_def unique_id_def content_hash_def content_key_def event_defs
      cancelled_env_simps empty_state_def zero_counters_def ex_run_defs live_entry_def
      standup_failure_def standup_report_def ex_defs)

subsection \<open>The statements on the table of sync records\<close>

lemma sql_select_None: "sql_select rows uid = None \<longleftrightarrow> uid \<notin> set (map unique_event_id rows)"
  by (auto simp: sql_select_def find_None_iff)

lemma sql_select_Some:
  "sql_select rows uid = Some r \<Longrightarrow> r \<in> set rows \<and> unique_event_id r = uid"
  by (auto simp: sql_select_def find_Some_iff)

lemma sql_select_append:
  "sql_select (rows @ [r]) uid =
     (case sql_select rows uid of
        Some x \<Rightarrow> Some x
      | None \<Rightarrow> if unique_event_id r = uid then Some r else None)"
  by (induction rows) (auto simp: sql_select_def)

lemma sql_select_filter:
  "sql_select (filter P rows) uid =
     find (\<lambda>r. unique_event_id r = uid \<and> P r) rows"
  by (induction rows) (auto simp: sql_select_def)

lemma sql_select_delete:
  "sql_select (sql_delete rows u) uid = (if uid = u then None else sql_select rows uid)"
  by (induction rows) (auto simp: sql_select_def sql_delete_def)

lemma sql_select_update:
  "sql_select (sql_update rows u h n s e) uid =
     (if uid = u
      then map_option (\<lambda>r. r\<lparr>event_hash := h, event_name := n, se_start_time := s,
                               se_end_time := e\<rparr>) (sql_select rows uid)
      else sql_select rows uid)"
  by (induction rows) (auto simp: sql_select_def sql_update_def)

lemma sql_select_insert_or_replace_same:
  "sql_select (sql_insert_or_replace rows r) (unique_event_id r) = Some r"
proof -
  have "find (\<lambda>x. unique_event_id x = unique_event_id r \<and>
                 unique_event_id x \<noteq> unique_event_id r \<and>
                 calendar_event_id x \<noteq> calendar_event_id r) rows = None"
    by (simp add: find_None_iff)
  then show ?thesis
    by (simp add: sql_insert_or_replace_def sql_select_append sql_select_filter)
qed

lemma distinct_map_filter_keys: "distinct (map f xs) \<Longrightarrow> distinct (map f (filter P xs))"
  by (induction xs) auto

lemma unique_rows_insert:
  assumes "unique_rows rows" "sql_insert rows r = Inr rows'"
  shows "unique_rows rows'"
  using assms by (auto simp: unique_rows_def sql_insert_def split: if_splits)

lemma unique_rows_insert_or_replace:
  assumes "unique_rows rows"
  shows "unique_rows (sql_insert_or_replace rows r)"
  using assms
  by (auto simp: unique_rows_def sql_insert_or_replace_def distinct_map_filter_keys)

lemma unique_rows_update:
  assumes "unique_rows rows"
  shows "unique_rows (sql_update rows uid h n s e)"
proof -
  have "map unique_event_id (sql_update rows uid h n s e) = map unique_event_id rows"
    "map calendar_event_id (sql_update rows uid h n s e) = map calendar_event_id rows"
    by (induction rows) (auto simp: sql_update_def)
  with assms show ?thesis by (simp add: unique_rows_def)
qed

lemma unique_rows_delete:
  assumes "unique_rows rows"
  shows "unique_rows (sql_delete rows uid)" "unique_rows (sql_delete_calendar_id rows cid)"
  using assms
  by (auto simp: unique_rows_def sql_delete_def sql_delete_calendar_id_def
      distinct_map_filter_keys)

lemma insert_or_replace_single:
  "filter (\<lambda>x. calendar_event_id x = calendar_event_id r) (sql_insert_or_replace rows r) = [r]"
  "filter (\<lambda>x. unique_event_id x = unique_event_id r) (sql_insert_or_replace rows r) = [r]"
  by (induction rows) (auto simp: sql_insert_or_replace_def)

text \<open>
  C9. Every statement that changes \<^verbatim>\<open>synced_events\<close> keeps \<^verbatim>\<open>unique_event_id\<close> and
  \<^verbatim>\<open>calendar_event_id\<close> unique (a plain \<^verbatim>\<open>INSERT\<close> in conflict is rejected and changes
  nothing). After the \<^verbatim>\<open>INSERT OR REPLACE\<close> of the link step, the new row is the only row
  with its calendar id and the only row with its unique id, and the table has not grown
  when that calendar id was already present: the old mapping is replaced.
\<close>

theorem unique_rows_preserved:
  assumes "unique_rows rows"
  shows "unique_rows (apply_mutation m rows)
       \<and> filter (\<lambda>x. calendar_event_id x = calendar_event_id r)
            (apply_mutation (InsertOrReplace r) rows) = [r]
       \<and> filter (\<lambda>x. unique_event_id x = unique_event_id r)
            (apply_mutation (InsertOrReplace r) rows) = [r]
       \<and> (calendar_event_id r \<in> set (map calendar_event_id rows) \<longrightarrow>
            length (apply_mutation (InsertOrReplace r) rows) \<le> length rows)"
proof (intro conjI impI)
  show "unique_rows (apply_mutation m rows)"
  proof (cases m)
    case (Insert x)
    then show ?thesis
      using assms unique_rows_insert[OF assms] by (auto split: sum.splits)
  next
    case (InsertOrReplace x)
    then show ?thesis using unique_rows_insert_or_replace[OF assms] by simp
  next
    case (UpdateRow u h n s e)
    then show ?thesis using unique_rows_update[OF assms] by simp
  next
    case (DeleteRow u)
    then show ?thesis using unique_rows_delete[OF assms] by simp
  next
    case (DeleteCalendarId c)
    then show ?thesis using unique_rows_delete[OF assms] by simp
  next
    case DeleteAll
    then show ?thesis by (simp add: sql_delete_all_def unique_rows_def)
  qed
next
  show "filter (\<lambda>x. calendar_event_id x = calendar_event_id r)
          (apply_mutation (InsertOrReplace r) rows) = [r]"
    "filter (\<lambda>x. unique_event_id x = unique_event_id r)
          (apply_mutation (InsertOrReplace r) rows) = [r]"
    by (simp_all add: insert_or_replace_single)
next
  assume "calendar_event_id r \<in> set (map calendar_event_id rows)"
  then obtain x where x: "x \<in> set rows" "calendar_event_id x = calendar_event_id r" by auto
  then have "length (filter (\<lambda>x. unique_event_id x \<noteq> unique_event_id r
                \<and> calendar_event_id x \<noteq> calendar_event_id r) rows) < length rows"
    by (intro length_filter_less[of x]) auto
  then show "length (apply_mutation (InsertOrReplace r) rows) \<le> length rows"
    by (simp add: sql_insert_or_replace_def)
qed

theorem unique_rows_preserved_witness:
  "unique_rows [link_row]
   \<and> unique_rows (apply_mutation (InsertOrReplace (standup_row ''evt1'')) [link_row])
   \<and> apply_mutation (InsertOrReplace (standup_row ''evt1'')) [link_row] = [standup_row ''evt1'']
   \<and> calendar_event_id (standup_row ''evt1'') \<in> set (map calendar_event_id [link_row])"
proof -
  have u: "unique_rows [link_row]" by (simp add: unique_rows_def)
  have e: "apply_mutation (InsertOrReplace (standup_row ''evt1'')) [link_row]
             = [standup_row ''evt1'']"
    by (simp add: sql_insert_or_replace_def link_row_def standup_row_def)
  from unique_rows_preserved[OF u, of "InsertOrReplace (standup_row ''evt1'')"] u e
  show ?thesis by (simp add: link_row_def standup_row_def)
qed

subsection \<open>Linking to an entry of the snapshot\<close>

text \<open>
  C7. An event without a record whose content key is in the snapshot: the record
  written for it links its unique id to the id of the snapshot entry with the current
  content hash, and no other record keeps that calendar id; the event is counted as
  skipped and nothing else; no call is made to the calendar service.
\<close>

theorem relink_existing_entry:
  assumes "sql_select (synced_events st) (unique_id ev) = None"
    and "snap (content_key ev) = Some existing"
  shows "sync_one E snap ev (c, st) =
           (c\<lparr>skipped := skipped c + 1\<rparr>,
            st\<lparr>synced_events :=
                 sql_insert_or_replace (synced_events st) (new_row E ev (entry_id existing))\<rparr>)
       \<and> sql_select (sql_insert_or_replace (synced_events st) (new_row E ev (entry_id existing)))
            (unique_id ev) = Some (new_row E ev (entry_id existing))
       \<and> unique_event_id (new_row E ev (entry_id existing)) = unique_id ev
       \<and> calendar_event_id (new_row E ev (entry_id existing)) = entry_id existing
       \<and> event_hash (new_row E ev (entry_id existing)) = content_hash E ev
       \<and> filter (\<lambda>r. calendar_event_id r = entry_id existing)
            (sql_insert_or_replace (synced_events st) (new_row E ev (entry_id existing)))
           = [new_row E ev (entry_id existing)]
       \<and> content_key ev = lower (strip (name ev)) @ ''|'' @ isoformat (start_time ev)"
proof -
  have u: "unique_event_id (new_row E ev (entry_id existing)) = unique_id ev"
    "calendar_event_id (new_row E ev (entry_id existing)) = entry_id existing"
    "event_hash (new_row E ev (entry_id existing)) = content_hash E ev"
    by (simp_all add: new_row_def)
  have s: "sync_one E snap ev (c, st) =
      (c\<lparr>skipped := skipped c + 1\<rparr>,
       st\<lparr>synced_events :=
            sql_insert_or_replace (synced_events st) (new_row E ev (entry_id existing))\<rparr>)"
    using assms by (simp add: sync_one_def record_phase_def relink_or_create_def)
  show ?thesis
    using sql_select_insert_or_replace_same[of "synced_events st" "new_row E ev (entry_id existing)"]
      insert_or_replace_single(1)[of "new_row E ev (entry_id existing)" "synced_events st"]
    unfolding s u by (simp add: content_key_def)
qed

theorem relink_existing_entry_witness:
  "sql_select (synced_events empty_state) (unique_id standup) = None
   \<and> snapshot_standup (content_key standup) = Some
        \<lparr> entry_id = ''evt1'', status = ''confirmed'', entry_summary = ''Standup'',
          entry_start = ''2025-03-01T09:00:00'' \<rparr>
   \<and> sync_one (ex_env sheet_standup) snapshot_standup standup (zero_counters, empty_state)
       = (zero_counters\<lparr>skipped := 1\<rparr>, empty_state\<lparr>synced_events := [standup_row ''evt1'']\<rparr>)"
proof -
  have a: "sql_select (synced_events empty_state) (unique_id standup) = None"
    by (simp add: sql_select_def empty_state_def)
  have b: "snapshot_standup (content_key standup) = Some
        \<lparr> entry_id = ''evt1'', status = ''confirmed'', entry_summary = ''Standup'',
          entry_start = ''2025-03-01T09:00:00'' \<rparr>"
    by (simp add: snapshot_standup_def ex_standup_strings)
  from relink_existing_entry[where st = empty_state and ev = standup
      and snap = snapshot_standup and E = "ex_env sheet_standup" and c = zero_counters, OF a b]
  have "sync_one (ex_env sheet_standup) snapshot_standup standup (zero_counters, empty_state)
       = (zero_counters\<lparr>skipped := 1\<rparr>, empty_state\<lparr>synced_events := [standup_row ''evt1'']\<rparr>)"
    by (simp add: ex_standup_strings sql_insert_or_replace_def empty_state_def zero_counters_def)
  with a b show ?thesis by simp
qed

subsection \<open>Creation that fails on every attempt\<close>

lemma record_phase_None_rows:
  assumes "record_phase E ev c st = (None, st1)"
  shows "synced_events st1 = synced_events st
       \<or> synced_events st1 = sql_delete (synced_events st) (unique_id ev)"
  using assms unfolding record_phase_def cal_get_def update_attempt_def cal_update_def delete_stale_def
  by (auto split: option.splits sum.splits if_splits)

lemma retry_calls_le:
  "length (calls (snd (create_event_with_retry E ev s))) \<le> length (calls s) + 3"
  unfolding create_event_with_retry_unfold
  by (simp add: Let_def split: sum.splits)

lemma create_event_with_retry_exhausted:
  assumes "attempt_outcome E ev (length (calls st1)) = Inl m1"
    and "attempt_outcome E ev (length (calls st1) + 1) = Inl m2"
    and "attempt_outcome E ev (length (calls st1) + 2) = Inl m3"
  shows "create_event_with_retry E ev st1 =
           (Inl m3, st1\<lparr> calls := calls st1 @ failed_attempt_calls E ev,
                         sleeps := sleeps st1 @ [RETRY_DELAY * 1, RETRY_DELAY * 2] \<rparr>)"
proof (cases "to_google_event E ev")
  case (Inl m)
  with assms show ?thesis
    by (simp add: create_event_with_retry_unfold attempt_outcome_def failed_attempt_calls_def
        RETRY_DELAY_def)
next
  case (Inr p)
  with assms show ?thesis
    by (simp add: create_event_with_retry_unfold attempt_outcome_def failed_attempt_calls_def
        RETRY_DELAY_def numeral_3_eq_3 Let_def)
qed

text \<open>
  C8. \<^verbatim>\<open>create_event_with_retry\<close> never makes more than three insert calls. An attempt
  fails with the exception of the insert call, or with the exception of
  \<^verbatim>\<open>to_google_event\<close> before any call. When the three attempts of an event that reaches
  the creation fail, it sleeps \<^verbatim>\<open>RETRY_DELAY * 1\<close> and \<^verbatim>\<open>RETRY_DELAY * 2\<close> between them and
  raises the error of the third; \<^verbatim>\<open>sync_events\<close> then counts one error and no creation
  for the event, appends to \<^verbatim>\<open>failed_events\<close> a row with the row number and that error,
  and writes no record: \<^verbatim>\<open>synced_events\<close> is as the lookup of the record left it. With a
  payload, the three failed attempts are three insert calls with that payload.
\<close>

theorem create_retry_exhausted:
  assumes "record_phase E ev c st = (None, st1)"
    and "snap (content_key ev) = None"
    and "attempt_outcome E ev (length (calls st1)) = Inl m1"
    and "attempt_outcome E ev (length (calls st1) + 1) = Inl m2"
    and "attempt_outcome E ev (length (calls st1) + 2) = Inl m3"
  shows "length (calls (snd (create_event_with_retry E ev s))) \<le> length (calls s) + 3
       \<and> create_event_with_retry E ev st1 =
           (Inl m3, st1\<lparr> calls := calls st1 @ failed_attempt_calls E ev,
                         sleeps := sleeps st1 @ [RETRY_DELAY * 1, RETRY_DELAY * 2] \<rparr>)
       \<and> sync_one E snap ev (c, st) =
           (c\<lparr> errors := errors c + 1,
               failed := failed c @ [\<lparr> fr_row = row_number ev, fr_name = name ev,
                   fr_start_time = isoformat (start_time ev), fr_error = m3 \<rparr>] \<rparr>,
            st1\<lparr> calls := calls st1 @ failed_attempt_calls E ev,
                 sleeps := sleeps st1 @ [RETRY_DELAY * 1, RETRY_DELAY * 2],
                 failed_events := failed_events st1 @
                   [\<lparr> fe_sheet_event_id = sheet_id ev, fe_unique_event_id = unique_id ev,
                      fe_event_name = name ev, error_message = m3,
                      fe_row_number = row_number ev \<rparr>] \<rparr>)
       \<and> set (synced_events st1) \<subseteq> set (synced_events st)
       \<and> (to_google_event E ev = Inr body \<longrightarrow>
            failed_attempt_calls E ev = replicate 3 (EventsInsert body)
            \<and> events_insert E (length (calls st1)) body = Inl m1
            \<and> events_insert E (length (calls st1) + 1) body = Inl m2
            \<and> events_insert E (length (calls st1) + 2) body = Inl m3)
       \<and> (to_google_event E ev = Inl m \<longrightarrow> failed_attempt_calls E ev = [] \<and> m3 = m)"
proof (intro conjI impI)
  show "length (calls (snd (create_event_with_retry E ev s))) \<le> length (calls s) + 3"
    by (rule retry_calls_le)
next
  show cr: "create_event_with_retry E ev st1 =
           (Inl m3, st1\<lparr> calls := calls st1 @ failed_attempt_calls E ev,
                         sleeps := sleeps st1 @ [RETRY_DELAY * 1, RETRY_DELAY * 2] \<rparr>)"
    by (rule create_event_with_retry_exhausted[OF assms(3,4,5)])
  show "set (synced_events st1) \<subseteq> set (synced_events st)"
    using record_phase_None_rows[OF assms(1)] by (auto simp: sql_delete_def)
  show "sync_one E snap ev (c, st) =
           (c\<lparr> errors := errors c + 1,
               failed := failed c @ [\<lparr> fr_row = row_number ev, fr_name = name ev,
                   fr_start_time = isoformat (start_time ev), fr_error = m3 \<rparr>] \<rparr>,
            st1\<lparr> calls := calls st1 @ failed_attempt_calls E ev,
                 sleeps := sleeps st1 @ [RETRY_DELAY * 1, RETRY_DELAY * 2],
                 failed_events := failed_events st1 @
                   [\<lparr> fe_sheet_event_id = sheet_id ev, fe_unique_event_id = unique_id ev,
                      fe_event_name = name ev, error_message = m3,
                      fe_row_number = row_number ev \<rparr>] \<rparr>)"
    using assms(1,2)
    by (simp add: sync_one_def relink_or_create_def cr record_failure_def)
next
  assume p: "to_google_event E ev = Inr body"
  show "failed_attempt_calls E ev = replicate 3 (EventsInsert body)"
    by (simp add: failed_attempt_calls_def p)
  show "events_insert E (length (calls st1)) body = Inl m1"
    "events_insert E (length (calls st1) + 1) body = Inl m2"
    "events_insert E (length (calls st1) + 2) body = Inl m3"
    using assms(3,4,5) by (simp_all add: attempt_outcome_def p)
next
  assume p: "to_google_event E ev = Inl m"
  show "failed_attempt_calls E ev = []" by (simp add: failed_attempt_calls_def p)
  show "m3 = m" using assms(5) by (simp add: attempt_outcome_def p)
qed

lemma failing_env_simps:
  "sha256_hex failing_env = (\<lambda>s. s)"
  "events_get failing_env = (\<lambda>k cid. Inr (live_entry cid))"
  "events_insert failing_env = (\<lambda>k body. Inl (''quota exceeded, call '' @ [digit k]))"
  by (simp_all add: failing_env_def ex_env_def)

theorem create_retry_exhausted_witness:
  "record_phase failing_env standup zero_counters empty_state = (None, empty_state)
   \<and> Map.empty (content_key standup) = (None :: CalEntry option)
   \<and> to_google_event failing_env standup = Inr standup_payload
   \<and> events_insert failing_env 0 standup_payload = Inl ''quota exceeded, call 0''
   \<and> events_insert failing_env 1 standup_payload = Inl ''quota exceeded, call 1''
   \<and> events_insert failing_env 2 standup_payload = Inl ''quota exceeded, call 2''
   \<and> sync_one failing_env Map.empty standup (zero_counters, empty_state) =
       (zero_counters\<lparr> errors := 1, failed := [standup_report ''quota exceeded, call 2''] \<rparr>,
        empty_state\<lparr> calls := [EventsInsert standup_payload, EventsInsert standup_payload,
                                 EventsInsert standup_payload],
                     sleeps := [1, 2],
                     failed_events := [standup_failure ''quota exceeded, call 2''] \<rparr>)"
proof -
  have a: "record_phase failing_env standup zero_counters empty_state = (None, empty_state)"
    by (simp add: record_phase_def sql_select_def empty_state_def)
  have b: "Map.empty (content_key standup) = (None :: CalEntry option)" by simp
  have p: "to_google_event failing_env standup = Inr standup_payload"
    by (rule standup_payload_any_env)
  have j: "events_insert failing_env 0 standup_payload = Inl ''quota exceeded, call 0''"
    "events_insert failing_env 1 standup_payload = Inl ''quota exceeded, call 1''"
    "events_insert failing_env 2 standup_payload = Inl ''quota exceeded, call 2''"
    by (simp_all add: failing_env_simps digit_def)
  have i: "attempt_outcome failing_env standup (length (calls empty_state))
             = Inl ''quota exceeded, call 0''"
    "attempt_outcome failing_env standup (length (calls empty_state) + 1)
             = Inl ''quota exceeded, call 1''"
    "attempt_outcome failing_env standup (length (calls empty_state) + 2)
             = Inl ''quota exceeded, call 2''"
    by (simp_all add: attempt_outcome_def p failing_env_simps empty_state_def digit_def)
  note t = create_retry_exhausted[where snap = Map.empty and body = standup_payload,
      OF a b i, of empty_state]
  note fc = t[THEN conjunct2, THEN conjunct2, THEN conjunct2, THEN conjunct2, THEN conjunct1,
      THEN mp, OF p, THEN conjunct1]
  note s = t[THEN conjunct2, THEN conjunct2, THEN conjunct1]
  have "sync_one failing_env Map.empty standup (zero_counters, empty_state) =
       (zero_counters\<lparr> errors := 1, failed := [standup_report ''quota exceeded, call 2''] \<rparr>,
        empty_state\<lparr> calls := [EventsInsert standup_payload, EventsInsert standup_payload,
                                 EventsInsert standup_payload],
                     sleeps := [1, 2],
                     failed_events := [standup_failure ''quota exceeded, call 2''] \<rparr>)"
    unfolding s fc
    by (simp add: ex_standup_strings(2) RETRY_DELAY_def numeral_3_eq_3 zero_counters_def
        empty_state_def standup_report_def standup_failure_def,
        simp add: standup_def ex_defs isoformat_def format_datetime_def pad2_def pad4_def
        digit_def)
  with a b p j show ?thesis by blast
qed

text \<open>
  The colour \<^verbatim>\<open>inf\<close> with an event type outside \<^verbatim>\<open>color_map\<close>: \<^verbatim>\<open>to_google_event\<close> raises in
  each of the three attempts, no call is made, and the event is counted as an error.
\<close>

lemma infinite_color_counts_error:
  "to_google_event (ex_env sheet_standup) infinite_color
     = Inl ''cannot convert float infinity to integer''"
  "sync_one (ex_env sheet_standup) Map.empty infinite_color (zero_counters, empty_state) =
     (zero_counters\<lparr> errors := 1,
        failed := [standup_report ''cannot convert float infinity to integer''] \<rparr>,
      empty_state\<lparr> sleeps := [1, 2],
        failed_events := [standup_failure ''cannot convert float infinity to integer''] \<rparr>)"
  by (simp_all add: sync_one_def record_phase_def relink_or_create_def record_failure_def
      create_event_with_retry_unfold sql_select_def unique_id_def content_key_def event_defs
      ex_env_simps ex_int_of_float_def empty_state_def zero_counters_def ex_run_defs
      infinite_color_def standup_failure_def standup_report_def ex_defs)

subsection \<open>A record whose entry cannot be fetched\<close>

text \<open>
  The branch of the stale record that works: when the \<^verbatim>\<open>get\<close> of the linked entry
  raises, the record is deleted, and with no entry in the snapshot the event is created
  again and counted once as created.
\<close>

lemma stale_record_recreated:
  assumes "sql_select (synced_events st) (unique_id ev) = Some db_record"
    and "events_get E (length (calls st)) (calendar_event_id db_record) = Inl e"
    and "snap (content_key ev) = None"
    and "to_google_event E ev = Inr body"
    and "events_insert E (length (calls st) + 1) body = Inr cid"
    and "cid \<noteq> []"
    and "cid \<notin> set (map calendar_event_id (synced_events st))"
  shows "fst (sync_one E snap ev (c, st)) = c\<lparr>created := created c + 1\<rparr>
       \<and> synced_events (snd (sync_one E snap ev (c, st))) =
           sql_delete (synced_events st) (unique_id ev) @ [new_row E ev cid]
       \<and> failed_events (snd (sync_one E snap ev (c, st))) = failed_events st"
proof -
  have d: "unique_id ev \<notin> unique_event_id ` set (sql_delete (synced_events st) (unique_id ev))"
    "cid \<notin> calendar_event_id ` set (sql_delete (synced_events st) (unique_id ev))"
    using assms(7) by (auto simp: sql_delete_def)
  have r: "record_phase E ev c st =
      (None, st\<lparr>calls := calls st @ [EventsGet (calendar_event_id db_record)],
                synced_events := sql_delete (synced_events st) (unique_id ev)\<rparr>)"
    using assms(1,2) by (simp add: record_phase_def cal_get_def delete_stale_def)
  show ?thesis
    using assms(3,4,5,6) d
    by (simp add: sync_one_def r relink_or_create_def create_event_with_retry_unfold
        sql_insert_def new_row_def Let_def)
qed

subsection \<open>The ISO format of a valid datetime\<close>

lemma digit_inj: "x < 10 \<Longrightarrow> y < 10 \<Longrightarrow> digit x = digit y \<Longrightarrow> x = y"
proof -
  assume a: "x < 10" "y < 10" "digit x = digit y"
  have d: "distinct ''0123456789''" by simp
  have "length ''0123456789'' = 10" by simp
  with a d show ?thesis unfolding digit_def
    by (metis nth_eq_iff_index_eq)
qed

lemma pad2_inj: "x < 100 \<Longrightarrow> y < 100 \<Longrightarrow> pad2 x = pad2 y \<Longrightarrow> x = y"
proof -
  assume a: "x < 100" "y < 100" "pad2 x = pad2 y"
  then have "x div 10 = y div 10" "x mod 10 = y mod 10"
    by (auto simp: pad2_def intro!: digit_inj)
  then show ?thesis by (metis div_mult_mod_eq)
qed

lemma pad4_inj: "x < 10000 \<Longrightarrow> y < 10000 \<Longrightarrow> pad4 x = pad4 y \<Longrightarrow> x = y"
proof -
  assume a: "x < 10000" "y < 10000" "pad4 x = pad4 y"
  then have e: "x div 1000 = y div 1000" "x div 100 mod 10 = y div 100 mod 10"
     "x div 10 mod 10 = y div 10 mod 10" "x mod 10 = y mod 10"
    by (auto simp: pad4_def intro!: digit_inj)
  have k: "n div 1000 = n div 100 div 10" "n div 100 = n div 10 div 10" for n :: nat
    by (simp_all add: div_mult2_eq[symmetric])
  from e(1,2) have "x div 100 = y div 100"
    unfolding k(1) by (metis div_mult_mod_eq)
  with e(3) have "x div 10 = y div 10"
    unfolding k(2) by (metis div_mult_mod_eq)
  with e(4) show ?thesis by (metis div_mult_mod_eq)
qed

lemma length_isoformat: "length (isoformat d) = 19"
  by (simp add: isoformat_def format_datetime_def pad2_def pad4_def)

lemma valid_datetime_bounds:
  assumes "valid_datetime d"
  shows "year d < 10000" "month d < 100" "day d < 100" "hour d < 100" "minute d < 100"
    "second d < 100"
  using assms by (auto simp: valid_datetime_def days_in_month_def split: if_splits)

lemma isoformat_inj:
  assumes "valid_datetime a" "valid_datetime b" "isoformat a = isoformat b"
  shows "a = b"
proof -
  from assms(3) have p: "pad4 (year a) = pad4 (year b)" "pad2 (month a) = pad2 (month b)"
    "pad2 (day a) = pad2 (day b)" "pad2 (hour a) = pad2 (hour b)"
    "pad2 (minute a) = pad2 (minute b)" "pad2 (second a) = pad2 (second b)"
    by (simp_all add: isoformat_def format_datetime_def pad2_def pad4_def)
  note ba = valid_datetime_bounds[OF assms(1)] and bb = valid_datetime_bounds[OF assms(2)]
  have "year a = year b" using pad4_inj[OF ba(1) bb(1) p(1)] .
  moreover have "month a = month b" using pad2_inj[OF ba(2) bb(2) p(2)] .
  moreover have "day a = day b" using pad2_inj[OF ba(3) bb(3) p(3)] .
  moreover have "hour a = hour b" using pad2_inj[OF ba(4) bb(4) p(4)] .
  moreover have "minute a = minute b" using pad2_inj[OF ba(5) bb(5) p(5)] .
  moreover have "second a = second b" using pad2_inj[OF ba(6) bb(6) p(6)] .
  ultimately show ?thesis by simp
qed

lemma unique_id_inj:
  assumes "valid_datetime (start_time a)" "valid_datetime (start_time b)"
    and "unique_id a = unique_id b"
  shows "sheet_id a = sheet_id b \<and> start_time a = start_time b"
proof -
  have l: "length (''_'' @ isoformat (start_time a)) = length (''_'' @ isoformat (start_time b))"
    by (simp add: length_isoformat)
  from assms(3) have "sheet_id a @ (''_'' @ isoformat (start_time a))
                    = sheet_id b @ (''_'' @ isoformat (start_time b))"
    by (simp add: unique_id_def)
  with l have "sheet_id a = sheet_id b
             \<and> ''_'' @ isoformat (start_time a) = ''_'' @ isoformat (start_time b)"
    by (metis append_eq_append_conv)
  then have "sheet_id a = sheet_id b" "isoformat (start_time a) = isoformat (start_time b)"
    by simp_all
  with isoformat_inj[OF assms(1,2)] show ?thesis by simp
qed


subsection \<open>Detecting a change of content\<close>

lemma skip_when_hash_same:
  assumes "sql_select (synced_events st) (unique_id ev) = Some db_record"
    and "event_hash db_record = content_hash E ev"
    and "events_get E (length (calls st)) (calendar_event_id db_record) = Inr cal_event"
    and "status cal_event \<noteq> ''cancelled''"
  shows "sync_one E snap ev (c, st)
          = (c\<lparr>skipped := skipped c + 1\<rparr>,
             st\<lparr>calls := calls st @ [EventsGet (calendar_event_id db_record)]\<rparr>)"
  using assms by (simp add: sync_one_def record_phase_def cal_get_def)

lemma update_when_hash_differs:
  assumes "sql_select (synced_events st) (unique_id ev) = Some db_record"
    and "event_hash db_record \<noteq> content_hash E ev"
    and "events_get E (length (calls st)) (calendar_event_id db_record) = Inr cal_event"
    and "status cal_event \<noteq> ''cancelled''"
    and "to_google_event E ev = Inr body"
    and "events_update E (length (calls st) + 1) (calendar_event_id db_record) body = Inr u"
  shows "sync_one E snap ev (c, st)
              = (c\<lparr>updated := updated c + 1\<rparr>,
                 st\<lparr>calls := calls st @ [EventsGet (calendar_event_id db_record),
                        EventsUpdate (calendar_event_id db_record) body],
                    synced_events := sql_update (synced_events st) (unique_id ev)
                        (content_hash E ev) (name ev) (isoformat (start_time ev))
                        (isoformat (end_time ev))\<rparr>)"
  using assms by (simp add: sync_one_def record_phase_def cal_get_def update_attempt_def cal_update_def)

lemma content_hash_cong:
  assumes "lower (strip (name a)) = lower (strip (name b))"
    and "isoformat (start_time a) = isoformat (start_time b)"
    and "isoformat (end_time a) = isoformat (end_time b)"
  shows "content_hash E a = content_hash E b"
  using assms by (simp add: content_hash_def)

lemma content_hash_inj:
  assumes "inj (sha256_hex E)" "content_hash E a = content_hash E b"
    and "valid_datetime (end_time a)" "valid_datetime (end_time b)"
  shows "lower (strip (name a)) = lower (strip (name b))"
    "isoformat (start_time a) = isoformat (start_time b)" "end_time a = end_time b"
proof -
  let ?ta = "''|'' @ isoformat (start_time a) @ ''|'' @ isoformat (end_time a)"
  let ?tb = "''|'' @ isoformat (start_time b) @ ''|'' @ isoformat (end_time b)"
  from assms(1,2) have "lower (strip (name a)) @ ?ta = lower (strip (name b)) @ ?tb"
    by (simp add: content_hash_def inj_eq)
  moreover have "length ?ta = length ?tb" by (simp add: length_isoformat)
  ultimately have n: "lower (strip (name a)) = lower (strip (name b)) \<and> ?ta = ?tb"
    by (metis append_eq_append_conv)
  then show "lower (strip (name a)) = lower (strip (name b))" by simp
  from n have "isoformat (start_time a) @ (''|'' @ isoformat (end_time a))
             = isoformat (start_time b) @ (''|'' @ isoformat (end_time b))" by simp
  moreover have "length (isoformat (start_time a)) = length (isoformat (start_time b))"
    by (simp add: length_isoformat)
  ultimately have t: "isoformat (start_time a) = isoformat (start_time b)
      \<and> ''|'' @ isoformat (end_time a) = ''|'' @ isoformat (end_time b)"
    by (metis append_eq_append_conv)
  then show "isoformat (start_time a) = isoformat (start_time b)" by simp
  from t have "isoformat (end_time a) = isoformat (end_time b)" by simp
  with isoformat_inj[OF assms(3,4)] show "end_time a = end_time b" by simp
qed

lemma create_no_update_call:
  assumes "create_event_with_retry E ev st = (r, st')"
  shows "filter is_update_call (calls st') = filter is_update_call (calls st)"
  using assms unfolding create_event_with_retry_unfold
  by (auto simp: Let_def split: sum.splits)

lemma relink_or_create_no_update:
  assumes "relink_or_create E snap ev c st = (r, st')"
  shows "filter is_update_call (calls st') = filter is_update_call (calls st)"
    "r = Inr c2 \<Longrightarrow> updated c2 = updated c"
proof -
  obtain r1 s1 where cr: "create_event_with_retry E ev st = (r1, s1)" by force
  note n = create_no_update_call[OF cr]
  from assms cr n show "filter is_update_call (calls st') = filter is_update_call (calls st)"
    by (auto simp: relink_or_create_def split: sum.splits option.splits if_splits)
  from assms cr show "r = Inr c2 \<Longrightarrow> updated c2 = updated c"
    by (auto simp: relink_or_create_def split: sum.splits option.splits if_splits)
qed

lemma sync_one_no_record:
  assumes "sql_select (synced_events st) (unique_id ev) = None"
  shows "sync_one E snap ev (c, st) =
           (case relink_or_create E snap ev c st of
              (Inr c2, st2) \<Rightarrow> (c2, st2)
            | (Inl error_msg, st2) \<Rightarrow> record_failure ev error_msg c st2)"
    "updated (fst (sync_one E snap ev (c, st))) = updated c"
    "filter is_update_call (calls (snd (sync_one E snap ev (c, st))))
       = filter is_update_call (calls st)"
proof -
  obtain r2 st2 where b: "relink_or_create E snap ev c st = (r2, st2)" by force
  show s: "sync_one E snap ev (c, st) =
           (case relink_or_create E snap ev c st of
              (Inr c2, st2) \<Rightarrow> (c2, st2)
            | (Inl error_msg, st2) \<Rightarrow> record_failure ev error_msg c st2)"
    using assms by (simp add: sync_one_def record_phase_def)
  from relink_or_create_no_update[OF b] b
  show "updated (fst (sync_one E snap ev (c, st))) = updated c"
    "filter is_update_call (calls (snd (sync_one E snap ev (c, st))))
       = filter is_update_call (calls st)"
    unfolding s by (auto simp: record_failure_def split: sum.splits)
qed

text \<open>
  C5. The content hash is a function of the lowered, stripped name and of the two ISO
  strings. For an event whose record holds its hash and whose entry is fetched and not
  cancelled: a new description, event type, colour or row number gives a skip and no
  update call. With a hash function without collisions, a change that keeps the sheet
  id and the start time and changes the end time or the lowered, stripped name gives,
  when the payload is built and the update call succeeds, one update and nothing else.
  A new start time gives another unique id; when no record is stored under it, the
  event goes to the link-or-create step: the update counter stays and no update call is
  made.
\<close>

theorem content_change_detection:
  assumes "sql_select (synced_events st) (unique_id old) = Some db_record"
    and "event_hash db_record = content_hash E old"
    and "events_get E (length (calls st)) (calendar_event_id db_record) = Inr cal_event"
    and "status cal_event \<noteq> ''cancelled''"
  shows "(lower (strip (name a)) = lower (strip (name b))
            \<and> isoformat (start_time a) = isoformat (start_time b)
            \<and> isoformat (end_time a) = isoformat (end_time b)
          \<longrightarrow> content_hash E a = content_hash E b)
       \<and> sync_one E snap (old\<lparr>description := d, event_type := t, color := cl, row_number := n\<rparr>)
            (c, st)
          = (c\<lparr>skipped := skipped c + 1\<rparr>,
             st\<lparr>calls := calls st @ [EventsGet (calendar_event_id db_record)]\<rparr>)
       \<and> (inj (sha256_hex E)
            \<and> sheet_id new = sheet_id old \<and> start_time new = start_time old
            \<and> valid_datetime (end_time new) \<and> valid_datetime (end_time old)
            \<and> (end_time new \<noteq> end_time old
                 \<or> lower (strip (name new)) \<noteq> lower (strip (name old)))
            \<and> to_google_event E new = Inr body
            \<and> events_update E (length (calls st) + 1) (calendar_event_id db_record) body
                 = Inr ()
          \<longrightarrow> sync_one E snap new (c, st)
              = (c\<lparr>updated := updated c + 1\<rparr>,
                 st\<lparr>calls := calls st @ [EventsGet (calendar_event_id db_record),
                        EventsUpdate (calendar_event_id db_record) body],
                    synced_events := sql_update (synced_events st) (unique_id old)
                        (content_hash E new) (name new) (isoformat (start_time new))
                        (isoformat (end_time new))\<rparr>))
       \<and> (sheet_id moved = sheet_id old \<and> valid_datetime (start_time moved)
            \<and> valid_datetime (start_time old) \<and> start_time moved \<noteq> start_time old
          \<longrightarrow> unique_id moved \<noteq> unique_id old
              \<and> (sql_select (synced_events st) (unique_id moved) = None
                  \<longrightarrow> sync_one E snap moved (c, st) =
                        (case relink_or_create E snap moved c st of
                           (Inr c2, st2) \<Rightarrow> (c2, st2)
                         | (Inl error_msg, st2) \<Rightarrow> record_failure moved error_msg c st2)
                      \<and> updated (fst (sync_one E snap moved (c, st))) = updated c
                      \<and> filter is_update_call (calls (snd (sync_one E snap moved (c, st))))
                          = filter is_update_call (calls st)))"
proof (intro conjI impI)
  assume "lower (strip (name a)) = lower (strip (name b))
            \<and> isoformat (start_time a) = isoformat (start_time b)
            \<and> isoformat (end_time a) = isoformat (end_time b)"
  then show "content_hash E a = content_hash E b" by (intro content_hash_cong) simp_all
next
  let ?e = "old\<lparr>description := d, event_type := t, color := cl, row_number := n\<rparr>"
  have u: "unique_id ?e = unique_id old" "content_hash E ?e = content_hash E old"
    by (simp_all add: unique_id_def content_hash_def)
  show "sync_one E snap ?e (c, st)
          = (c\<lparr>skipped := skipped c + 1\<rparr>,
             st\<lparr>calls := calls st @ [EventsGet (calendar_event_id db_record)]\<rparr>)"
  proof (rule skip_when_hash_same)
    show "sql_select (synced_events st) (unique_id ?e) = Some db_record"
      using assms(1) by (simp only: u)
    show "event_hash db_record = content_hash E ?e"
      using assms(2) by (simp only: u)
  qed (rule assms(3), rule assms(4))
next
  assume h: "inj (sha256_hex E)
            \<and> sheet_id new = sheet_id old \<and> start_time new = start_time old
            \<and> valid_datetime (end_time new) \<and> valid_datetime (end_time old)
            \<and> (end_time new \<noteq> end_time old
                 \<or> lower (strip (name new)) \<noteq> lower (strip (name old)))
            \<and> to_google_event E new = Inr body
            \<and> events_update E (length (calls st) + 1) (calendar_event_id db_record) body
                 = Inr ()"
  then have u: "unique_id old = unique_id new" by (simp add: unique_id_def)
  from h have i: "inj (sha256_hex E)" and v: "valid_datetime (end_time new)"
    "valid_datetime (end_time old)"
    and d: "end_time new \<noteq> end_time old \<or> lower (strip (name new)) \<noteq> lower (strip (name old))"
    and p: "to_google_event E new = Inr body"
    and up: "events_update E (length (calls st) + 1) (calendar_event_id db_record) body = Inr ()"
    by blast+
  have "content_hash E new \<noteq> content_hash E old"
    using content_hash_inj(1,3)[OF i _ v] d by blast
  with assms(2) have ne: "event_hash db_record \<noteq> content_hash E new" by auto
  show "sync_one E snap new (c, st)
              = (c\<lparr>updated := updated c + 1\<rparr>,
                 st\<lparr>calls := calls st @ [EventsGet (calendar_event_id db_record),
                        EventsUpdate (calendar_event_id db_record) body],
                    synced_events := sql_update (synced_events st) (unique_id old)
                        (content_hash E new) (name new) (isoformat (start_time new))
                        (isoformat (end_time new))\<rparr>)"
    unfolding u
    by (rule update_when_hash_differs[OF assms(1)[unfolded u] ne assms(3,4) p up])
next
  assume h: "sheet_id moved = sheet_id old \<and> valid_datetime (start_time moved)
            \<and> valid_datetime (start_time old) \<and> start_time moved \<noteq> start_time old"
  then show "unique_id moved \<noteq> unique_id old"
    using unique_id_inj[of moved old] by blast
next
  assume n: "sql_select (synced_events st) (unique_id moved) = None"
  show "sync_one E snap moved (c, st) =
          (case relink_or_create E snap moved c st of
             (Inr c2, st2) \<Rightarrow> (c2, st2)
           | (Inl error_msg, st2) \<Rightarrow> record_failure moved error_msg c st2)"
    by (rule sync_one_no_record(1)[OF n])
  show "updated (fst (sync_one E snap moved (c, st))) = updated c"
    by (rule sync_one_no_record(2)[OF n])
  show "filter is_update_call (calls (snd (sync_one E snap moved (c, st))))
          = filter is_update_call (calls st)"
    by (rule sync_one_no_record(3)[OF n])
qed

lemma linked_state_facts:
  "sql_select (synced_events linked_state) (unique_id standup) = Some (standup_row ''evt1'')"
  "event_hash (standup_row ''evt1'') = content_hash (ex_env sheet_standup) standup"
  "events_get (ex_env sheet_standup) (length (calls linked_state))
     (calendar_event_id (standup_row ''evt1'')) = Inr (live_entry ''evt1'')"
  "status (live_entry ''evt1'') \<noteq> ''cancelled''"
  by (simp_all add: linked_state_def empty_state_def sql_select_def ex_standup_strings
      ex_env_simps live_entry_def standup_row_def)

theorem content_change_detection_witness:
  "sql_select (synced_events linked_state) (unique_id standup) = Some (standup_row ''evt1'')
   \<and> event_hash (standup_row ''evt1'') = content_hash (ex_env sheet_standup) standup
   \<and> events_get (ex_env sheet_standup) (length (calls linked_state))
        (calendar_event_id (standup_row ''evt1'')) = Inr (live_entry ''evt1'')
   \<and> status (live_entry ''evt1'') \<noteq> ''cancelled''
   \<and> inj (sha256_hex (ex_env sheet_standup))
   \<and> end_time (standup\<lparr>end_time := t0930\<rparr>) \<noteq> end_time standup
   \<and> valid_datetime t0930 \<and> valid_datetime (end_time standup)
   \<and> start_time (standup\<lparr>start_time := t0905\<rparr>) \<noteq> start_time standup
   \<and> valid_datetime t0905 \<and> valid_datetime (start_time standup)
   \<and> sql_select (synced_events linked_state) (unique_id (standup\<lparr>start_time := t0905\<rparr>)) = None
   \<and> fst (sync_one (ex_env sheet_standup) Map.empty
             (standup\<lparr>description := ''Daily sync'', event_type := ''DEFAULT'', color := [],
                       row_number := 2\<rparr>) (zero_counters, linked_state))
       = zero_counters\<lparr>skipped := 1\<rparr>
   \<and> fst (sync_one (ex_env sheet_standup) Map.empty (standup\<lparr>end_time := t0930\<rparr>)
             (zero_counters, linked_state))
       = zero_counters\<lparr>updated := 1\<rparr>
   \<and> updated (fst (sync_one (ex_env sheet_standup) Map.empty (standup\<lparr>start_time := t0905\<rparr>)
             (zero_counters, linked_state))) = 0"
proof -
  note t = content_change_detection[OF linked_state_facts, where snap = Map.empty
      and c = zero_counters and new = "standup\<lparr>end_time := t0930\<rparr>"
      and moved = "standup\<lparr>start_time := t0905\<rparr>"
      and body = "standup_payload\<lparr>end_dateTime := ''2025-03-01T09:30:00''\<rparr>"
      and d = "''Daily sync''" and t = "''DEFAULT''" and cl = "[]" and n = 2]
  have i: "inj (sha256_hex (ex_env sheet_standup))" by (simp add: ex_env_simps)
  have e: "end_time (standup\<lparr>end_time := t0930\<rparr>) \<noteq> end_time standup"
    by (simp add: standup_def t0930_def t0915_def)
  have v: "valid_datetime t0930" "valid_datetime (end_time standup)"
    "valid_datetime t0905" "valid_datetime (start_time standup)"
    by (simp_all add: standup_def valid_datetime_def days_in_month_def t0930_def t0915_def
        t0905_def t0900_def)
  have m: "start_time (standup\<lparr>start_time := t0905\<rparr>) \<noteq> start_time standup"
    by (simp add: standup_def t0905_def t0900_def)
  have b: "to_google_event (ex_env sheet_standup) (standup\<lparr>end_time := t0930\<rparr>)
             = Inr (standup_payload\<lparr>end_dateTime := ''2025-03-01T09:30:00''\<rparr>)"
    by (simp add: event_defs ex_run_defs ex_defs t0930_def)
  have p: "inj (sha256_hex (ex_env sheet_standup))
      \<and> sheet_id (standup\<lparr>end_time := t0930\<rparr>) = sheet_id standup
      \<and> start_time (standup\<lparr>end_time := t0930\<rparr>) = start_time standup
      \<and> valid_datetime (end_time (standup\<lparr>end_time := t0930\<rparr>))
      \<and> valid_datetime (end_time standup)
      \<and> (end_time (standup\<lparr>end_time := t0930\<rparr>) \<noteq> end_time standup
           \<or> lower (strip (name (standup\<lparr>end_time := t0930\<rparr>))) \<noteq> lower (strip (name standup)))
      \<and> to_google_event (ex_env sheet_standup) (standup\<lparr>end_time := t0930\<rparr>)
           = Inr (standup_payload\<lparr>end_dateTime := ''2025-03-01T09:30:00''\<rparr>)
      \<and> events_update (ex_env sheet_standup) (length (calls linked_state) + 1)
           (calendar_event_id (standup_row ''evt1''))
           (standup_payload\<lparr>end_dateTime := ''2025-03-01T09:30:00''\<rparr>) = Inr ()"
    using i e v(1,2) b by (simp add: ex_env_simps)
  have q: "sheet_id (standup\<lparr>start_time := t0905\<rparr>) = sheet_id standup
      \<and> valid_datetime (start_time (standup\<lparr>start_time := t0905\<rparr>))
      \<and> valid_datetime (start_time standup)
      \<and> start_time (standup\<lparr>start_time := t0905\<rparr>) \<noteq> start_time standup"
    using m v(3,4) by simp
  have r: "sql_select (synced_events linked_state) (unique_id (standup\<lparr>start_time := t0905\<rparr>))
             = None"
    by (simp add: linked_state_def empty_state_def sql_select_def standup_row_def unique_id_def
        standup_def t0905_def isoformat_def format_datetime_def pad2_def pad4_def digit_def)
  note s1 = t[THEN conjunct2, THEN conjunct1]
  note s2 = t[THEN conjunct2, THEN conjunct2, THEN conjunct1, THEN mp, OF p]
  note s3 = t[THEN conjunct2, THEN conjunct2, THEN conjunct2, THEN mp, OF q, THEN conjunct2,
      THEN mp, OF r, THEN conjunct2, THEN conjunct1]
  have "fst (sync_one (ex_env sheet_standup) Map.empty
             (standup\<lparr>description := ''Daily sync'', event_type := ''DEFAULT'', color := [],
                       row_number := 2\<rparr>) (zero_counters, linked_state))
       = zero_counters\<lparr>skipped := 1\<rparr>"
    "fst (sync_one (ex_env sheet_standup) Map.empty (standup\<lparr>end_time := t0930\<rparr>)
             (zero_counters, linked_state))
       = zero_counters\<lparr>updated := 1\<rparr>"
    unfolding s1 s2 fst_conv by (simp_all add: zero_counters_def)
  moreover have "updated (fst (sync_one (ex_env sheet_standup) Map.empty
      (standup\<lparr>start_time := t0905\<rparr>) (zero_counters, linked_state))) = 0"
    unfolding s3 by (simp add: zero_counters_def)
  ultimately show ?thesis using linked_state_facts i e v m r by blast
qed

text \<open>
  The same record, and the event read again with a start time of 9:05 instead of 9:00:
  no record is found under the new unique id and the event is created, not updated.
  Read again with the name in capitals and a trailing blank, it is skipped.
\<close>

theorem start_time_change_counterexample:
  "sql_select (synced_events linked_state) (unique_id standup) = Some (standup_row ''evt1'')
   \<and> event_hash (standup_row ''evt1'') = content_hash (ex_env sheet_standup) standup
   \<and> fst (sync_one (ex_env sheet_standup) Map.empty (standup\<lparr>start_time := t0905\<rparr>)
             (zero_counters, linked_state))
       = zero_counters\<lparr>created := 1\<rparr>
   \<and> fst (sync_one (ex_env sheet_standup) Map.empty (standup\<lparr>name := ''STANDUP ''\<rparr>)
             (zero_counters, linked_state))
       = zero_counters\<lparr>skipped := 1\<rparr>"
proof -
  have a: "fst (sync_one (ex_env sheet_standup) Map.empty (standup\<lparr>start_time := t0905\<rparr>)
             (zero_counters, linked_state))
       = zero_counters\<lparr>created := 1\<rparr>"
    by (simp add: sync_one_def record_phase_def relink_or_create_def
      create_event_with_retry_unfold cal_get_def sql_select_def sql_insert_def
      new_row_def unique_id_def content_hash_def content_key_def event_defs
      ex_env_simps empty_state_def linked_state_def zero_counters_def ex_run_defs ex_defs
      t0905_def BATCH_SIZE_def)
  have b: "fst (sync_one (ex_env sheet_standup) Map.empty (standup\<lparr>name := ''STANDUP ''\<rparr>)
             (zero_counters, linked_state))
       = zero_counters\<lparr>skipped := 1\<rparr>"
    by (simp add: sync_one_def record_phase_def cal_get_def sql_select_def
      unique_id_def content_hash_def event_defs
      ex_env_simps empty_state_def linked_state_def zero_counters_def ex_run_defs ex_defs)
  from a b linked_state_facts(1,2) show ?thesis by blast
qed

subsection \<open>The uniqueness invariants along a run\<close>

lemma record_phase_unique:
  assumes "unique_rows (synced_events st)" "record_phase E ev c st = (r, st1)"
  shows "unique_rows (synced_events st1)"
  using assms unique_rows_delete(1)[OF assms(1)] unique_rows_update[OF assms(1)]
  unfolding record_phase_def cal_get_def update_attempt_def cal_update_def delete_stale_def
  by (auto split: option.splits sum.splits if_splits)

lemma relink_or_create_unique:
  assumes "unique_rows (synced_events st)" "relink_or_create E snap ev c st = (r, st1)"
  shows "unique_rows (synced_events st1)"
proof (cases "snap (content_key ev)")
  case (Some existing)
  with assms unique_rows_insert_or_replace[OF assms(1)] show ?thesis
    by (auto simp: relink_or_create_def)
next
  case None
  obtain r1 s1 where cr: "create_event_with_retry E ev st = (r1, s1)" by force
  have u: "unique_rows (synced_events s1)" using retry_frame(1)[OF cr] assms(1) by simp
  from assms(2) None cr u unique_rows_insert[OF u] show ?thesis
    by (auto simp: relink_or_create_def split: sum.splits option.splits if_splits)
qed

lemma sync_one_unique:
  assumes "unique_rows (synced_events st)" "sync_one E snap ev (c, st) = (c', st')"
  shows "unique_rows (synced_events st')"
proof -
  obtain r1 st1 where a: "record_phase E ev c st = (r1, st1)" by force
  obtain r2 st2 where b: "relink_or_create E snap ev c st1 = (r2, st2)" by force
  note u1 = record_phase_unique[OF assms(1) a]
  note u2 = relink_or_create_unique[OF u1 b]
  from assms(2) a b u1 u2 show ?thesis
    by (auto simp: sync_one_def record_failure_def split: option.splits sum.splits)
qed

lemma sync_loop_unique:
  assumes "unique_rows (synced_events st)" "sync_loop E snap evs (c, st) = (c', st')"
  shows "unique_rows (synced_events st')"
  using assms
proof (induction evs arbitrary: c st)
  case Nil
  then show ?case by (simp add: sync_loop_def)
next
  case (Cons ev evs)
  obtain c1 st1 where a: "sync_one E snap ev (c, st) = (c1, st1)" by force
  with Cons.prems have "sync_loop E snap evs (c1, st1) = (c', st')"
    by (simp add: sync_loop_def)
  from Cons.IH[OF sync_one_unique[OF Cons.prems(1) a] this] show ?case .
qed

lemma sync_events_unique:
  assumes "unique_rows (synced_events st)" "sync_events E source st = Inr (resp, st')"
  shows "unique_rows (synced_events st')"
  using assms(2)
proof (cases rule: sync_events_Inr_cases)
  case (empty bad dup)
  with read_sheet_events_frame(1)[OF empty(1)] assms(1) show ?thesis by simp
next
  case (run evs bad dup st0 tmin tmax snap st1 c st2)
  have "unique_rows (synced_events st1)"
    using assms(1) read_sheet_events_frame(1)[OF run(1)] snapshot_frame(1)[OF run(4)] by simp
  from sync_loop_unique[OF this run(5)] run(7) show ?thesis by simp
qed

subsection \<open>The counters along a run\<close>

lemma sync_one_counts:
  assumes "sync_one E snap ev (c, st) = (c', st')"
  shows "errors c \<le> errors c'" "settled c \<le> settled c'"
    "settled c' + errors c' \<le> settled c + errors c + 1"
proof -
  obtain r1 st1 where a: "record_phase E ev c st = (r1, st1)" by force
  obtain r2 st2 where b: "relink_or_create E snap ev c st1 = (r2, st2)" by force
  have e1: "r1 = Some c1 \<Longrightarrow> errors c1 = errors c \<and> settled c1 = settled c + 1" for c1
    using a unfolding record_phase_def cal_get_def update_attempt_def cal_update_def settled_def
    by (auto split: option.splits sum.splits if_splits)
  have e2: "r2 = Inr c2 \<Longrightarrow> errors c2 = errors c
      \<and> (settled c2 = settled c \<or> settled c2 = settled c + 1)" for c2
    using b unfolding relink_or_create_def settled_def
    by (auto split: option.splits sum.splits if_splits prod.splits)
  from assms a b e1 e2
  show "errors c \<le> errors c'" "settled c \<le> settled c'"
    "settled c' + errors c' \<le> settled c + errors c + 1"
    by (auto simp: sync_one_def record_failure_def settled_def split: sum.splits option.splits)
qed

lemma sync_loop_counts:
  assumes "sync_loop E snap evs (c, st) = (c', st')"
  shows "errors c \<le> errors c' \<and> settled c \<le> settled c'
       \<and> settled c' + errors c' \<le> settled c + errors c + length evs"
  using assms
proof (induction evs arbitrary: c st)
  case Nil
  then show ?case by (simp add: sync_loop_def)
next
  case (Cons ev evs)
  obtain c1 st1 where a: "sync_one E snap ev (c, st) = (c1, st1)" by force
  with Cons.prems have "sync_loop E snap evs (c1, st1) = (c', st')"
    by (simp add: sync_loop_def)
  from Cons.IH[OF this] sync_one_counts[OF a] show ?case by simp
qed

subsection \<open>The records of the other events\<close>

lemma record_phase_select_other:
  assumes "record_phase E ev c st = (r, st1)" "uid \<noteq> unique_id ev"
  shows "sql_select (synced_events st1) uid = sql_select (synced_events st) uid"
  using assms unfolding record_phase_def cal_get_def update_attempt_def cal_update_def delete_stale_def
  by (auto simp: sql_select_delete sql_select_update split: option.splits sum.splits if_splits)

lemma sql_select_insert_other:
  assumes "sql_insert rows r = Inr rows'" "uid \<noteq> unique_event_id r"
  shows "sql_select rows' uid = sql_select rows uid"
  using assms by (auto simp: sql_insert_def sql_select_append split: if_splits option.splits)

lemma create_select_other:
  assumes "relink_or_create E snap ev c st = (r, st1)" "snap (content_key ev) = None"
    and "uid \<noteq> unique_id ev"
  shows "sql_select (synced_events st1) uid = sql_select (synced_events st) uid"
proof -
  obtain r1 s1 where cr: "create_event_with_retry E ev st = (r1, s1)" by force
  have n: "uid \<noteq> unique_event_id (new_row E ev cid)" for cid
    using assms(3) by (simp add: new_row_def)
  from assms(1,2) cr retry_frame(1)[OF cr] sql_select_insert_other[OF _ n] show ?thesis
    by (auto simp: relink_or_create_def split: sum.splits option.splits if_splits)
qed

lemma sync_one_select_other:
  assumes "sync_one E snap ev (c, st) = (c', st')" "snap (content_key ev) = None"
    and "uid \<noteq> unique_id ev"
  shows "sql_select (synced_events st') uid = sql_select (synced_events st) uid"
proof -
  obtain r1 st1 where a: "record_phase E ev c st = (r1, st1)" by force
  obtain r2 st2 where b: "relink_or_create E snap ev c st1 = (r2, st2)" by force
  note s1 = record_phase_select_other[OF a assms(3)]
  note s2 = create_select_other[OF b assms(2,3)]
  from assms(1) a b s1 s2 show ?thesis
    by (auto simp: sync_one_def record_failure_def split: option.splits sum.splits)
qed

subsection \<open>The record of the event itself\<close>

lemma record_phase_links:
  assumes "record_phase E ev c st = (Some c1, st1)"
  shows "linked E (synced_events st1) ev"
  using assms unfolding record_phase_def cal_get_def update_attempt_def cal_update_def delete_stale_def linked_def
  by (auto simp: sql_select_update split: option.splits sum.splits if_splits)

lemma record_phase_None_select:
  assumes "record_phase E ev c st = (None, st1)"
  shows "sql_select (synced_events st1) (unique_id ev) = None
       \<or> synced_events st1 = synced_events st"
  using assms unfolding record_phase_def cal_get_def update_attempt_def cal_update_def delete_stale_def
  by (auto simp: sql_select_delete split: option.splits sum.splits if_splits)

lemma relink_or_create_links:
  assumes "relink_or_create E snap ev c st = (Inr c2, st2)" "settled c2 = settled c + 1"
  shows "linked E (synced_events st2) ev"
proof (cases "snap (content_key ev)")
  case (Some existing)
  have "unique_event_id (new_row E ev (entry_id existing)) = unique_id ev"
    "event_hash (new_row E ev (entry_id existing)) = content_hash E ev"
    by (simp_all add: new_row_def)
  with assms(1) Some
    sql_select_insert_or_replace_same[of "synced_events st" "new_row E ev (entry_id existing)"]
  show ?thesis
    by (auto simp: relink_or_create_def linked_def)
next
  case None
  obtain r1 s1 where cr: "create_event_with_retry E ev st = (r1, s1)" by force
  have k: "sql_select rows' (unique_id ev) = Some (new_row E ev cid)"
    if i: "sql_insert rows (new_row E ev cid) = Inr rows'" for rows rows' cid
  proof -
    from i have m: "unique_id ev \<notin> set (map unique_event_id rows)" "rows' = rows @ [new_row E ev cid]"
      by (auto simp: sql_insert_def new_row_def split: if_splits)
    from m(1) have "sql_select rows (unique_id ev) = None" by (simp add: sql_select_None)
    with m(2) show ?thesis by (simp add: sql_select_append new_row_def)
  qed
  have h: "event_hash (new_row E ev cid) = content_hash E ev" for cid
    by (simp add: new_row_def)
  from assms None cr k h show ?thesis
    by (auto simp: relink_or_create_def linked_def settled_def
        split: sum.splits option.splits if_splits)
qed

lemma sync_one_links_self:
  assumes "sync_one E snap ev (c, st) = (c', st')"
    and "errors c' = errors c" "settled c' = settled c + 1"
  shows "linked E (synced_events st') ev"
proof -
  obtain r1 st1 where a: "record_phase E ev c st = (r1, st1)" by force
  obtain r2 st2 where b: "relink_or_create E snap ev c st1 = (r2, st2)" by force
  show ?thesis
  proof (cases r1)
    case (Some c1)
    with assms(1) a record_phase_links[OF a[unfolded Some]] show ?thesis
      by (simp add: sync_one_def)
  next
    case None
    show ?thesis
    proof (cases r2)
      case (Inl msg)
      with assms(1) a b None have "errors c' = errors c + 1"
        by (auto simp: sync_one_def record_failure_def)
      with assms(2) show ?thesis by simp
    next
      case (Inr c2)
      with assms(1) a b None have e: "c' = c2" "st' = st2" by (simp_all add: sync_one_def)
      from relink_or_create_links[OF b[unfolded Inr]] assms(3) e show ?thesis by simp
    qed
  qed
qed

subsection \<open>Two runs in a row\<close>

lemma linked_cong:
  assumes "sql_select rows' (unique_id e) = sql_select rows (unique_id e)"
  shows "linked E rows' e = linked E rows e"
  using assms by (simp add: linked_def)

lemma first_run_links:
  assumes "sync_loop E snap evs (c, st) = (c', st')"
    and "errors c' = errors c" "settled c' = settled c + length evs"
    and "distinct (map unique_id evs)"
    and "\<forall>e\<in>set evs. snap (content_key e) = None"
  shows "\<forall>e. e \<in> set evs \<or> (linked E (synced_events st) e \<and> unique_id e \<notin> unique_id ` set evs)
           \<longrightarrow> linked E (synced_events st') e"
  using assms
proof (induction evs arbitrary: c st)
  case Nil
  then show ?case by (simp add: sync_loop_def)
next
  case (Cons ev evs)
  obtain c1 st1 where a: "sync_one E snap ev (c, st) = (c1, st1)" by force
  with Cons.prems(1) have rest: "sync_loop E snap evs (c1, st1) = (c', st')"
    by (simp add: sync_loop_def)
  note k1 = sync_one_counts[OF a] and k2 = sync_loop_counts[OF rest]
  from k1 k2 Cons.prems(2,3) have e1: "errors c1 = errors c" "settled c1 = settled c + 1"
    by simp_all
  with Cons.prems(2,3) have e2: "errors c' = errors c1" "settled c' = settled c1 + length evs"
    by simp_all
  from Cons.prems(4) have d: "distinct (map unique_id evs)" "unique_id ev \<notin> unique_id ` set evs"
    by simp_all
  from Cons.prems(5) have n: "\<forall>e\<in>set evs. snap (content_key e) = None"
    "snap (content_key ev) = None" by simp_all
  note IH = Cons.IH[OF rest e2 d(1) n(1)]
  have self: "linked E (synced_events st1) ev" using sync_one_links_self[OF a e1] .
  show ?case
  proof (intro allI impI)
    fix e
    assume h: "e \<in> set (ev # evs)
      \<or> (linked E (synced_events st) e \<and> unique_id e \<notin> unique_id ` set (ev # evs))"
    show "linked E (synced_events st') e"
    proof (cases "e \<in> set evs")
      case True
      with IH show ?thesis by blast
    next
      case False
      show ?thesis
      proof (cases "e = ev")
        case True
        with self d(2) IH show ?thesis by blast
      next
        case ne: False
        with h False have l: "linked E (synced_events st) e" "unique_id e \<noteq> unique_id ev"
          "unique_id e \<notin> unique_id ` set evs" by auto
        from sync_one_select_other[OF a n(2) l(2)] l(1)
        have "linked E (synced_events st1) e" by (simp add: linked_def)
        with l(3) IH show ?thesis by blast
      qed
    qed
  qed
qed

lemma second_run_skips:
  assumes "\<forall>e\<in>set evs. linked E (synced_events st) e"
    and "\<forall>k cid. length (calls st) \<le> k
           \<longrightarrow> (\<exists>g. events_get E k cid = Inr g \<and> status g \<noteq> ''cancelled'')"
  shows "\<exists>st'. sync_loop E snap evs (c, st) = (c\<lparr>skipped := skipped c + length evs\<rparr>, st')
           \<and> synced_events st' = synced_events st"
  using assms
proof (induction evs arbitrary: c st)
  case Nil
  then show ?case by (simp add: sync_loop_def)
next
  case (Cons ev evs)
  from Cons.prems(1) obtain r where r: "sql_select (synced_events st) (unique_id ev) = Some r"
    "event_hash r = content_hash E ev"
    by (auto simp: linked_def split: option.splits)
  from Cons.prems(2) obtain g where g: "events_get E (length (calls st)) (calendar_event_id r) = Inr g"
    "status g \<noteq> ''cancelled''" by blast
  let ?st1 = "st\<lparr>calls := calls st @ [EventsGet (calendar_event_id r)]\<rparr>"
  let ?c1 = "c\<lparr>skipped := skipped c + 1\<rparr>"
  have a: "sync_one E snap ev (c, st) = (?c1, ?st1)"
    by (rule skip_when_hash_same[OF r g])
  have p1: "\<forall>e\<in>set evs. linked E (synced_events ?st1) e" using Cons.prems(1) by simp
  have p2: "\<forall>k cid. length (calls ?st1) \<le> k
           \<longrightarrow> (\<exists>g. events_get E k cid = Inr g \<and> status g \<noteq> ''cancelled'')"
    using Cons.prems(2) by simp
  from Cons.IH[OF p1 p2, of ?c1] obtain st' where
    s: "sync_loop E snap evs (?c1, ?st1) = (?c1\<lparr>skipped := skipped ?c1 + length evs\<rparr>, st')"
      "synced_events st' = synced_events ?st1" by blast
  have "sync_loop E snap (ev # evs) (c, st) = sync_loop E snap evs (?c1, ?st1)"
    by (simp add: sync_loop_def a)
  with s show ?case by simp
qed

lemma snapshot_same_calls:
  assumes "calls st0 = calls st"
  shows "fst (get_existing_calendar_events E a b st0) = fst (get_existing_calendar_events E a b st)"
  using assms by (simp add: get_existing_calendar_events_def cal_list_def split: sum.splits)

text \<open>
  C2. A first run that completes, and a second run on the same sheet. When the first
  run leaves, for every event, a record under its unique id that holds its hash, and
  every \<^verbatim>\<open>get\<close> of a linked entry in the second run succeeds with an entry that is not
  cancelled, the second run creates and updates nothing, skips every event and leaves
  the records as they are. The first run leaves such records when the unique ids are
  pairwise distinct, it linked no event to an entry of its snapshot, ended without
  error and counted every event as created, updated or skipped.
\<close>

theorem second_run_skips_all:
  assumes "read_sheet_events E st = ((evs, bad, dup), st0)"
    and "sync_events E source st = Inr (Completed r1, st1)"
  shows "((\<forall>e\<in>set evs. linked E (synced_events st1) e)
          \<and> (\<forall>k cid. length (calls st1) \<le> k
                \<longrightarrow> (\<exists>g. events_get E k cid = Inr g \<and> status g \<noteq> ''cancelled''))
          \<longrightarrow> (\<exists>r2 st2. sync_events E source st1 = Inr (Completed r2, st2)
                 \<and> rr_created r2 = 0 \<and> rr_updated r2 = 0 \<and> rr_skipped r2 = length evs
                 \<and> rr_errors r2 = 0 \<and> rr_total_processed r2 = length evs
                 \<and> synced_events st2 = synced_events st1))
       \<and> (distinct (map unique_id evs)
          \<and> (\<forall>e\<in>set evs. snapshot_of E st evs (content_key e) = None)
          \<and> rr_errors r1 = 0
          \<and> rr_created r1 + rr_updated r1 + rr_skipped r1 = rr_total_processed r1
          \<longrightarrow> (\<forall>e\<in>set evs. linked E (synced_events st1) e))"
  using assms(2)
proof (cases rule: sync_events_Inr_cases)
  case (empty bad' dup')
  then show ?thesis by simp
next
  case (run evs' bad' dup' st0' tmin tmax snap sa c sb)
  from run(1) assms(1) have eq: "evs' = evs" "bad' = bad" "dup' = dup" "st0' = st0" by simp_all
  note run = run[unfolded eq]
  from run(7) have s1: "synced_events st1 = synced_events sb" "calls st1 = calls sb" by simp_all
  show ?thesis
  proof (intro conjI impI)
    assume h: "(\<forall>e\<in>set evs. linked E (synced_events st1) e)
          \<and> (\<forall>k cid. length (calls st1) \<le> k
                \<longrightarrow> (\<exists>g. events_get E k cid = Inr g \<and> status g \<noteq> ''cancelled''))"
    obtain st0b where rd2: "read_sheet_events E st1 = ((evs, bad, dup), st0b)"
      using read_sheet_events_reading[of E st1 st] assms(1)
      by (metis fst_conv prod.collapse)
    note f2 = read_sheet_events_frame[OF rd2]
    obtain snap2 st1b where sn2: "get_existing_calendar_events E tmin tmax st0b = (snap2, st1b)"
      by force
    note g2 = snapshot_frame[OF sn2]
    have l2: "\<forall>e\<in>set evs. linked E (synced_events st1b) e"
      using h f2(1) g2(1) by simp
    have live: "\<forall>k cid. length (calls st1b) \<le> k
             \<longrightarrow> (\<exists>g. events_get E k cid = Inr g \<and> status g \<noteq> ''cancelled'')"
      using h f2(4) g2(7) by simp
    from second_run_skips[OF l2 live, of snap2 zero_counters] obtain st2 where
      lp: "sync_loop E snap2 evs (zero_counters, st1b)
             = (zero_counters\<lparr>skipped := skipped zero_counters + length evs\<rparr>, st2)"
         "synced_events st2 = synced_events st1b" by blast
    from sync_events_run[OF rd2 run(2) run(3) sn2 lp(1), of source] lp(2) g2(1) f2(1)
    show "\<exists>r2 st2. sync_events E source st1 = Inr (Completed r2, st2)
                 \<and> rr_created r2 = 0 \<and> rr_updated r2 = 0 \<and> rr_skipped r2 = length evs
                 \<and> rr_errors r2 = 0 \<and> rr_total_processed r2 = length evs
                 \<and> synced_events st2 = synced_events st1"
      by (simp add: run_response_def zero_counters_def)
  next
    assume h: "distinct (map unique_id evs)
          \<and> (\<forall>e\<in>set evs. snapshot_of E st evs (content_key e) = None)
          \<and> rr_errors r1 = 0
          \<and> rr_created r1 + rr_updated r1 + rr_skipped r1 = rr_total_processed r1"
    from run(6) h have c: "errors c = 0" "settled c = length evs"
      by (simp_all add: run_response_def settled_def)
    have snap: "snap = snapshot_of E st evs"
      using run(3,4) snapshot_same_calls[OF read_sheet_events_frame(4)[OF assms(1)], of E tmin tmax]
      by (simp add: snapshot_of_def)
    have z: "errors c = errors zero_counters" "settled c = settled zero_counters + length evs"
      using c by (simp_all add: zero_counters_def settled_def)
    from h have d: "distinct (map unique_id evs)" by blast
    from h have "\<forall>e\<in>set evs. snapshot_of E st evs (content_key e) = None" by blast
    then have n: "\<forall>e\<in>set evs. snap (content_key e) = None" by (simp only: snap)
    from first_run_links[OF run(5) z d n]
    have "\<forall>e\<in>set evs. linked E (synced_events sb) e" by blast
    then show "\<forall>e\<in>set evs. linked E (synced_events st1) e" by (simp only: s1)
  qed
qed

lemmas run_all_defs = sync_events_def reader_defs sync_defs event_defs time_window_def
  dt_min_def dt_max_def minus_one_day_def plus_one_day_def days_in_month_def leap_def
  run_response_def log_row_def str_min_def str_max_def index_entry_def

lemma renamed_env_simps:
  "sha256_hex renamed_env = (\<lambda>s. s)"
  "parse_datetime renamed_env = ex_parse"
  "iso_normalize renamed_env = Some"
  "int_of_float renamed_env = ex_int_of_float"
  "sheet_values renamed_env = Inr sheet_renamed"
  "events_list renamed_env = (\<lambda>k tmin tmax.
     Inr [[listed_entry (if k = 0 then ''Standup'' else ''Daily'')]])"
  "events_get renamed_env = (\<lambda>k cid. Inr (live_entry cid))"
  "events_insert renamed_env = (\<lambda>k body. Inr (''evt'' @ [digit k]))"
  "events_update renamed_env = (\<lambda>k cid body. Inr ())"
  by (simp_all add: renamed_env_def ex_env_def)

lemma listed_env_simps:
  "sha256_hex listed_env = (\<lambda>s. s)"
  "parse_datetime listed_env = ex_parse"
  "iso_normalize listed_env = Some"
  "int_of_float listed_env = ex_int_of_float"
  "sheet_values listed_env = Inr sheet_standup"
  "events_list listed_env = (\<lambda>k tmin tmax. Inr [[listed_entry ''Standup'']])"
  "events_get listed_env = (\<lambda>k cid. Inr (live_entry cid))"
  by (simp_all add: listed_env_def ex_env_def)

lemma ex_read_standup_listed:
  "read_sheet_events listed_env empty_state = (([standup], [], [(''A1'', 1)]), empty_state)"
  by (simp add: reader_defs listed_env_simps ex_defs standup_def)

lemma ex_relink_run:
  "sync_events listed_env ''manual'' empty_state = Inr (Completed relinked_result, relinked_state)"
proof -
  have sn: "get_existing_calendar_events listed_env
      \<lparr> year = 2025, month = 2, day = 28, hour = 9, minute = 0, second = 0 \<rparr>
      \<lparr> year = 2025, month = 3, day = 2, hour = 9, minute = 15, second = 0 \<rparr> empty_state
     = (snapshot_standup, empty_state\<lparr>calls := [standup_window]\<rparr>)"
    by (simp add: get_existing_calendar_events_def cal_list_def listed_env_simps empty_state_def
        standup_window_def index_entry_def listed_entry_def snapshot_standup_def strip_def
        is_space_def lower_def lower_char_def capital_letters_def small_letters_def Let_def)
  have lp: "sync_loop listed_env snapshot_standup [standup]
       (zero_counters, empty_state\<lparr>calls := [standup_window]\<rparr>)
     = (zero_counters\<lparr>skipped := 1\<rparr>,
        empty_state\<lparr>calls := [standup_window], synced_events := [standup_row ''evt1'']\<rparr>)"
    by (simp add: sync_loop_def sync_one_def record_phase_def relink_or_create_def
        sql_select_def sql_insert_or_replace_def new_row_def unique_id_def content_hash_def
        content_key_def event_defs listed_env_simps empty_state_def zero_counters_def
        ex_run_defs ex_defs snapshot_standup_def)
  show ?thesis
    using sync_events_run[OF ex_read_standup_listed _ ex_time_window sn lp, of "''manual''"]
    by (simp add: run_response_def log_row_def relinked_state_def relinked_result_def
        first_run_log_def zero_counters_def empty_state_def)
qed

theorem second_run_skips_all_witness:
  "read_sheet_events listed_env empty_state = (([standup], [], [(''A1'', 1)]), empty_state)
   \<and> sync_events listed_env ''manual'' empty_state
       = Inr (Completed relinked_result, relinked_state)
   \<and> rr_skipped relinked_result = 1
   \<and> linked listed_env (synced_events relinked_state) standup
   \<and> run_counts (sync_events listed_env ''manual'' relinked_state) = Some (0, 0, 1, 0)
   \<and> read_sheet_events (ex_env sheet_standup) empty_state
       = (([standup], [], [(''A1'', 1)]), empty_state)
   \<and> sync_events (ex_env sheet_standup) ''manual'' empty_state
       = Inr (Completed first_run_result, first_run_state)
   \<and> distinct (map unique_id [standup])
   \<and> rr_errors first_run_result = 0
   \<and> rr_created first_run_result + rr_updated first_run_result + rr_skipped first_run_result
       = rr_total_processed first_run_result
   \<and> linked (ex_env sheet_standup) (synced_events first_run_state) standup
   \<and> run_counts (sync_events (ex_env sheet_standup) ''manual'' first_run_state)
       = Some (0, 0, 1, 0)"
proof -
  note ta = second_run_skips_all[OF ex_read_standup_listed ex_relink_run]
  note tb = second_run_skips_all[OF ex_read_standup_full ex_first_run]
  have k: "rr_skipped relinked_result = 1" by (simp add: relinked_result_def)
  have la: "\<forall>e\<in>set [standup]. linked listed_env (synced_events relinked_state) e"
    by (simp add: linked_def relinked_state_def sql_select_def standup_row_def
        unique_id_def content_hash_def listed_env_simps standup_def ex_defs event_defs)
  have ga: "\<forall>k cid. length (calls relinked_state) \<le> k
      \<longrightarrow> (\<exists>g. events_get listed_env k cid = Inr g \<and> status g \<noteq> ''cancelled'')"
    by (simp add: listed_env_simps live_entry_def)
  from ta[THEN conjunct1, THEN mp, OF conjI, OF la ga]
  have ra: "run_counts (sync_events listed_env ''manual'' relinked_state) = Some (0, 0, 1, 0)"
    by (auto simp: run_counts_def)
  have h2: "distinct (map unique_id [standup])" by simp
  have h3: "\<forall>e\<in>set [standup].
      snapshot_of (ex_env sheet_standup) empty_state [standup] (content_key e) = None"
    by (simp add: snapshot_of_def ex_time_window get_existing_calendar_events_def cal_list_def
        ex_env_simps)
  have h5: "rr_errors first_run_result = 0"
    "rr_created first_run_result + rr_updated first_run_result + rr_skipped first_run_result
       = rr_total_processed first_run_result"
    by (simp_all add: first_run_result_def)
  have lb: "\<forall>e\<in>set [standup]. linked (ex_env sheet_standup) (synced_events first_run_state) e"
    using tb[THEN conjunct2, THEN mp] h2 h3 h5 by blast
  have gb: "\<forall>k cid. length (calls first_run_state) \<le> k
      \<longrightarrow> (\<exists>g. events_get (ex_env sheet_standup) k cid = Inr g \<and> status g \<noteq> ''cancelled'')"
    by (simp add: ex_env_simps live_entry_def)
  from tb[THEN conjunct1, THEN mp, OF conjI, OF lb gb]
  have rb: "run_counts (sync_events (ex_env sheet_standup) ''manual'' first_run_state)
       = Some (0, 0, 1, 0)"
    by (auto simp: run_counts_def)
  from la have la1: "linked listed_env (synced_events relinked_state) standup" by simp
  from lb have lb1: "linked (ex_env sheet_standup) (synced_events first_run_state) standup"
    by simp
  from ex_read_standup_listed ex_relink_run k la1 ra ex_read_standup_full ex_first_run h2 h5
    lb1 rb
  show ?thesis by blast
qed

text \<open>
  Two rows with the same Event ID and the same start time, named Standup and Review,
  share one unique id and one record. The first run creates the entry for the first row
  and updates it for the second (created 1, updated 1, no error); the second run, on
  the same sheet, finds for each row the hash of the other and updates twice.

  Two rows with different unique ids, A1 renamed from Standup to Daily and a new row B2
  named Standup, and the record of A1 linked to the entry \<^verbatim>\<open>evt1\<close>: the first run updates
  the entry for A1 and then links B2 to the same entry, which replaces the record of A1
  (updated 1, skipped 1, no error, no creation); the second run, on the same sheet,
  links A1 to the entry again and creates a new entry for B2.
\<close>

theorem second_run_not_skipped_counterexample:
  "map unique_id (fst (fst (read_sheet_events (ex_env sheet_same_key) empty_state)))
     = [''A1_2025-03-01T09:00:00'', ''A1_2025-03-01T09:00:00'']
   \<and> run_counts (sync_events (ex_env sheet_same_key) ''manual'' empty_state) = Some (1, 1, 0, 0)
   \<and> run_counts (sync_events (ex_env sheet_same_key) ''manual''
         (run_state (sync_events (ex_env sheet_same_key) ''manual'' empty_state)))
       = Some (0, 2, 0, 0)
   \<and> map unique_id (fst (fst (read_sheet_events renamed_env linked_state)))
     = [''A1_2025-03-01T09:00:00'', ''B2_2025-03-01T09:00:00'']
   \<and> run_counts (sync_events renamed_env ''manual'' linked_state) = Some (0, 1, 1, 0)
   \<and> run_counts (sync_events renamed_env ''manual''
         (run_state (sync_events renamed_env ''manual'' linked_state)))
       = Some (1, 0, 1, 0)"
proof -
  have a: "map unique_id (fst (fst (read_sheet_events (ex_env sheet_same_key) empty_state)))
     = [''A1_2025-03-01T09:00:00'', ''A1_2025-03-01T09:00:00'']
   \<and> run_counts (sync_events (ex_env sheet_same_key) ''manual'' empty_state) = Some (1, 1, 0, 0)
   \<and> run_counts (sync_events (ex_env sheet_same_key) ''manual''
         (run_state (sync_events (ex_env sheet_same_key) ''manual'' empty_state)))
       = Some (0, 2, 0, 0)"
    by (simp add: run_all_defs run_counts_def run_state_def sheet_same_key_def ex_env_simps
        ex_defs)
  have b: "map unique_id (fst (fst (read_sheet_events renamed_env linked_state)))
     = [''A1_2025-03-01T09:00:00'', ''B2_2025-03-01T09:00:00'']
   \<and> run_counts (sync_events renamed_env ''manual'' linked_state) = Some (0, 1, 1, 0)
   \<and> run_counts (sync_events renamed_env ''manual''
         (run_state (sync_events renamed_env ''manual'' linked_state)))
       = Some (1, 0, 1, 0)"
    by (simp add: run_all_defs run_counts_def run_state_def sheet_renamed_def renamed_env_simps
        linked_state_def standup_row_def listed_entry_def ex_defs)
  from a b show ?thesis by blast
qed

subsection \<open>The reader, row by row\<close>

lemma read_row_Inr:
  assumes "read_row E headers n row (v, b, t) = Inr (v1, b1, t1)"
  shows "v1 = v @ (case row_event E headers n row of Some e \<Rightarrow> [e] | None \<Rightarrow> [])"
    "t1 = (if row \<noteq> [] \<and> row_event_id headers row \<noteq> []
           then track_duplicate (row_event_id headers row) t else t)"
  using assms
  by (auto simp: read_row_def row_event_def row_event_id_def Let_def
      split: if_splits sum.splits ParsedDateTime.splits)

lemma read_row_no_raise:
  assumes "\<not> parser_raises E headers row"
  shows "\<exists>acc1. read_row E headers n row acc = Inr acc1"
proof -
  obtain v b t where a: "acc = (v, b, t)" by (metis prod_cases3)
  from assms show ?thesis
    unfolding a
    by (auto simp: read_row_def parser_raises_def row_event_id_def Let_def
        split: sum.splits ParsedDateTime.splits)
qed

lemma read_rows_no_raise:
  assumes "\<forall>row\<in>set rows. \<not> parser_raises E headers row"
  shows "\<exists>acc1. read_rows E headers n rows acc = Inr acc1"
  using assms
proof (induction rows arbitrary: n acc)
  case Nil
  show ?case by (rule exI[of _ acc]) simp
next
  case (Cons row rows)
  from Cons.prems have "\<not> parser_raises E headers row" by simp
  from read_row_no_raise[OF this, of n acc] obtain acc1 where
    r: "read_row E headers n row acc = Inr acc1" by blast
  from Cons.prems have "\<forall>row\<in>set rows. \<not> parser_raises E headers row" by simp
  from Cons.IH[OF this, of "Suc n" acc1] r show ?case by simp
qed

lemma row_event_Some:
  assumes "row_event E headers n row = Some ev"
  shows "row \<noteq> []" "sheet_id ev = row_event_id headers row" "sheet_id ev \<noteq> []" "is_valid ev"
    "row_number ev = n"
  using assms
  by (auto simp: row_event_def make_event_def Let_def
      split: if_splits sum.splits ParsedDateTime.splits)

lemma read_rows_valid_mono:
  assumes "read_rows E headers n rows (v, b, t) = Inr (v', b', t')"
  shows "set v \<subseteq> set v'"
  using assms
proof (induction rows arbitrary: n v b t)
  case Nil
  then show ?case by simp
next
  case (Cons row rows)
  from Cons.prems obtain v1 b1 t1 where r: "read_row E headers n row (v, b, t) = Inr (v1, b1, t1)"
    and rest: "read_rows E headers (Suc n) rows (v1, b1, t1) = Inr (v', b', t')"
    by (auto split: sum.splits)
  from read_row_Inr(1)[OF r] have "set v \<subseteq> set v1" by auto
  with Cons.IH[OF rest] show ?case by blast
qed

lemma read_rows_valid_mem:
  assumes "i < length rows" "row_event E headers (n + i) (rows ! i) = Some ev"
    and "read_rows E headers n rows (v, b, t) = Inr (v', b', t')"
  shows "ev \<in> set v'"
  using assms
proof (induction rows arbitrary: n i v b t)
  case Nil
  then show ?case by simp
next
  case (Cons row rows)
  from Cons.prems(3) obtain v1 b1 t1 where
    r: "read_row E headers n row (v, b, t) = Inr (v1, b1, t1)"
    and rest: "read_rows E headers (Suc n) rows (v1, b1, t1) = Inr (v', b', t')"
    by (auto split: sum.splits)
  show ?case
  proof (cases i)
    case 0
    with Cons.prems(2) read_row_Inr(1)[OF r] have "ev \<in> set v1" by auto
    with read_rows_valid_mono[OF rest] show ?thesis by blast
  next
    case (Suc k)
    with Cons.prems have "k < length rows" "row_event E headers (Suc n + k) (rows ! k) = Some ev"
      by simp_all
    from Cons.IH[OF this rest] show ?thesis .
  qed
qed

lemma map_of_track_duplicate:
  "map_of (track_duplicate eid t) x =
     (if x = eid then Some (case map_of t eid of Some k \<Rightarrow> k + 1 | None \<Rightarrow> 1)
      else map_of t x)"
  by (simp add: track_duplicate_def update_conv')

lemma read_rows_tally:
  assumes "eid \<noteq> []" "read_rows E headers n rows (v, b, t) = Inr (v', b', t')"
  shows "map_of t' eid =
     (if rows_with_id headers rows eid = 0 then map_of t eid
      else Some (rows_with_id headers rows eid
                 + (case map_of t eid of Some k \<Rightarrow> k | None \<Rightarrow> 0)))"
  using assms(2)
proof (induction rows arbitrary: n v b t)
  case Nil
  then show ?case by (simp add: rows_with_id_def)
next
  case (Cons row rows)
  from Cons.prems obtain v1 b1 t1 where
    r: "read_row E headers n row (v, b, t) = Inr (v1, b1, t1)"
    and rest: "read_rows E headers (Suc n) rows (v1, b1, t1) = Inr (v', b', t')"
    by (auto split: sum.splits)
  note t1 = read_row_Inr(2)[OF r]
  from Cons.IH[OF rest] t1 assms(1) show ?case
    by (auto simp: map_of_track_duplicate rows_with_id_def split: option.splits)
qed

lemma two_rows_counted:
  assumes "i < j" "j < length rows" "P (rows ! i)" "P (rows ! j)"
  shows "2 \<le> length (filter P rows)"
proof -
  have r: "rows = take j rows @ rows ! j # drop (Suc j) rows"
    using assms(2) by (rule id_take_nth_drop)
  have "rows ! i \<in> set (take j rows)"
    using assms(1,2) by (auto simp: in_set_conv_nth intro!: exI[of _ i])
  with assms(3) have "filter P (take j rows) \<noteq> []" by (auto simp: filter_empty_conv)
  then have "1 \<le> length (filter P (take j rows))" by (cases "filter P (take j rows)") simp_all
  moreover have "length (filter P rows)
      = length (filter P (take j rows)) + length (filter P (rows ! j # drop (Suc j) rows))"
    by (subst r) simp
  ultimately show ?thesis using assms(4) by simp
qed

lemma create_when_new:
  assumes "sql_select (synced_events s) (unique_id ev) = None"
    and "snap (content_key ev) = None"
    and "to_google_event E ev = Inr body"
    and "events_insert E (length (calls s)) body = Inr cid"
    and "cid \<noteq> []"
    and "cid \<notin> set (map calendar_event_id (synced_events s))"
  shows "fst (sync_one E snap ev (c, s)) = c\<lparr>created := created c + 1\<rparr>"
    "calls (snd (sync_one E snap ev (c, s))) = calls s @ [EventsInsert body]"
    "synced_events (snd (sync_one E snap ev (c, s))) = synced_events s @ [new_row E ev cid]"
proof -
  from assms(1) have u: "unique_id ev \<notin> unique_event_id ` set (synced_events s)"
    by (simp add: sql_select_None)
  from assms(6) have k: "cid \<notin> calendar_event_id ` set (synced_events s)" by simp
  from assms(1,2,3,4,5) u k
  show "fst (sync_one E snap ev (c, s)) = c\<lparr>created := created c + 1\<rparr>"
    "calls (snd (sync_one E snap ev (c, s))) = calls s @ [EventsInsert body]"
    "synced_events (snd (sync_one E snap ev (c, s))) = synced_events s @ [new_row E ev cid]"
    by (simp_all add: sync_one_def record_phase_def relink_or_create_def
        create_event_with_retry_unfold sql_insert_def new_row_def Let_def)
qed

lemma two_new_events_run:
  assumes rd: "read_sheet_events E st = (([ev1, ev2], bad, dup), st0)"
    and ne: "unique_id ev1 \<noteq> unique_id ev2"
    and tw: "time_window [ev1, ev2] = Inr (tmin, tmax)"
    and s1: "snapshot_of E st [ev1, ev2] (content_key ev1) = None"
    and s2: "snapshot_of E st [ev1, ev2] (content_key ev2) = None"
    and n1: "sql_select (synced_events st) (unique_id ev1) = None"
    and n2: "sql_select (synced_events st) (unique_id ev2) = None"
    and p1: "to_google_event E ev1 = Inr b1" and p2: "to_google_event E ev2 = Inr b2"
    and i1: "events_insert E (length (calls st) + 1) b1 = Inr id1"
    and i2: "events_insert E (length (calls st) + 2) b2 = Inr id2"
    and f: "id1 \<noteq> []" "id2 \<noteq> []" "id1 \<noteq> id2"
      "id1 \<notin> set (map calendar_event_id (synced_events st))"
      "id2 \<notin> set (map calendar_event_id (synced_events st))"
  shows "\<exists>r st2. sync_events E source st = Inr (Completed r, st2)
           \<and> rr_created r = 2 \<and> rr_updated r = 0 \<and> rr_skipped r = 0 \<and> rr_errors r = 0
           \<and> synced_events st2 = synced_events st @ [new_row E ev1 id1, new_row E ev2 id2]
           \<and> calls st2 = calls st @ [EventsList tmin tmax, EventsInsert b1, EventsInsert b2]"
proof -
  note f0 = read_sheet_events_frame[OF rd]
  obtain snap st1 where sn: "get_existing_calendar_events E tmin tmax st0 = (snap, st1)"
    by force
  note g = snapshot_frame[OF sn]
  have snap: "snap = snapshot_of E st [ev1, ev2]"
    using tw sn snapshot_same_calls[OF f0(4), of E tmin tmax] by (simp add: snapshot_of_def)
  obtain c1 sa where a: "sync_one E snap ev1 (zero_counters, st1) = (c1, sa)" by force
  have a1: "sql_select (synced_events st1) (unique_id ev1) = None" using n1 f0(1) g(1) by simp
  have a2: "snap (content_key ev1) = None" using s1 by (simp only: snap)
  have a4: "events_insert E (length (calls st1)) b1 = Inr id1" using i1 f0(4) g(7) by simp
  have a6: "id1 \<notin> set (map calendar_event_id (synced_events st1))"
    using f(4) f0(1) g(1) by simp
  note k1 = create_when_new[where snap = snap and c = zero_counters, OF a1 a2 p1 a4 f(1) a6]
  from k1 a have c1: "c1 = zero_counters\<lparr>created := 1\<rparr>"
    and sa: "calls sa = calls st1 @ [EventsInsert b1]"
      "synced_events sa = synced_events st1 @ [new_row E ev1 id1]"
    by (simp_all add: zero_counters_def)
  obtain c2 sb where b: "sync_one E snap ev2 (c1, sa) = (c2, sb)" by force
  have b1: "sql_select (synced_events sa) (unique_id ev2) = None"
    using n2 ne f0(1) g(1) by (simp add: sa sql_select_append new_row_def)
  have b2: "snap (content_key ev2) = None" using s2 by (simp only: snap)
  have b4: "events_insert E (length (calls sa)) b2 = Inr id2"
    using i2 f0(4) g(7) by (simp add: sa)
  have b6: "id2 \<notin> set (map calendar_event_id (synced_events sa))"
    using f(3,5) f0(1) g(1) by (auto simp: sa new_row_def)
  note k2 = create_when_new[where snap = snap and c = c1, OF b1 b2 p2 b4 f(2) b6]
  from k2 b have c2: "c2 = zero_counters\<lparr>created := 2\<rparr>"
    and sb: "calls sb = calls st1 @ [EventsInsert b1, EventsInsert b2]"
      "synced_events sb = synced_events st1 @ [new_row E ev1 id1, new_row E ev2 id2]"
    by (simp_all add: c1 sa zero_counters_def)
  have lp: "sync_loop E snap [ev1, ev2] (zero_counters, st1) = (c2, sb)"
    by (simp add: sync_loop_def a b)
  from sync_events_run[OF rd _ tw sn lp, of source] sb f0(1,4) g(1,7)
  show ?thesis by (simp add: run_response_def c2 zero_counters_def)
qed

text \<open>
  C6. Two rows of the sheet with the same Event ID, each giving a valid event, with
  different start times, on a sheet where the parser raises on no row. The reader
  returns both events; their unique ids are the sheet id, an underscore and the ISO
  start time, and differ; the tally gives the Event ID the number of rows that carry
  it, at least 2.

  Each of the two events is reconciled under its own unique id. With no record under
  that id, no entry for it in the snapshot, a payload and an insert call that returns a
  new id, one entry is inserted, the event is counted as created and a record links its
  unique id to the new entry. Whenever the event is counted as created, updated or
  skipped, the table holds a record under its unique id with its hash. Unless the event
  is linked to an entry of the snapshot, its turn leaves the record of the other event
  as it is. In the table a run leaves, the records of the two never share a calendar
  entry. When the two are the valid events of the sheet, neither has a record or an
  entry in the snapshot, and the two insert calls return two new ids, the run makes
  the listing call and the two insert calls, counts two creations and nothing else,
  and appends the two records, each with its own entry.
\<close>

theorem duplicate_event_id_distinct_keys:
  assumes "sheet_values E = Inr (headers # rows)"
    and "\<forall>row\<in>set rows. \<not> parser_raises E headers row"
    and "i < j" "j < length rows"
    and "row_event E headers (i + 2) (rows ! i) = Some ev1"
    and "row_event E headers (j + 2) (rows ! j) = Some ev2"
    and "sheet_id ev1 = sheet_id ev2"
    and "start_time ev1 \<noteq> start_time ev2"
    and "valid_datetime (start_time ev1)" "valid_datetime (start_time ev2)"
    and "read_sheet_events E st = ((valid_events, bad, tally), st0)"
  shows "ev1 \<in> set valid_events \<and> ev2 \<in> set valid_events
       \<and> unique_id ev1 = sheet_id ev1 @ ''_'' @ isoformat (start_time ev1)
       \<and> unique_id ev2 = sheet_id ev2 @ ''_'' @ isoformat (start_time ev2)
       \<and> unique_id ev1 \<noteq> unique_id ev2
       \<and> map_of tally (sheet_id ev1) = Some (rows_with_id headers rows (sheet_id ev1))
       \<and> 2 \<le> rows_with_id headers rows (sheet_id ev1)
       \<and> ((ev = ev1 \<and> other = ev2 \<or> ev = ev2 \<and> other = ev1) \<longrightarrow>
            (sql_select (synced_events s) (unique_id ev) = None
               \<and> snap (content_key ev) = None
               \<and> to_google_event E ev = Inr body
               \<and> events_insert E (length (calls s)) body = Inr cid
               \<and> cid \<noteq> [] \<and> cid \<notin> set (map calendar_event_id (synced_events s))
             \<longrightarrow> fst (sync_one E snap ev (c, s)) = c\<lparr>created := created c + 1\<rparr>
                 \<and> calls (snd (sync_one E snap ev (c, s))) = calls s @ [EventsInsert body]
                 \<and> synced_events (snd (sync_one E snap ev (c, s)))
                     = synced_events s @ [new_row E ev cid])
            \<and> (sync_one E snap ev (c, s) = (c', s')
                 \<and> errors c' = errors c \<and> settled c' = settled c + 1
               \<longrightarrow> linked E (synced_events s') ev)
            \<and> (sync_one E snap ev (c, s) = (c', s') \<and> snap (content_key ev) = None
               \<longrightarrow> sql_select (synced_events s') (unique_id other)
                     = sql_select (synced_events s) (unique_id other)))
       \<and> (unique_rows (synced_events st) \<and> sync_events E source st = Inr (resp, st')
            \<longrightarrow> (\<forall>r1 r2. r1 \<in> set (synced_events st') \<and> r2 \<in> set (synced_events st')
                    \<and> unique_event_id r1 = unique_id ev1 \<and> unique_event_id r2 = unique_id ev2
                  \<longrightarrow> calendar_event_id r1 \<noteq> calendar_event_id r2))
       \<and> (valid_events = [ev1, ev2]
            \<and> time_window [ev1, ev2] = Inr (tmin, tmax)
            \<and> snapshot_of E st [ev1, ev2] (content_key ev1) = None
            \<and> snapshot_of E st [ev1, ev2] (content_key ev2) = None
            \<and> sql_select (synced_events st) (unique_id ev1) = None
            \<and> sql_select (synced_events st) (unique_id ev2) = None
            \<and> to_google_event E ev1 = Inr body_a \<and> to_google_event E ev2 = Inr body_b
            \<and> events_insert E (length (calls st) + 1) body_a = Inr cid_a
            \<and> events_insert E (length (calls st) + 2) body_b = Inr cid_b
            \<and> cid_a \<noteq> [] \<and> cid_b \<noteq> [] \<and> cid_a \<noteq> cid_b
            \<and> cid_a \<notin> set (map calendar_event_id (synced_events st))
            \<and> cid_b \<notin> set (map calendar_event_id (synced_events st))
          \<longrightarrow> (\<exists>r st2. sync_events E source st = Inr (Completed r, st2)
                 \<and> rr_created r = 2 \<and> rr_updated r = 0 \<and> rr_skipped r = 0
                 \<and> rr_errors r = 0
                 \<and> synced_events st2
                     = synced_events st @ [new_row E ev1 cid_a, new_row E ev2 cid_b]
                 \<and> calls st2 = calls st @ [EventsList tmin tmax, EventsInsert body_a,
                                            EventsInsert body_b]))"
proof -
  from assms(3,4) have len: "\<not> length (headers # rows) < 2" "i < length rows" by auto
  from read_rows_no_raise[OF assms(2), of 2 "([], [], [])"] obtain acc1 where
    "read_rows E headers 2 rows ([], [], []) = Inr acc1" by blast
  with assms(1,11) len(1)
  have rd: "read_rows E headers 2 rows ([], [], []) = Inr (valid_events, bad, tally)"
    by (auto simp: read_sheet_events_def split: prod.splits)
  have m1: "ev1 \<in> set valid_events"
    using read_rows_valid_mem[OF len(2) _ rd, of ev1] assms(5) by (simp add: add.commute)
  have m2: "ev2 \<in> set valid_events"
    using read_rows_valid_mem[OF assms(4) _ rd, of ev2] assms(6) by (simp add: add.commute)
  have ne: "unique_id ev1 \<noteq> unique_id ev2"
    using unique_id_inj[OF assms(9,10)] assms(8) by blast
  have eid: "sheet_id ev1 \<noteq> []" using row_event_Some(3)[OF assms(5)] .
  have p: "rows ! i \<noteq> [] \<and> row_event_id headers (rows ! i) = sheet_id ev1"
    "rows ! j \<noteq> [] \<and> row_event_id headers (rows ! j) = sheet_id ev1"
    using row_event_Some(1,2)[OF assms(5)] row_event_Some(1,2)[OF assms(6)] assms(7)
    by simp_all
  have two: "2 \<le> rows_with_id headers rows (sheet_id ev1)"
    unfolding rows_with_id_def
    by (rule two_rows_counted[OF assms(3,4), where
          P = "\<lambda>row. row \<noteq> [] \<and> row_event_id headers row = sheet_id ev1", OF p])
  have tl: "map_of tally (sheet_id ev1) = Some (rows_with_id headers rows (sheet_id ev1))"
    using read_rows_tally[OF eid rd] two by simp
  have rows: "calendar_event_id r1 \<noteq> calendar_event_id r2"
    if h: "unique_rows (synced_events st) \<and> sync_events E source st = Inr (resp, st')"
      and r: "r1 \<in> set (synced_events st') \<and> r2 \<in> set (synced_events st')
            \<and> unique_event_id r1 = unique_id ev1 \<and> unique_event_id r2 = unique_id ev2"
    for r1 r2
  proof -
    from h sync_events_unique[of st E source resp st']
    have "distinct (map calendar_event_id (synced_events st'))" by (simp add: unique_rows_def)
    then have "inj_on calendar_event_id (set (synced_events st'))" by (simp add: distinct_map)
    moreover from r ne have "r1 \<noteq> r2" by auto
    ultimately show ?thesis using r by (auto dest: inj_onD)
  qed
  have step: "(sql_select (synced_events s) (unique_id ev) = None
               \<and> snap (content_key ev) = None
               \<and> to_google_event E ev = Inr body
               \<and> events_insert E (length (calls s)) body = Inr cid
               \<and> cid \<noteq> [] \<and> cid \<notin> set (map calendar_event_id (synced_events s))
             \<longrightarrow> fst (sync_one E snap ev (c, s)) = c\<lparr>created := created c + 1\<rparr>
                 \<and> calls (snd (sync_one E snap ev (c, s))) = calls s @ [EventsInsert body]
                 \<and> synced_events (snd (sync_one E snap ev (c, s)))
                     = synced_events s @ [new_row E ev cid])
            \<and> (sync_one E snap ev (c, s) = (c', s')
                 \<and> errors c' = errors c \<and> settled c' = settled c + 1
               \<longrightarrow> linked E (synced_events s') ev)
            \<and> (sync_one E snap ev (c, s) = (c', s') \<and> snap (content_key ev) = None
               \<longrightarrow> sql_select (synced_events s') (unique_id other)
                     = sql_select (synced_events s) (unique_id other))"
    if o: "ev = ev1 \<and> other = ev2 \<or> ev = ev2 \<and> other = ev1"
  proof (intro conjI impI)
    assume a: "sql_select (synced_events s) (unique_id ev) = None
               \<and> snap (content_key ev) = None
               \<and> to_google_event E ev = Inr body
               \<and> events_insert E (length (calls s)) body = Inr cid
               \<and> cid \<noteq> [] \<and> cid \<notin> set (map calendar_event_id (synced_events s))"
    then have a1: "sql_select (synced_events s) (unique_id ev) = None"
      and a2: "snap (content_key ev) = None"
      and a3: "to_google_event E ev = Inr body"
      and a4: "events_insert E (length (calls s)) body = Inr cid"
      and a5: "cid \<noteq> []" and a6: "cid \<notin> set (map calendar_event_id (synced_events s))"
      by blast+
    show "fst (sync_one E snap ev (c, s)) = c\<lparr>created := created c + 1\<rparr>"
      by (rule create_when_new(1)[where snap = snap, OF a1 a2 a3 a4 a5 a6])
    show "calls (snd (sync_one E snap ev (c, s))) = calls s @ [EventsInsert body]"
      by (rule create_when_new(2)[where snap = snap, OF a1 a2 a3 a4 a5 a6])
    show "synced_events (snd (sync_one E snap ev (c, s))) = synced_events s @ [new_row E ev cid]"
      by (rule create_when_new(3)[where snap = snap, OF a1 a2 a3 a4 a5 a6])
  next
    assume "sync_one E snap ev (c, s) = (c', s')
                 \<and> errors c' = errors c \<and> settled c' = settled c + 1"
    then show "linked E (synced_events s') ev"
      using sync_one_links_self[of E snap ev c s c' s'] by blast
  next
    assume b: "sync_one E snap ev (c, s) = (c', s') \<and> snap (content_key ev) = None"
    from o ne have "unique_id other \<noteq> unique_id ev" by auto
    with b show "sql_select (synced_events s') (unique_id other)
                     = sql_select (synced_events s) (unique_id other)"
      using sync_one_select_other[of E snap ev c s c' s' "unique_id other"] by blast
  qed
  have whole: "\<exists>r st2. sync_events E source st = Inr (Completed r, st2)
                 \<and> rr_created r = 2 \<and> rr_updated r = 0 \<and> rr_skipped r = 0
                 \<and> rr_errors r = 0
                 \<and> synced_events st2
                     = synced_events st @ [new_row E ev1 cid_a, new_row E ev2 cid_b]
                 \<and> calls st2 = calls st @ [EventsList tmin tmax, EventsInsert body_a,
                                            EventsInsert body_b]"
    if h: "valid_events = [ev1, ev2]
            \<and> time_window [ev1, ev2] = Inr (tmin, tmax)
            \<and> snapshot_of E st [ev1, ev2] (content_key ev1) = None
            \<and> snapshot_of E st [ev1, ev2] (content_key ev2) = None
            \<and> sql_select (synced_events st) (unique_id ev1) = None
            \<and> sql_select (synced_events st) (unique_id ev2) = None
            \<and> to_google_event E ev1 = Inr body_a \<and> to_google_event E ev2 = Inr body_b
            \<and> events_insert E (length (calls st) + 1) body_a = Inr cid_a
            \<and> events_insert E (length (calls st) + 2) body_b = Inr cid_b
            \<and> cid_a \<noteq> [] \<and> cid_b \<noteq> [] \<and> cid_a \<noteq> cid_b
            \<and> cid_a \<notin> set (map calendar_event_id (synced_events st))
            \<and> cid_b \<notin> set (map calendar_event_id (synced_events st))"
  proof -
    from h assms(11) have r: "read_sheet_events E st = (([ev1, ev2], bad, tally), st0)"
      by simp
    from h have w: "time_window [ev1, ev2] = Inr (tmin, tmax)"
      and q1: "snapshot_of E st [ev1, ev2] (content_key ev1) = None"
      and q2: "snapshot_of E st [ev1, ev2] (content_key ev2) = None"
      and n1: "sql_select (synced_events st) (unique_id ev1) = None"
      and n2: "sql_select (synced_events st) (unique_id ev2) = None"
      and p1: "to_google_event E ev1 = Inr body_a" and p2: "to_google_event E ev2 = Inr body_b"
      and i1: "events_insert E (length (calls st) + 1) body_a = Inr cid_a"
      and i2: "events_insert E (length (calls st) + 2) body_b = Inr cid_b"
      and f: "cid_a \<noteq> []" "cid_b \<noteq> []" "cid_a \<noteq> cid_b"
        "cid_a \<notin> set (map calendar_event_id (synced_events st))"
        "cid_b \<notin> set (map calendar_event_id (synced_events st))"
      by blast+
    show ?thesis
      by (rule two_new_events_run[OF r ne w q1 q2 n1 n2 p1 p2 i1 i2 f])
  qed
  from m1 m2 ne tl two rows step whole show ?thesis by (simp add: unique_id_def)
qed

lemma ex_row_events:
  "row_event (ex_env sheet_two_times) sheet_header (0 + 2) (tl sheet_two_times ! 0)
     = Some (standup_e1 t0900 t0915 2)"
  "row_event (ex_env sheet_two_times) sheet_header (1 + 2) (tl sheet_two_times ! 1)
     = Some (standup_e1 t1000 t1015 3)"
  by (simp_all add: row_event_def row_event_id_def reader_defs ex_env_simps ex_parse_def
      sheet_two_times_def sheet_header_def standup_e1_def t0900_def t0915_def t1000_def
      t1015_def)

lemma ex_read_two_times:
  "read_sheet_events (ex_env sheet_two_times) empty_state
     = (([standup_e1 t0900 t0915 2, standup_e1 t1000 t1015 3], [], [(''E1'', 2)]),
        empty_state\<lparr>duplicate_events :=
          [\<lparr> de_sheet_event_id = ''E1'', occurrences = 2, de_event_name = ''Standup'',
             first_occurrence = ''2025-03-01T09:00:00'',
             last_occurrence = ''2025-03-01T10:00:00'' \<rparr>]\<rparr>)"
  by (simp add: reader_defs ex_env_simps ex_parse_def sheet_two_times_def sheet_header_def
      standup_e1_def t0900_def t0915_def t1000_def t1015_def empty_state_def
      str_min_def str_max_def isoformat_def format_datetime_def pad2_def pad4_def digit_def)

lemma ex_no_raise_two_times:
  "\<forall>row\<in>set (tl sheet_two_times). \<not> parser_raises (ex_env sheet_two_times) sheet_header row"
  by (simp add: parser_raises_def row_event_id_def event_data_def get_default_def
      ex_env_simps ex_parse_def sheet_two_times_def sheet_header_def)

lemma ex_e1_strings:
  "to_google_event E (standup_e1 t0900 t0915 2)
     = Inr (standup_payload)"
  "to_google_event E (standup_e1 t1000 t1015 3)
     = Inr (standup_payload\<lparr>start_dateTime := ''2025-03-01T10:00:00'',
                             end_dateTime := ''2025-03-01T10:15:00''\<rparr>)"
  "unique_id (standup_e1 t0900 t0915 2) = ''E1_2025-03-01T09:00:00''"
  "unique_id (standup_e1 t1000 t1015 3) = ''E1_2025-03-01T10:00:00''"
  "content_key (standup_e1 t0900 t0915 2) = ''standup|2025-03-01T09:00:00''"
  "content_key (standup_e1 t1000 t1015 3) = ''standup|2025-03-01T10:00:00''"
  by (simp_all add: event_defs ex_run_defs ex_defs standup_e1_def unique_id_def content_key_def)

theorem duplicate_event_id_distinct_keys_witness:
  "sheet_values (ex_env sheet_two_times) = Inr (sheet_header # tl sheet_two_times)
   \<and> \<not> parser_raises (ex_env sheet_two_times) sheet_header (tl sheet_two_times ! 0)
   \<and> \<not> parser_raises (ex_env sheet_two_times) sheet_header (tl sheet_two_times ! 1)
   \<and> (0::nat) < 1 \<and> 1 < length (tl sheet_two_times)
   \<and> row_event (ex_env sheet_two_times) sheet_header (0 + 2) (tl sheet_two_times ! 0)
       = Some (standup_e1 t0900 t0915 2)
   \<and> row_event (ex_env sheet_two_times) sheet_header (1 + 2) (tl sheet_two_times ! 1)
       = Some (standup_e1 t1000 t1015 3)
   \<and> sheet_id (standup_e1 t0900 t0915 2) = sheet_id (standup_e1 t1000 t1015 3)
   \<and> start_time (standup_e1 t0900 t0915 2) \<noteq> start_time (standup_e1 t1000 t1015 3)
   \<and> valid_datetime (start_time (standup_e1 t0900 t0915 2))
   \<and> valid_datetime (start_time (standup_e1 t1000 t1015 3))
   \<and> fst (read_sheet_events (ex_env sheet_two_times) empty_state)
       = ([standup_e1 t0900 t0915 2, standup_e1 t1000 t1015 3], [], [(''E1'', 2)])
   \<and> unique_id (standup_e1 t0900 t0915 2) \<noteq> unique_id (standup_e1 t1000 t1015 3)
   \<and> map_of [(''E1'', 2 :: nat)] (sheet_id (standup_e1 t0900 t0915 2))
       = Some (rows_with_id sheet_header (tl sheet_two_times) ''E1'')
   \<and> rows_with_id sheet_header (tl sheet_two_times) ''E1'' = 2
   \<and> fst (sync_one (ex_env sheet_two_times) Map.empty (standup_e1 t0900 t0915 2)
            (zero_counters, empty_state)) = zero_counters\<lparr>created := 1\<rparr>
   \<and> synced_events (snd (sync_one (ex_env sheet_two_times) Map.empty (standup_e1 t0900 t0915 2)
            (zero_counters, empty_state)))
       = [new_row (ex_env sheet_two_times) (standup_e1 t0900 t0915 2) ''evt0'']
   \<and> run_counts (sync_events (ex_env sheet_two_times) ''manual'' empty_state)
       = Some (2, 0, 0, 0)
   \<and> map (\<lambda>r. (unique_event_id r, calendar_event_id r))
        (synced_events (run_state (sync_events (ex_env sheet_two_times) ''manual'' empty_state)))
       = [(''E1_2025-03-01T09:00:00'', ''evt1''), (''E1_2025-03-01T10:00:00'', ''evt2'')]"
proof -
  have h1: "sheet_values (ex_env sheet_two_times) = Inr (sheet_header # tl sheet_two_times)"
    by (simp add: ex_env_simps sheet_two_times_def)
  have h2: "(0::nat) < 1" "1 < length (tl sheet_two_times)" by (simp_all add: sheet_two_times_def)
  have h6: "sheet_id (standup_e1 t0900 t0915 2) = sheet_id (standup_e1 t1000 t1015 3)"
    "start_time (standup_e1 t0900 t0915 2) \<noteq> start_time (standup_e1 t1000 t1015 3)"
    by (simp_all add: standup_e1_def t0900_def t1000_def)
  have h8: "valid_datetime (start_time (standup_e1 t0900 t0915 2))"
    "valid_datetime (start_time (standup_e1 t1000 t1015 3))"
    by (simp_all add: standup_e1_def valid_datetime_def days_in_month_def t0900_def t1000_def)
  have rd: "fst (read_sheet_events (ex_env sheet_two_times) empty_state)
       = ([standup_e1 t0900 t0915 2, standup_e1 t1000 t1015 3], [], [(''E1'', 2)])"
    by (simp add: ex_read_two_times)
  have n: "rows_with_id sheet_header (tl sheet_two_times) ''E1'' = 2"
    by (simp add: rows_with_id_def row_event_id_def event_data_def get_default_def
        sheet_two_times_def sheet_header_def)
  note t = duplicate_event_id_distinct_keys[OF h1 ex_no_raise_two_times h2 ex_row_events h6 h8
      ex_read_two_times, where ev = "standup_e1 t0900 t0915 2"
      and other = "standup_e1 t1000 t1015 3" and s = empty_state and snap = Map.empty
      and body = standup_payload and cid = "''evt0''" and c = zero_counters
      and source = "''manual''" and body_a = standup_payload
      and body_b = "standup_payload\<lparr>start_dateTime := ''2025-03-01T10:00:00'',
                                    end_dateTime := ''2025-03-01T10:15:00''\<rparr>"
      and cid_a = "''evt1''" and cid_b = "''evt2''"
      and tmin = "\<lparr> year = 2025, month = 2, day = 28, hour = 9, minute = 0, second = 0 \<rparr>"
      and tmax = "\<lparr> year = 2025, month = 3, day = 2, hour = 10, minute = 15, second = 0 \<rparr>"]
  note ne = t[THEN conjunct2, THEN conjunct2, THEN conjunct2, THEN conjunct2, THEN conjunct1]
  note tl = t[THEN conjunct2, THEN conjunct2, THEN conjunct2, THEN conjunct2, THEN conjunct2,
      THEN conjunct1]
  have o: "standup_e1 t0900 t0915 2 = standup_e1 t0900 t0915 2
        \<and> standup_e1 t1000 t1015 3 = standup_e1 t1000 t1015 3
      \<or> standup_e1 t0900 t0915 2 = standup_e1 t1000 t1015 3
        \<and> standup_e1 t1000 t1015 3 = standup_e1 t0900 t0915 2" by simp
  have a: "sql_select (synced_events empty_state) (unique_id (standup_e1 t0900 t0915 2)) = None
      \<and> Map.empty (content_key (standup_e1 t0900 t0915 2)) = None
      \<and> to_google_event (ex_env sheet_two_times) (standup_e1 t0900 t0915 2) = Inr standup_payload
      \<and> events_insert (ex_env sheet_two_times) (length (calls empty_state)) standup_payload
          = Inr ''evt0''
      \<and> ''evt0'' \<noteq> [] \<and> ''evt0'' \<notin> set (map calendar_event_id (synced_events empty_state))"
    by (simp add: sql_select_def empty_state_def ex_e1_strings(1) ex_env_simps digit_def)
  note cr = t[THEN conjunct2, THEN conjunct2, THEN conjunct2, THEN conjunct2, THEN conjunct2,
      THEN conjunct2, THEN conjunct2, THEN conjunct1, THEN mp, OF o, THEN conjunct1,
      THEN mp, OF a]
  have k: "sheet_id (standup_e1 t0900 t0915 2) = ''E1''" by (simp add: standup_e1_def)
  have w: "time_window [standup_e1 t0900 t0915 2, standup_e1 t1000 t1015 3] =
     Inr (\<lparr> year = 2025, month = 2, day = 28, hour = 9, minute = 0, second = 0 \<rparr>,
          \<lparr> year = 2025, month = 3, day = 2, hour = 10, minute = 15, second = 0 \<rparr>)"
    by (simp add: time_window_def standup_e1_def ex_defs dt_min_def dt_max_def dt_less_def
        dt_fields_def minus_one_day_def plus_one_day_def days_in_month_def leap_def)
  have b: "[standup_e1 t0900 t0915 2, standup_e1 t1000 t1015 3]
        = [standup_e1 t0900 t0915 2, standup_e1 t1000 t1015 3]
      \<and> time_window [standup_e1 t0900 t0915 2, standup_e1 t1000 t1015 3] =
         Inr (\<lparr> year = 2025, month = 2, day = 28, hour = 9, minute = 0, second = 0 \<rparr>,
              \<lparr> year = 2025, month = 3, day = 2, hour = 10, minute = 15, second = 0 \<rparr>)
      \<and> snapshot_of (ex_env sheet_two_times) empty_state
           [standup_e1 t0900 t0915 2, standup_e1 t1000 t1015 3]
           (content_key (standup_e1 t0900 t0915 2)) = None
      \<and> snapshot_of (ex_env sheet_two_times) empty_state
           [standup_e1 t0900 t0915 2, standup_e1 t1000 t1015 3]
           (content_key (standup_e1 t1000 t1015 3)) = None
      \<and> sql_select (synced_events empty_state) (unique_id (standup_e1 t0900 t0915 2)) = None
      \<and> sql_select (synced_events empty_state) (unique_id (standup_e1 t1000 t1015 3)) = None
      \<and> to_google_event (ex_env sheet_two_times) (standup_e1 t0900 t0915 2)
          = Inr standup_payload
      \<and> to_google_event (ex_env sheet_two_times) (standup_e1 t1000 t1015 3)
          = Inr (standup_payload\<lparr>start_dateTime := ''2025-03-01T10:00:00'',
                                  end_dateTime := ''2025-03-01T10:15:00''\<rparr>)
      \<and> events_insert (ex_env sheet_two_times) (length (calls empty_state) + 1) standup_payload
          = Inr ''evt1''
      \<and> events_insert (ex_env sheet_two_times) (length (calls empty_state) + 2)
           (standup_payload\<lparr>start_dateTime := ''2025-03-01T10:00:00'',
                             end_dateTime := ''2025-03-01T10:15:00''\<rparr>) = Inr ''evt2''
      \<and> ''evt1'' \<noteq> [] \<and> ''evt2'' \<noteq> [] \<and> ''evt1'' \<noteq> ''evt2''
      \<and> ''evt1'' \<notin> set (map calendar_event_id (synced_events empty_state))
      \<and> ''evt2'' \<notin> set (map calendar_event_id (synced_events empty_state))"
    by (simp add: w snapshot_of_def get_existing_calendar_events_def cal_list_def
        sql_select_def empty_state_def ex_e1_strings(1,2) ex_env_simps digit_def)
  note wh = t[THEN conjunct2, THEN conjunct2, THEN conjunct2, THEN conjunct2, THEN conjunct2,
      THEN conjunct2, THEN conjunct2, THEN conjunct2, THEN conjunct2, THEN mp, OF b]
  from wh
  have run: "run_counts (sync_events (ex_env sheet_two_times) ''manual'' empty_state)
       = Some (2, 0, 0, 0)
   \<and> map (\<lambda>r. (unique_event_id r, calendar_event_id r))
        (synced_events (run_state (sync_events (ex_env sheet_two_times) ''manual'' empty_state)))
       = [(''E1_2025-03-01T09:00:00'', ''evt1''), (''E1_2025-03-01T10:00:00'', ''evt2'')]"
    by (auto simp: run_counts_def run_state_def new_row_def ex_e1_strings(3,4) empty_state_def)
  have nr: "\<not> parser_raises (ex_env sheet_two_times) sheet_header (tl sheet_two_times ! 0)"
    "\<not> parser_raises (ex_env sheet_two_times) sheet_header (tl sheet_two_times ! 1)"
    using ex_no_raise_two_times by (simp_all add: sheet_two_times_def)
  from h1 nr h2 ex_row_events h6 h8 rd ne tl n
    cr[THEN conjunct1] cr[THEN conjunct2, THEN conjunct2] run
  show ?thesis by (simp add: k zero_counters_def empty_state_def)
qed

text \<open>
  Three rows with the Event ID E1 and three different start times, the end of the third
  not after its start: the reader returns two events, reports row 4 as invalid and
  tallies E1 with 3; the run creates two entries. Two rows with the Event ID E1 and
  different start cells, the second with a year that the parser cannot hold: the
  exception leaves the parser, the reader returns no event, no invalid row and no
  tally, and the run ends with the status \<^verbatim>\<open>'error'\<close>.
\<close>

theorem same_event_id_rows_counterexample:
  "fst (fst (read_sheet_events (ex_env sheet_three_rows) empty_state))
     = [standup_e1 t0900 t0915 2, standup_e1 t1000 t1015 3]
   \<and> map ie_row (fst (snd (fst (read_sheet_events (ex_env sheet_three_rows) empty_state)))) = [4]
   \<and> snd (snd (fst (read_sheet_events (ex_env sheet_three_rows) empty_state))) = [(''E1'', 3)]
   \<and> run_counts (sync_events (ex_env sheet_three_rows) ''manual'' empty_state)
       = Some (2, 0, 0, 0)
   \<and> fst (read_sheet_events (ex_env sheet_huge_year) empty_state) = ([], [], [])
   \<and> map_sum id (\<lambda>x. response_status (fst x))
        (sync_events (ex_env sheet_huge_year) ''manual'' empty_state) = Inr ''error''"
proof -
  have a: "fst (fst (read_sheet_events (ex_env sheet_three_rows) empty_state))
     = [standup_e1 t0900 t0915 2, standup_e1 t1000 t1015 3]
   \<and> map ie_row (fst (snd (fst (read_sheet_events (ex_env sheet_three_rows) empty_state)))) = [4]
   \<and> snd (snd (fst (read_sheet_events (ex_env sheet_three_rows) empty_state))) = [(''E1'', 3)]"
    by (simp add: reader_defs ex_env_simps ex_parse_def sheet_three_rows_def sheet_header_def
      standup_e1_def t0900_def t0915_def t1000_def t1015_def empty_state_def)
  have b: "run_counts (sync_events (ex_env sheet_three_rows) ''manual'' empty_state)
       = Some (2, 0, 0, 0)"
    by (simp add: run_all_defs run_counts_def sheet_three_rows_def ex_env_simps ex_defs)
  have c: "read_sheet_events (ex_env sheet_huge_year) empty_state = (([], [], []), empty_state)"
    by (simp add: reader_defs ex_env_simps ex_parse_def sheet_huge_year_def sheet_header_def
      t0900_def t0915_def empty_state_def)
  from a b c sync_events_empty[OF c, of "''manual''"] show ?thesis by simp
qed

end
